(* ===== verification/Kube_Prelude.thy ===== *)
theory Kube_Prelude
  imports Main "HOL-Library.Word" "HOL-Library.State_Monad"
begin

text \<open>
  Shared vocabulary of the kube-ovs development: Go's machine integers, errors and
  fallible calls, and the generic lemmas on words, lists and state-threading calls that
  the component theories use.

  A Go function that returns \<open>(T, error)\<close> is modelled by a value of \<open>'a result\<close>
  (\<open>Inl\<close> the error). A Go function that also acts on shared or external state is a
  \<open>('s, 'a result) state\<close>: it threads the state explicitly. A Go panic (nil
  dereference, index out of range) is never an error value: functions that can panic
  return \<open>'a outcome\<close>.
\<close>

named_theorems go_defs \<open>definitions of the small Go helper operations\<close>
named_theorems run_simps \<open>evaluation of state-threading calls\<close>

type_synonym uint8 = "8 word"
type_synonym uint16 = "16 word"
type_synonym uint32 = "32 word"
type_synonym uint64 = "64 word"
type_synonym int32 = "32 word"
type_synonym bytes = "uint8 list"

subsection \<open>Errors\<close>

text \<open>
  Error values are compared with nil and classified by \<open>apierr.IsNotFound\<close>; their
  text is only logged. \<open>Errorf f args\<close> is \<open>fmt.Errorf(f, args)\<close> (or
  \<open>errors.New\<close>), \<open>Wrapf f args e\<close> an \<open>Errorf\<close> whose last operand is the error
  \<open>e\<close>, \<open>StatusError\<close> a Kubernetes API status, \<open>OpaqueError\<close> an error made by code
  outside the repository (a command that failed, a netlink call).
\<close>

datatype status_reason = NotFound | AlreadyExists | Conflict | BadRequest | OtherReason

datatype go_error =
    Errorf string "string list"
  | Wrapf string "string list" go_error
  | StatusError status_reason string
  | OpaqueError string

type_synonym 'a result = "go_error + 'a"

definition IsNotFound :: "go_error \<Rightarrow> bool" where
  "IsNotFound e = (case e of StatusError r _ \<Rightarrow> r = NotFound | _ \<Rightarrow> False)"

lemma IsNotFound_simps [simp]:
  "IsNotFound (StatusError r n) = (r = NotFound)"
  "IsNotFound (Errorf f a) = False"
  "IsNotFound (Wrapf f a e) = False"
  "IsNotFound (OpaqueError m) = False"
  by (simp_all add: IsNotFound_def)

subsection \<open>Panics\<close>

datatype go_panic = NilDereference | IndexOutOfRange | SliceOutOfRange | ExplicitPanic

datatype 'a outcome = Returns 'a | Panics go_panic

primrec map_outcome :: "('a \<Rightarrow> 'b) \<Rightarrow> 'a outcome \<Rightarrow> 'b outcome" where
  "map_outcome f (Returns x) = Returns (f x)"
| "map_outcome f (Panics p) = Panics p"

primrec bind_outcome :: "'a outcome \<Rightarrow> ('a \<Rightarrow> 'b outcome) \<Rightarrow> 'b outcome" where
  "bind_outcome (Returns x) f = f x"
| "bind_outcome (Panics p) f = Panics p"

lemma bind_outcome_Returns_iff:
  "bind_outcome m f = Returns y \<longleftrightarrow> (\<exists>x. m = Returns x \<and> f x = Returns y)"
  by (cases m) auto

subsection \<open>Fallible calls that thread a state\<close>

text \<open>
  \<open>go_bind m f\<close> is \<open>x, err := m(); if err != nil { return err }; f(x)\<close>, and
  \<open>go_wrap w m\<close> replaces an error by \<open>w\<close> of it, as a \<open>return fmt.Errorf(..., err)\<close>
  does.
\<close>

type_synonym ('s, 'a) go = "('s, 'a result) state"

definition go_return :: "'a \<Rightarrow> ('s, 'a) go" where
  "go_return x = State_Monad.return (Inr x)"

definition go_fail :: "go_error \<Rightarrow> ('s, 'a) go" where
  "go_fail e = State_Monad.return (Inl e)"

definition go_lift :: "'a result \<Rightarrow> ('s, 'a) go" where
  "go_lift r = State_Monad.return r"

definition go_bind :: "('s, 'a) go \<Rightarrow> ('a \<Rightarrow> ('s, 'b) go) \<Rightarrow> ('s, 'b) go" where
  "go_bind m f = State_Monad.bind m (\<lambda>r. case r of Inl e \<Rightarrow> go_fail e | Inr x \<Rightarrow> f x)"

definition go_wrap :: "(go_error \<Rightarrow> go_error) \<Rightarrow> ('s, 'a) go \<Rightarrow> ('s, 'a) go" where
  "go_wrap w m = State_Monad.bind m
     (\<lambda>r. case r of Inl e \<Rightarrow> go_fail (w e) | Inr x \<Rightarrow> go_return x)"

definition wrap_err :: "(go_error \<Rightarrow> go_error) \<Rightarrow> 'a result \<Rightarrow> 'a result" where
  "wrap_err w r = (case r of Inl e \<Rightarrow> Inl (w e) | Inr x \<Rightarrow> Inr x)"

lemma run_go_return [run_simps]: "run_state (go_return x) s = (Inr x, s)"
  by (simp add: go_return_def)

lemma run_go_fail [run_simps]: "run_state (go_fail e) s = (Inl e, s)"
  by (simp add: go_fail_def)

lemma run_go_lift [run_simps]: "run_state (go_lift r) s = (r, s)"
  by (simp add: go_lift_def)

lemma run_go_bind [run_simps]:
  "run_state (go_bind m f) s =
     (case run_state m s of (Inl e, s') \<Rightarrow> (Inl e, s') | (Inr x, s') \<Rightarrow> run_state (f x) s')"
  by (simp add: go_bind_def run_simps split: prod.split sum.split)

lemma run_go_wrap [run_simps]:
  "run_state (go_wrap w m) s =
     (case run_state m s of (Inl e, s') \<Rightarrow> (Inl (w e), s') | (Inr x, s') \<Rightarrow> (Inr x, s'))"
  by (simp add: go_wrap_def run_simps split: prod.split sum.split)

lemma wrap_err_simps [simp]:
  "wrap_err w (Inl e) = Inl (w e)"
  "wrap_err w (Inr x) = Inr x"
  "wrap_err w r = Inr x \<longleftrightarrow> r = Inr x"
  by (simp_all add: wrap_err_def split: sum.split)

lemma go_bind_Inr_elim:
  assumes "run_state (go_bind m f) s = (Inr y, s'')"
  obtains x s' where "run_state m s = (Inr x, s')" and "run_state (f x) s' = (Inr y, s'')"
  using assms by (auto simp: run_simps split: prod.splits sum.splits)

lemma go_bind_cases:
  assumes "run_state (go_bind m f) s = (r, s'')"
  obtains (fails) e where "run_state m s = (Inl e, s'')" and "r = Inl e"
    | (runs) x s' where "run_state m s = (Inr x, s')" and "run_state (f x) s' = (r, s'')"
  using assms by (auto simp: run_simps split: prod.splits sum.splits)

lemma go_wrap_cases:
  assumes "run_state (go_wrap w m) s = (r, s')"
  obtains (fails) e where "run_state m s = (Inl e, s')" and "r = Inl (w e)"
    | (runs) x where "run_state m s = (Inr x, s')" and "r = Inr x"
  using assms by (auto simp: run_simps split: prod.splits sum.splits)

subsection \<open>Lists\<close>

lemma takeWhile_append_sep:
  "\<forall>x\<in>set xs. P x \<Longrightarrow> \<not> P y \<Longrightarrow> takeWhile P (xs @ y # ys) = xs"
  by (induction xs) auto

lemma dropWhile_append_sep:
  "\<forall>x\<in>set xs. P x \<Longrightarrow> \<not> P y \<Longrightarrow> dropWhile P (xs @ y # ys) = y # ys"
  by (induction xs) auto

lemma find_None_iff_all: "find P xs = None \<longleftrightarrow> (\<forall>x\<in>set xs. \<not> P x)"
  by (auto simp: find_None_iff)

subsection \<open>Signed words\<close>

lemma sint_inc_int32:
  assumes "sint (c :: int32) < 2 ^ 31 - 1"
  shows "sint (c + 1) = sint c + 1"
proof -
  have "- (2 ^ 31) \<le> sint c" using sint_ge [of c] by simp
  then have "signed_take_bit 31 (sint c + 1) = sint c + 1"
    using assms by (intro signed_take_bit_int_eq_self) auto
  then show ?thesis by (simp add: sint_word_ariths)
qed

lemma sint_inj_int32: "sint (a :: int32) = sint b \<longleftrightarrow> a = b"
proof
  assume "sint a = sint b"
  then have "word_of_int (sint a) = (word_of_int (sint b) :: int32)" by simp
  then show "a = b" by simp
qed simp

end
