(* ===== verification/Kube_Api.thy ===== *)
theory Kube_Api
  imports Kube_Prelude
begin

text \<open>
  The API objects kube-ovs works on and the client through which it reaches them.

  \<^item> \<open>VSwitchConfig\<close> and its parts (\<open>apis/kubeovs/v1alpha1/types.go\<close>) with the generated
    deep copies, and the parts of the core Kubernetes objects that the controllers read.
  \<^item> \<open>VSwitchConfigInterface\<close>, the client interface of
    \<open>typed/kubeovs/v1alpha1/vswitchconfig.go\<close>, as a record of operations on an arbitrary
    server state, and the locales \<open>vswitch_api\<close> and \<open>reliable_vswitch_api\<close> with what callers
    rely on; \<open>Object_Tracker\<close> interprets them.
\<close>

subsection \<open>Objects\<close>

record TypeMeta =
  Kind :: string
  APIVersion :: string

record ObjectMeta =
  Name :: string
  Namespace :: string
  ResourceVersion :: string
  Labels :: "(string \<times> string) list"

record VSwitchConfigSpec =
  PodCIDR :: string
  ClusterCIDR :: string
  ServiceCIDR :: string
  OverlayIP :: string
  OverlayType :: string
  OverlayTunnelID :: int32

record VSwitchConfig =
  TypeMetaOf :: TypeMeta
  Meta :: ObjectMeta
  Spec :: VSwitchConfigSpec

datatype NodeAddressType = NodeHostName | NodeInternalIP | NodeExternalIP | OtherAddressType string

record NodeAddress =
  AddressType :: NodeAddressType
  Address :: string

record Node =
  NodeMeta :: ObjectMeta
  NodePodCIDR :: string
  Addresses :: "NodeAddress list"

record Pod =
  PodMeta :: ObjectMeta
  PodIP :: string

text \<open>The dynamic type of an informer callback's \<open>interface{}\<close> argument.\<close>

datatype runtime_object =
    VSwitchConfigObj VSwitchConfig
  | NodeObj Node
  | PodObj Pod
  | ServiceObj ObjectMeta
  | EndpointsObj ObjectMeta
  | OtherObj string

text \<open>An event an informer delivers to its handlers.\<close>

datatype informer_event =
    AddEvent runtime_object
  | UpdateEvent runtime_object runtime_object
  | DeleteEvent runtime_object

abbreviation vname :: "VSwitchConfig \<Rightarrow> string" where
  "vname v \<equiv> Name (Meta v)"

abbreviation tunnelID :: "VSwitchConfig \<Rightarrow> int32" where
  "tunnelID v \<equiv> OverlayTunnelID (Spec v)"

subsection \<open>Deep copies\<close>

definition DeepCopyInto_spec :: "VSwitchConfigSpec \<Rightarrow> VSwitchConfigSpec" where
  "DeepCopyInto_spec i = \<lparr>PodCIDR = PodCIDR i, ClusterCIDR = ClusterCIDR i,
     ServiceCIDR = ServiceCIDR i, OverlayIP = OverlayIP i, OverlayType = OverlayType i,
     OverlayTunnelID = OverlayTunnelID i\<rparr>"

definition DeepCopyInto_meta :: "ObjectMeta \<Rightarrow> ObjectMeta" where
  "DeepCopyInto_meta i = \<lparr>Name = Name i, Namespace = Namespace i,
     ResourceVersion = ResourceVersion i, Labels = map (\<lambda>(k, v). (k, v)) (Labels i)\<rparr>"

definition DeepCopy :: "VSwitchConfig \<Rightarrow> VSwitchConfig" where
  "DeepCopy i = \<lparr>TypeMetaOf = TypeMetaOf i, Meta = DeepCopyInto_meta (Meta i),
     Spec = DeepCopyInto_spec (Spec i)\<rparr>"

definition DeepCopy_list :: "VSwitchConfig list \<Rightarrow> VSwitchConfig list" where
  "DeepCopy_list is = map DeepCopy is"

lemma DeepCopyInto_spec_id [simp]: "DeepCopyInto_spec i = i"
  by (simp add: DeepCopyInto_spec_def)

lemma DeepCopyInto_meta_id [simp]: "DeepCopyInto_meta i = i"
  by (simp add: DeepCopyInto_meta_def)

lemma DeepCopy_id [simp]: "DeepCopy i = i"
  by (simp add: DeepCopy_def)

lemma DeepCopy_list_id [simp]: "DeepCopy_list is = is"
  by (simp add: DeepCopy_list_def map_idI)

subsection \<open>The client interface\<close>

text \<open>
  The operations the controllers call, over an arbitrary state of the server (\<open>'s\<close>); a
  call may fail for reasons of its own (the network), which the state then determines.
\<close>

record 's VSwitchConfigInterface =
  Create :: "VSwitchConfig \<Rightarrow> ('s, VSwitchConfig) go"
  Update :: "VSwitchConfig \<Rightarrow> ('s, VSwitchConfig) go"
  Delete :: "string \<Rightarrow> ('s, unit) go"
  Get :: "string \<Rightarrow> ('s, VSwitchConfig) go"
  List :: "('s, VSwitchConfig list) go"

text \<open>
  What the callers rely on. \<open>view\<close> is the set of stored objects by name; \<open>wf\<close> is the
  server's own invariant. A failed call leaves the stored objects as they are, a successful
  one has the documented effect; the server may fill in metadata of a stored object but
  stores the spec it was sent.
\<close>

locale vswitch_api =
  fixes api :: "'s VSwitchConfigInterface"
    and view :: "'s \<Rightarrow> string \<rightharpoonup> VSwitchConfig"
    and wf :: "'s \<Rightarrow> bool"
  assumes wf_view: "wf s \<Longrightarrow> view s n = Some v \<Longrightarrow> vname v = n \<and> n \<noteq> []"
    and wf_finite: "wf s \<Longrightarrow> finite (dom (view s))"
    and get_frame: "wf s \<Longrightarrow> run_state (Get api n) s = (r, s') \<Longrightarrow> wf s' \<and> view s' = view s"
    and get_ok: "wf s \<Longrightarrow> n \<noteq> [] \<Longrightarrow> run_state (Get api n) s = (Inr v, s') \<Longrightarrow> view s n = Some v"
    and get_notfound: "wf s \<Longrightarrow> n \<noteq> [] \<Longrightarrow> run_state (Get api n) s = (Inl e, s') \<Longrightarrow>
      IsNotFound e \<Longrightarrow> view s n = None"
    and list_frame: "wf s \<Longrightarrow> run_state (List api) s = (rl, s') \<Longrightarrow> wf s' \<and> view s' = view s"
    and list_ok: "wf s \<Longrightarrow> run_state (List api) s = (Inr vs, s') \<Longrightarrow> set vs = ran (view s)"
    and create_wf: "wf s \<Longrightarrow> vname v \<noteq> [] \<Longrightarrow> run_state (Create api v) s = (r, s') \<Longrightarrow> wf s'"
    and create_err: "wf s \<Longrightarrow> vname v \<noteq> [] \<Longrightarrow>
      run_state (Create api v) s = (Inl e, s') \<Longrightarrow> view s' = view s"
    and create_ok: "wf s \<Longrightarrow> vname v \<noteq> [] \<Longrightarrow> run_state (Create api v) s = (Inr v', s') \<Longrightarrow>
      view s (vname v) = None \<and> view s' = (view s)(vname v \<mapsto> v') \<and> Spec v' = Spec v"
    and update_wf: "wf s \<Longrightarrow> vname v \<noteq> [] \<Longrightarrow> run_state (Update api v) s = (r, s') \<Longrightarrow> wf s'"
    and update_err: "wf s \<Longrightarrow> vname v \<noteq> [] \<Longrightarrow>
      run_state (Update api v) s = (Inl e, s') \<Longrightarrow> view s' = view s"
    and update_ok: "wf s \<Longrightarrow> vname v \<noteq> [] \<Longrightarrow> run_state (Update api v) s = (Inr v', s') \<Longrightarrow>
      view s (vname v) \<noteq> None \<and> view s' = (view s)(vname v \<mapsto> v') \<and> Spec v' = Spec v"
    and delete_wf: "wf s \<Longrightarrow> run_state (Delete api n) s = (rd, s') \<Longrightarrow> wf s'"
    and delete_err: "wf s \<Longrightarrow> run_state (Delete api n) s = (Inl e, s') \<Longrightarrow> view s' = view s"
    and delete_ok: "wf s \<Longrightarrow> n \<noteq> [] \<Longrightarrow> run_state (Delete api n) s = (Inr u, s') \<Longrightarrow>
      view s' = (view s)(n := None)"
begin

lemma update_ok_name:
  assumes "wf s" and "vname v \<noteq> []" and "run_state (Update api v) s = (Inr v', s')"
  shows "vname v' = vname v"
proof -
  have "wf s'" using update_wf [OF assms] .
  moreover have "view s' (vname v) = Some v'" using update_ok [OF assms] by simp
  ultimately show ?thesis using wf_view by blast
qed

lemma list_member:
  assumes "wf s" and "run_state (List api) s = (Inr vs, s')" and "view s n = Some v"
  shows "v \<in> set vs"
  using list_ok [OF assms(1,2)] assms(3) by (auto intro: ranI)

end

text \<open>
  A client whose calls do not fail for reasons of their own: what is stored is returned, and
  an update of a stored object succeeds. Progress of the controllers needs it.
\<close>

locale reliable_vswitch_api = vswitch_api +
  assumes get_total: "wf s \<Longrightarrow> view s n = Some v \<Longrightarrow> fst (run_state (Get api n) s) = Inr v"
    and list_total: "wf s \<Longrightarrow> \<exists>vs. fst (run_state (List api) s) = Inr vs"
    and update_total: "wf s \<Longrightarrow> view s (vname v) = Some w \<Longrightarrow> Meta v = Meta w \<Longrightarrow>
      \<exists>v'. fst (run_state (Update api v) s) = Inr v'"
    and create_total: "wf s \<Longrightarrow> vname v \<noteq> [] \<Longrightarrow> view s (vname v) = None \<Longrightarrow> Namespace (Meta v) = [] \<Longrightarrow>
      \<exists>v'. fst (run_state (Create api v) s) = Inr v'"
    and delete_total: "wf s \<Longrightarrow> view s n = Some v \<Longrightarrow> fst (run_state (Delete api n) s) = Inr ()"

end
