(* ===== verification/Object_Tracker.thy ===== *)
theory Object_Tracker
  imports Kube_Api
begin

text \<open>
  The in-memory server of the generated fake clientset: the object tracker of
  \<open>vendor/k8s.io/client-go/testing/fixture.go\<close> and the fake client
  \<open>apis/generated/clientset/versioned/typed/kubeovs/v1alpha1/fake/fake_vswitchconfig.go\<close>,
  composed through \<open>ObjectReaction\<close>. It implements \<open>VSwitchConfigInterface\<close>, and the
  interpretation at the end proves that it satisfies the contract \<open>vswitch_api\<close>.

  Watchers are the sequences of events queued for them (the capacity of 100 events of a
  watcher's channel is not modelled). The scheme of the tracker knows the kinds
  \<open>VSwitchConfig\<close> and \<open>VSwitchConfigList\<close>, so the accessor and scheme errors of
  \<open>fixture.go\<close> do not arise.
\<close>

record GroupVersionResource =
  Group :: string
  Version :: string
  Resource :: string

definition vswitchconfigsResource :: GroupVersionResource where
  "vswitchconfigsResource =
     \<lparr>Group = ''kubeovs.io'', Version = ''v1alpha1'', Resource = ''vswitchconfigs''\<rparr>"

datatype watch_event = Added VSwitchConfig | Modified VSwitchConfig | Deleted VSwitchConfig

record tracker =
  objects :: "GroupVersionResource \<rightharpoonup> VSwitchConfig list"
  watchers :: "GroupVersionResource \<Rightarrow> string \<Rightarrow> watch_event list list"

definition NewObjectTracker :: tracker where
  "NewObjectTracker = \<lparr>objects = Map.empty, watchers = (\<lambda>_ _. [])\<rparr>"

definition tracked :: "tracker \<Rightarrow> GroupVersionResource \<Rightarrow> VSwitchConfig list" where
  "tracked t gvr = (case objects t gvr of None \<Rightarrow> [] | Some os \<Rightarrow> os)"

subsection \<open>Operations\<close>

definition filterByNamespaceAndName ::
    "VSwitchConfig list \<Rightarrow> string \<Rightarrow> string \<Rightarrow> VSwitchConfig list" where
  "filterByNamespaceAndName objs ns name =
     filter (\<lambda>obj. (ns = [] \<or> Namespace (Meta obj) = ns) \<and> (name = [] \<or> vname obj = name)) objs"

definition tracker_Get ::
    "GroupVersionResource \<Rightarrow> string \<Rightarrow> string \<Rightarrow> tracker \<Rightarrow> VSwitchConfig result" where
  "tracker_Get gvr ns name t =
     (case objects t gvr of
        None \<Rightarrow> Inl (StatusError NotFound name)
      | Some objs \<Rightarrow>
          (case filterByNamespaceAndName objs ns name of
             [] \<Rightarrow> Inl (StatusError NotFound name)
           | [obj] \<Rightarrow> Inr (DeepCopy obj)
           | _ \<Rightarrow> Inl (Errorf ''more than one object matched gvr %s, ns: %q name: %q''
                  [Resource gvr, ns, name])))"

definition tracker_List ::
    "GroupVersionResource \<Rightarrow> string \<Rightarrow> tracker \<Rightarrow> VSwitchConfig list result" where
  "tracker_List gvr ns t =
     (case objects t gvr of
        None \<Rightarrow> Inr []
      | Some objs \<Rightarrow> Inr (DeepCopy_list (filterByNamespaceAndName objs ns [])))"

text \<open>
  \<open>getWatches\<close> selects the watchers of a namespace and of all namespaces; queueing an
  event on them is \<open>notify\<close>.
\<close>

definition notify ::
    "GroupVersionResource \<Rightarrow> string \<Rightarrow> watch_event \<Rightarrow> tracker \<Rightarrow> tracker" where
  "notify gvr ns ev t = t\<lparr>watchers := (\<lambda>g n.
     if g = gvr \<and> (n = ns \<or> n = []) then map (\<lambda>q. q @ [ev]) (watchers t g n)
     else watchers t g n)\<rparr>"

definition same_object :: "VSwitchConfig \<Rightarrow> VSwitchConfig \<Rightarrow> bool" where
  "same_object old new \<longleftrightarrow>
     Namespace (Meta old) = Namespace (Meta new) \<and> vname old = vname new"

definition tracker_add ::
    "GroupVersionResource \<Rightarrow> VSwitchConfig \<Rightarrow> string \<Rightarrow> bool \<Rightarrow> tracker \<Rightarrow> unit result \<times> tracker" where
  "tracker_add gvr obj0 ns replaceExisting t =
     (let obj1 = DeepCopy obj0;
          obj = (if Namespace (Meta obj1) = [] then obj1\<lparr>Meta := (Meta obj1)\<lparr>Namespace := ns\<rparr>\<rparr> else obj1)
      in if ns \<noteq> Namespace (Meta obj) then
           (Inl (StatusError BadRequest (vname obj)), t)
         else
           (case List.extract (\<lambda>old. same_object old obj) (tracked t gvr) of
              Some (before, _, after) \<Rightarrow>
                (if replaceExisting then
                   (Inr (), (notify gvr ns (Modified obj) t)
                      \<lparr>objects := (objects t)(gvr \<mapsto> before @ obj # after)\<rparr>)
                 else (Inl (StatusError AlreadyExists (vname obj)), t))
            | None \<Rightarrow>
                (if replaceExisting then (Inl (StatusError NotFound (vname obj)), t)
                 else (Inr (), notify gvr ns (Added obj)
                        (t\<lparr>objects := (objects t)(gvr \<mapsto> tracked t gvr @ [obj])\<rparr>)))))"

definition tracker_Create ::
    "GroupVersionResource \<Rightarrow> VSwitchConfig \<Rightarrow> string \<Rightarrow> tracker \<Rightarrow> unit result \<times> tracker" where
  "tracker_Create gvr obj ns t = tracker_add gvr obj ns False t"

definition tracker_Update ::
    "GroupVersionResource \<Rightarrow> VSwitchConfig \<Rightarrow> string \<Rightarrow> tracker \<Rightarrow> unit result \<times> tracker" where
  "tracker_Update gvr obj ns t = tracker_add gvr obj ns True t"

definition tracker_Delete ::
    "GroupVersionResource \<Rightarrow> string \<Rightarrow> string \<Rightarrow> tracker \<Rightarrow> unit result \<times> tracker" where
  "tracker_Delete gvr ns name t =
     (case List.extract (\<lambda>old. Namespace (Meta old) = ns \<and> vname old = name) (tracked t gvr) of
        Some (before, obj, after) \<Rightarrow>
          (Inr (), notify gvr ns (Deleted obj) (t\<lparr>objects := (objects t)(gvr \<mapsto> before @ after)\<rparr>))
      | None \<Rightarrow> (Inl (StatusError NotFound name), t))"

text \<open>\<open>ObjectReaction\<close> re-reads a created or updated object and returns what is stored.\<close>

definition reaction_write ::
    "(tracker \<Rightarrow> unit result \<times> tracker) \<Rightarrow> string \<Rightarrow> (tracker, VSwitchConfig) go" where
  "reaction_write act name = State (\<lambda>t.
     (case act t of
        (Inl e, t') \<Rightarrow> (Inl e, t')
      | (Inr _, t') \<Rightarrow> (tracker_Get vswitchconfigsResource [] name t', t')))"

definition fake_Get :: "string \<Rightarrow> (tracker, VSwitchConfig) go" where
  "fake_Get name = State (\<lambda>t. (tracker_Get vswitchconfigsResource [] name t, t))"

definition fake_List :: "(VSwitchConfig \<Rightarrow> bool) \<Rightarrow> (tracker, VSwitchConfig list) go" where
  "fake_List matches = State (\<lambda>t.
     (case tracker_List vswitchconfigsResource [] t of
        Inl e \<Rightarrow> (Inl e, t) | Inr items \<Rightarrow> (Inr (filter matches items), t)))"

definition fake_Create :: "VSwitchConfig \<Rightarrow> (tracker, VSwitchConfig) go" where
  "fake_Create v = reaction_write (tracker_Create vswitchconfigsResource v []) (vname v)"

definition fake_Update :: "VSwitchConfig \<Rightarrow> (tracker, VSwitchConfig) go" where
  "fake_Update v = reaction_write (tracker_Update vswitchconfigsResource v []) (vname v)"

definition fake_Delete :: "string \<Rightarrow> (tracker, unit) go" where
  "fake_Delete name = State (tracker_Delete vswitchconfigsResource [] name)"

text \<open>The client with the empty \<open>ListOptions\<close>, under which every label set matches.\<close>

definition FakeVSwitchConfigs :: "tracker VSwitchConfigInterface" where
  "FakeVSwitchConfigs = \<lparr>Create = fake_Create, Update = fake_Update, Delete = fake_Delete,
     Get = fake_Get, List = fake_List (\<lambda>_. True)\<rparr>"

definition NewSimpleClientset :: "VSwitchConfig list \<Rightarrow> tracker outcome" where
  "NewSimpleClientset objs = foldl (\<lambda>acc obj. bind_outcome acc (\<lambda>t.
     (case tracker_add vswitchconfigsResource obj (Namespace (Meta obj)) False t of
        (Inl _, _) \<Rightarrow> Panics ExplicitPanic
      | (Inr _, t') \<Rightarrow> Returns t'))) (Returns NewObjectTracker) objs"

subsection \<open>The stored objects\<close>

definition tracker_view :: "tracker \<Rightarrow> string \<rightharpoonup> VSwitchConfig" where
  "tracker_view t = map_of (map (\<lambda>o'. (vname o', o')) (tracked t vswitchconfigsResource))"

definition tracker_wf :: "tracker \<Rightarrow> bool" where
  "tracker_wf t \<longleftrightarrow> distinct (map vname (tracked t vswitchconfigsResource)) \<and>
     (\<forall>o'\<in>set (tracked t vswitchconfigsResource). Namespace (Meta o') = [] \<and> vname o' \<noteq> [])"

subsection \<open>The tracker keeps its contract\<close>

lemma notify_tracked [simp]: "tracked (notify gvr ns ev t) g = tracked t g"
  by (simp add: notify_def tracked_def)

lemma notify_objects [simp]: "objects (notify gvr ns ev t) = objects t"
  by (simp add: notify_def)

lemma tracked_update [simp]:
  "tracked (t\<lparr>objects := (objects t')(g \<mapsto> os)\<rparr>) g = os"
  by (simp add: tracked_def)

lemma tracker_view_notify [simp]: "tracker_view (notify gvr ns ev t) = tracker_view t"
  by (simp add: tracker_view_def)

lemma tracker_wf_notify [simp]: "tracker_wf (notify gvr ns ev t) = tracker_wf t"
  by (simp add: tracker_wf_def)

lemma tracker_viewD: "tracker_view t n = Some v \<Longrightarrow> v \<in> set (tracked t vswitchconfigsResource) \<and> vname v = n"
  by (auto simp: tracker_view_def dest!: map_of_SomeD)

lemma tracker_viewI:
  "tracker_wf t \<Longrightarrow> v \<in> set (tracked t vswitchconfigsResource) \<Longrightarrow> tracker_view t (vname v) = Some v"
  by (auto simp: tracker_view_def tracker_wf_def o_def intro!: map_of_is_SomeI)

lemma tracker_view_None:
  "tracker_view t n = None \<longleftrightarrow> n \<notin> vname ` set (tracked t vswitchconfigsResource)"
  by (auto simp: tracker_view_def map_of_eq_None_iff image_image)

lemma ran_tracker_view:
  "tracker_wf t \<Longrightarrow> ran (tracker_view t) = set (tracked t vswitchconfigsResource)"
  by (auto simp: ran_def dest: tracker_viewD tracker_viewI)

lemma filterByNamespaceAndName_all [simp]: "filterByNamespaceAndName objs [] [] = objs"
  by (simp add: filterByNamespaceAndName_def)

lemma filter_name_unique:
  "distinct (map vname os) \<Longrightarrow> v \<in> set os \<Longrightarrow> filter (\<lambda>o'. vname o' = vname v) os = [v]"
proof (induction os)
  case (Cons a os)
  then show ?case by (auto simp: filter_empty_conv image_iff)
qed simp

lemma tracker_Get_view:
  assumes "tracker_wf t" and "n \<noteq> []"
  shows "tracker_Get vswitchconfigsResource [] n t =
     (case tracker_view t n of None \<Rightarrow> Inl (StatusError NotFound n) | Some v \<Rightarrow> Inr v)"
proof (cases "tracker_view t n")
  case None
  then have "filter (\<lambda>o'. vname o' = n) (tracked t vswitchconfigsResource) = []"
    by (auto simp: tracker_view_None filter_empty_conv)
  with None assms(2) show ?thesis
    by (auto simp: tracker_Get_def filterByNamespaceAndName_def tracked_def split: option.splits)
next
  case (Some v)
  then have v: "v \<in> set (tracked t vswitchconfigsResource)" and n: "n = vname v"
    by (auto dest: tracker_viewD)
  have "filter (\<lambda>o'. vname o' = n) (tracked t vswitchconfigsResource) = [v]"
    using filter_name_unique v assms(1) unfolding n tracker_wf_def by blast
  with Some assms(2) show ?thesis
    by (auto simp: tracker_Get_def filterByNamespaceAndName_def tracked_def split: option.splits)
qed

lemma map_of_replace:
  "distinct (map vname (xs @ y # zs)) \<Longrightarrow> vname y' = vname y \<Longrightarrow>
   map_of (map (\<lambda>o'. (vname o', o')) (xs @ y' # zs)) =
   (map_of (map (\<lambda>o'. (vname o', o')) (xs @ y # zs)))(vname y \<mapsto> y')"
  by (induction xs) (auto simp: fun_eq_iff)

lemma map_of_remove:
  "distinct (map vname (xs @ y # zs)) \<Longrightarrow>
   map_of (map (\<lambda>o'. (vname o', o')) (xs @ zs)) =
   (map_of (map (\<lambda>o'. (vname o', o')) (xs @ y # zs)))(vname y := None)"
  by (induction xs) (auto simp: fun_eq_iff map_of_eq_None_iff image_image)

lemma map_of_snoc:
  "vname y \<notin> vname ` set xs \<Longrightarrow>
   map_of (map (\<lambda>o'. (vname o', o')) (xs @ [y])) = (map_of (map (\<lambda>o'. (vname o', o')) xs))(vname y \<mapsto> y)"
  by (induction xs) (auto simp: fun_eq_iff)

lemma tracker_add_root:
  assumes "Namespace (Meta v) = []"
  shows "tracker_add gvr v [] b t =
     (case List.extract (\<lambda>old. same_object old v) (tracked t gvr) of
        Some (before, _, after) \<Rightarrow>
          (if b then (Inr (), (notify gvr [] (Modified v) t)
             \<lparr>objects := (objects t)(gvr \<mapsto> before @ v # after)\<rparr>)
           else (Inl (StatusError AlreadyExists (vname v)), t))
      | None \<Rightarrow> (if b then (Inl (StatusError NotFound (vname v)), t)
          else (Inr (), notify gvr [] (Added v)
                  (t\<lparr>objects := (objects t)(gvr \<mapsto> tracked t gvr @ [v])\<rparr>))))"
proof -
  have upd: "v\<lparr>Meta := (Meta v)\<lparr>Namespace := []\<rparr>\<rparr> = v"
    using assms by (cases v, cases "Meta v") auto
  show ?thesis by (simp add: tracker_add_def Let_def upd assms split: option.split prod.split)
qed

text \<open>The object as \<open>add\<close> stores it, and the two cases of a write in the root namespace.\<close>

lemma tracker_add_spec:
  assumes wf: "tracker_wf t" and name: "vname v \<noteq> []"
    and run: "tracker_add vswitchconfigsResource v [] replaceExisting t = (r, t')"
  shows "tracker_wf t' \<and>
    (case r of
       Inl _ \<Rightarrow> t' = t
     | Inr _ \<Rightarrow> tracker_view t' = (tracker_view t)(vname v \<mapsto> v) \<and>
         (tracker_view t (vname v) = None \<longleftrightarrow> \<not> replaceExisting))"
proof (cases "Namespace (Meta v) = []")
  case False
  with run wf show ?thesis by (auto simp: tracker_add_def Let_def)
next
  case ns: True
  let ?os = "tracked t vswitchconfigsResource"
  note run = run [unfolded tracker_add_root [OF ns]]
  show ?thesis
  proof (cases "List.extract (\<lambda>old. same_object old v) ?os")
    case None
    then have fresh: "vname v \<notin> vname ` set ?os"
      using wf ns by (auto simp: extract_None_iff same_object_def tracker_wf_def)
    then have "tracker_view t (vname v) = None" by (simp add: tracker_view_None)
    with None run wf ns name fresh map_of_snoc [OF fresh] show ?thesis
      by (auto simp: tracker_wf_def tracker_view_def split: if_splits)
  next
    case (Some x)
    then obtain before old after where x: "x = (before, old, after)" by (cases x) auto
    with Some have os: "?os = before @ old # after" and same: "same_object old v"
      by (auto simp: extract_Some_iff)
    have nm: "vname old = vname v" using same by (simp add: same_object_def)
    from wf os have d: "distinct (map vname (before @ old # after))"
      by (simp add: tracker_wf_def)
    have view: "tracker_view t (vname v) \<noteq> None"
      using os nm by (auto simp: tracker_view_None)
    from Some x run wf ns name os nm view map_of_replace [OF d, of v] show ?thesis
      by (auto simp: tracker_wf_def tracker_view_def split: if_splits)
  qed
qed

lemma tracker_Delete_spec:
  assumes wf: "tracker_wf t" and run: "tracker_Delete vswitchconfigsResource [] n t = (r, t')"
  shows "tracker_wf t' \<and>
    (case r of Inl _ \<Rightarrow> t' = t | Inr _ \<Rightarrow> tracker_view t' = (tracker_view t)(n := None))"
proof (cases "List.extract (\<lambda>old. Namespace (Meta old) = [] \<and> vname old = n)
    (tracked t vswitchconfigsResource)")
  case None
  with run wf show ?thesis by (auto simp: tracker_Delete_def)
next
  case (Some x)
  then obtain before old after where x: "x = (before, old, after)" by (cases x) auto
  with Some have os: "tracked t vswitchconfigsResource = before @ old # after" and n: "n = vname old"
    by (auto simp: extract_Some_iff)
  from wf os have d: "distinct (map vname (before @ old # after))"
    by (simp add: tracker_wf_def)
  from Some x run wf os n map_of_remove [OF d] show ?thesis
    by (auto simp: tracker_Delete_def tracker_wf_def tracker_view_def)
qed

lemmas fake_defs = FakeVSwitchConfigs_def fake_Get_def fake_List_def fake_Create_def
  fake_Update_def fake_Delete_def reaction_write_def tracker_Create_def tracker_Update_def

lemma tracker_view_finite: "finite (dom (tracker_view t))"
  by (simp add: tracker_view_def finite_dom_map_of)

lemma tracker_List_run:
  "run_state (List FakeVSwitchConfigs) t = (Inr (tracked t vswitchconfigsResource), t)"
  by (simp add: fake_defs tracker_List_def tracked_def split: option.split)

lemma fake_write_spec:
  assumes wf: "tracker_wf t" and name: "vname v \<noteq> []"
    and run: "run_state (reaction_write (\<lambda>t. tracker_add vswitchconfigsResource v [] b t) (vname v)) t = (r, t')"
  shows "tracker_wf t' \<and>
    (case r of
       Inl _ \<Rightarrow> tracker_view t' = tracker_view t
     | Inr v' \<Rightarrow> v' = v \<and> tracker_view t' = (tracker_view t)(vname v \<mapsto> v) \<and>
         (tracker_view t (vname v) = None \<longleftrightarrow> \<not> b))"
proof -
  obtain u t1 where add: "tracker_add vswitchconfigsResource v [] b t = (u, t1)" by fastforce
  note spec = tracker_add_spec [OF wf name add]
  show ?thesis
  proof (cases u)
    case (Inl e)
    with run add spec show ?thesis by (auto simp: reaction_write_def)
  next
    case (Inr x)
    with spec have "tracker_wf t1" and vw: "tracker_view t1 (vname v) = Some v" by auto
    from tracker_Get_view [OF this(1) name] vw
    have "tracker_Get vswitchconfigsResource [] (vname v) t1 = Inr v" by simp
    with run add Inr have "r = Inr v" and "t' = t1" by (auto simp: reaction_write_def)
    with spec Inr show ?thesis by simp
  qed
qed

interpretation tracker_api: vswitch_api FakeVSwitchConfigs tracker_view tracker_wf
proof
  fix s n v
  assume "tracker_wf s" and "tracker_view s n = Some v"
  then show "vname v = n \<and> n \<noteq> []"
    by (auto dest!: tracker_viewD simp: tracker_wf_def)
next
  fix s
  show "finite (dom (tracker_view s))" by (rule tracker_view_finite)
next
  fix s s' n r
  assume "tracker_wf s" and "run_state (Get FakeVSwitchConfigs n) s = (r, s')"
  then show "tracker_wf s' \<and> tracker_view s' = tracker_view s" by (auto simp: fake_defs)
next
  fix s s' :: tracker and n v
  assume "tracker_wf s" and "n \<noteq> []" and "run_state (Get FakeVSwitchConfigs n) s = (Inr v, s')"
  then show "tracker_view s n = Some v"
    by (auto simp: fake_defs tracker_Get_view split: option.splits)
next
  fix s s' :: tracker and n e
  assume "tracker_wf s" and "n \<noteq> []" and "run_state (Get FakeVSwitchConfigs n) s = (Inl e, s')"
  then show "tracker_view s n = None"
    by (auto simp: fake_defs tracker_Get_view split: option.splits)
next
  fix s s' r
  assume "tracker_wf s" and "run_state (List FakeVSwitchConfigs) s = (r, s')"
  then show "tracker_wf s' \<and> tracker_view s' = tracker_view s"
    by (auto simp: tracker_List_run)
next
  fix s s' :: tracker and vs
  assume "tracker_wf s" and "run_state (List FakeVSwitchConfigs) s = (Inr vs, s')"
  then show "set vs = ran (tracker_view s)"
    by (auto simp: tracker_List_run ran_tracker_view)
next
  fix s s' v r
  assume "tracker_wf s" and "vname v \<noteq> []" and "run_state (Create FakeVSwitchConfigs v) s = (r, s')"
  then show "tracker_wf s'" using fake_write_spec [of s v False] by (auto simp: fake_defs)
next
  fix s s' :: tracker and v e
  assume "tracker_wf s" and "vname v \<noteq> []"
    and "run_state (Create FakeVSwitchConfigs v) s = (Inl e, s')"
  then show "tracker_view s' = tracker_view s"
    using fake_write_spec [of s v False] by (auto simp: fake_defs)
next
  fix s s' :: tracker and v v'
  assume "tracker_wf s" and "vname v \<noteq> []"
    and "run_state (Create FakeVSwitchConfigs v) s = (Inr v', s')"
  then show "tracker_view s (vname v) = None \<and>
      tracker_view s' = (tracker_view s)(vname v \<mapsto> v') \<and> Spec v' = Spec v"
    using fake_write_spec [of s v False] by (auto simp: fake_defs)
next
  fix s s' v r
  assume "tracker_wf s" and "vname v \<noteq> []" and "run_state (Update FakeVSwitchConfigs v) s = (r, s')"
  then show "tracker_wf s'" using fake_write_spec [of s v True] by (auto simp: fake_defs)
next
  fix s s' :: tracker and v e
  assume "tracker_wf s" and "vname v \<noteq> []"
    and "run_state (Update FakeVSwitchConfigs v) s = (Inl e, s')"
  then show "tracker_view s' = tracker_view s"
    using fake_write_spec [of s v True] by (auto simp: fake_defs)
next
  fix s s' :: tracker and v v'
  assume "tracker_wf s" and "vname v \<noteq> []"
    and "run_state (Update FakeVSwitchConfigs v) s = (Inr v', s')"
  then show "tracker_view s (vname v) \<noteq> None \<and>
      tracker_view s' = (tracker_view s)(vname v \<mapsto> v') \<and> Spec v' = Spec v"
    using fake_write_spec [of s v True] by (auto simp: fake_defs)
next
  fix s s' n r
  assume "tracker_wf s" and "run_state (Delete FakeVSwitchConfigs n) s = (r, s')"
  then show "tracker_wf s'" using tracker_Delete_spec [of s n] by (auto simp: fake_defs)
next
  fix s s' :: tracker and n e
  assume "tracker_wf s" and "run_state (Delete FakeVSwitchConfigs n) s = (Inl e, s')"
  then show "tracker_view s' = tracker_view s"
    using tracker_Delete_spec [of s n] by (auto simp: fake_defs)
next
  fix s s' :: tracker and n u
  assume "tracker_wf s" and "run_state (Delete FakeVSwitchConfigs n) s = (Inr u, s')"
  then show "tracker_view s' = (tracker_view s)(n := None)"
    using tracker_Delete_spec [of s n] by (auto simp: fake_defs)
qed

interpretation tracker_reliable: reliable_vswitch_api FakeVSwitchConfigs tracker_view tracker_wf
proof
  fix s n v
  assume wf: "tracker_wf s" and v: "tracker_view s n = Some v"
  then have "n \<noteq> []" using tracker_api.wf_view by blast
  with wf v show "fst (run_state (Get FakeVSwitchConfigs n) s) = Inr v"
    by (simp add: fake_defs tracker_Get_view)
next
  fix s
  show "\<exists>vs. fst (run_state (List FakeVSwitchConfigs) s) = Inr vs" by (simp add: tracker_List_run)
next
  fix s v w
  assume wf: "tracker_wf s" and w: "tracker_view s (vname v) = Some w" and meta: "Meta v = Meta w"
  have name: "vname v \<noteq> []" using tracker_api.wf_view [OF wf w] by simp
  from w have stored: "w \<in> set (tracked s vswitchconfigsResource)" by (auto dest: tracker_viewD)
  then have ns: "Namespace (Meta v) = []" using wf meta by (auto simp: tracker_wf_def)
  obtain u t where add: "tracker_add vswitchconfigsResource v [] True s = (u, t)" by fastforce
  have "same_object w v" using meta by (simp add: same_object_def)
  then have "List.extract (\<lambda>old. same_object old v) (tracked s vswitchconfigsResource) \<noteq> None"
    using stored by (auto simp: extract_None_iff)
  then have u: "u = Inr ()" using add by (auto simp: tracker_add_root [OF ns])
  have "tracker_wf t" and "tracker_view t (vname v) = Some v"
    using tracker_add_spec [OF wf name add] u by auto
  then have "tracker_Get vswitchconfigsResource [] (vname v) t = Inr v"
    using tracker_Get_view [of t "vname v"] name by simp
  then show "\<exists>v'. fst (run_state (Update FakeVSwitchConfigs v) s) = Inr v'"
    using add u by (simp add: fake_defs)
next
  fix s v
  assume wf: "tracker_wf s" and name: "vname v \<noteq> []" and fresh: "tracker_view s (vname v) = None"
    and ns: "Namespace (Meta v) = []"
  obtain u t where add: "tracker_add vswitchconfigsResource v [] False s = (u, t)" by fastforce
  have "List.extract (\<lambda>old. same_object old v) (tracked s vswitchconfigsResource) = None"
    using fresh by (auto simp: extract_None_iff tracker_view_None same_object_def image_iff)
  then have u: "u = Inr ()" using add by (auto simp: tracker_add_root [OF ns])
  have "tracker_wf t" and "tracker_view t (vname v) = Some v"
    using tracker_add_spec [OF wf name add] u by auto
  then have "tracker_Get vswitchconfigsResource [] (vname v) t = Inr v"
    using tracker_Get_view [of t "vname v"] name by simp
  then show "\<exists>v'. fst (run_state (Create FakeVSwitchConfigs v) s) = Inr v'"
    using add u by (simp add: fake_defs)
next
  fix s n v
  assume wf: "tracker_wf s" and v: "tracker_view s n = Some v"
  then have "v \<in> set (tracked s vswitchconfigsResource)" "vname v = n" "Namespace (Meta v) = []"
    by (auto dest: tracker_viewD simp: tracker_wf_def)
  then have "List.extract (\<lambda>old. Namespace (Meta old) = [] \<and> vname old = n)
      (tracked s vswitchconfigsResource) \<noteq> None"
    by (auto simp: extract_None_iff)
  then show "fst (run_state (Delete FakeVSwitchConfigs n) s) = Inr ()"
    by (auto simp: fake_defs tracker_Delete_def)
qed

subsection \<open>Concrete servers\<close>

text \<open>Small servers, on which the hypotheses of the properties are exercised.\<close>

definition demo_config :: "string \<Rightarrow> int32 \<Rightarrow> VSwitchConfig" where
  "demo_config n i = \<lparr>TypeMetaOf = \<lparr>Kind = ''VSwitchConfig'', APIVersion = ''kubeovs.io/v1alpha1''\<rparr>,
     Meta = \<lparr>Name = n, Namespace = [], ResourceVersion = ''1'', Labels = []\<rparr>,
     Spec = \<lparr>PodCIDR = ''100.96.0.0/24'', ClusterCIDR = ''100.96.0.0/11'',
       ServiceCIDR = ''100.64.0.0/13'', OverlayIP = ''10.0.0.1'', OverlayType = ''vxlan'',
       OverlayTunnelID = i\<rparr>\<rparr>"

definition demo_tracker :: "VSwitchConfig list \<Rightarrow> tracker" where
  "demo_tracker vs = NewObjectTracker\<lparr>objects := [vswitchconfigsResource \<mapsto> vs]\<rparr>"

lemma demo_config_sel [simp]:
  "vname (demo_config n i) = n" "Namespace (Meta (demo_config n i)) = []"
  "tunnelID (demo_config n i) = i"
  by (simp_all add: demo_config_def)

lemma demo_tracked [simp]: "tracked (demo_tracker vs) vswitchconfigsResource = vs"
  by (simp add: demo_tracker_def tracked_def)

lemma demo_view: "tracker_view (demo_tracker vs) = map_of (map (\<lambda>o'. (vname o', o')) vs)"
  by (simp add: tracker_view_def)

lemma demo_wf:
  "tracker_wf (demo_tracker vs) \<longleftrightarrow>
     distinct (map vname vs) \<and> (\<forall>o'\<in>set vs. Namespace (Meta o') = [] \<and> vname o' \<noteq> [])"
  by (simp add: tracker_wf_def)

lemma demo_card: "card (dom (tracker_view (demo_tracker vs))) \<le> length vs"
proof -
  have "dom (tracker_view (demo_tracker vs)) = set (map vname vs)"
    by (simp add: demo_view dom_map_of_conv_image_fst image_image)
  then show ?thesis using card_length [of "map vname vs"] by (metis length_map)
qed

end
