(* ===== verification/Tunnel_Allocator.thy ===== *)
theory Tunnel_Allocator
  imports Object_Tracker
begin

text \<open>
  The tunnel ID allocator (\<open>controllers/tunnel/allocator.go\<close>): an informer handler of the
  kube-ovs-controller that gives every \<open>VSwitchConfig\<close> whose \<open>OverlayTunnelID\<close> is 0 the
  least identifier of 100..9999 that no other stored configuration has.

  The allocator holds no state of its own beside its mutex, under which
  \<open>allocateTunnelID\<close> runs; the client is a parameter. The lemmas are proved once in the
  context of the client's contract \<open>vswitch_api\<close>.
\<close>

definition defaultMinTunnelID :: int32 where
  "defaultMinTunnelID = 100"

definition defaultMaxTunnelID :: int32 where
  "defaultMaxTunnelID = 9999"

definition validateTunnelID :: "int32 \<Rightarrow> unit result" where
  "validateTunnelID tunID =
     (if tunID <s defaultMinTunnelID then
        Inl (Errorf ''tunnel ID is less than the minimum ID allowed'' [])
      else if defaultMaxTunnelID <s tunID then
        Inl (Errorf ''tunnel ID is greater than the maximum ID allowed'' [])
      else Inr ())"

fun collectTunnelIDs :: "VSwitchConfig list \<Rightarrow> (int32 \<rightharpoonup> unit) \<Rightarrow> (int32 \<rightharpoonup> unit)" where
  "collectTunnelIDs [] tunnelIDs = tunnelIDs"
| "collectTunnelIDs (vswitchCfg # rest) tunnelIDs =
     (let tunID = tunnelID vswitchCfg in
      if tunID = 0 then collectTunnelIDs rest tunnelIDs
      else case validateTunnelID tunID of
             Inl _ \<Rightarrow> collectTunnelIDs rest tunnelIDs
           | Inr _ \<Rightarrow> collectTunnelIDs rest (tunnelIDs(tunID \<mapsto> ())))"

definition getCurrentTunnelIDs :: "'s VSwitchConfigInterface \<Rightarrow> ('s, int32 \<rightharpoonup> unit) go" where
  "getCurrentTunnelIDs api =
     go_bind (List api) (\<lambda>items. go_return (collectTunnelIDs items Map.empty))"

text \<open>The search loop of \<open>allocateTunnelID\<close>: \<open>candTunID\<close> is an \<open>int32\<close>.\<close>

function candidateTunnelID :: "(int32 \<rightharpoonup> unit) \<Rightarrow> int32 \<Rightarrow> int32" where
  "candidateTunnelID tunIDs candTunID =
     (if candTunID \<le>s defaultMaxTunnelID then
        (case tunIDs candTunID of
           None \<Rightarrow> candTunID
         | Some _ \<Rightarrow> candidateTunnelID tunIDs (candTunID + 1))
      else candTunID)"
  by pat_completeness auto
termination
proof (relation "measure (\<lambda>(_, c). nat (10000 - sint c))")
  fix tunIDs :: "int32 \<rightharpoonup> unit" and c :: int32 and u
  assume "c \<le>s defaultMaxTunnelID"
  then have "sint c \<le> 9999" by (simp add: word_sle_eq defaultMaxTunnelID_def)
  then show "((tunIDs, c + 1), (tunIDs, c)) \<in> measure (\<lambda>(_, c). nat (10000 - sint c))"
    by (simp add: sint_inc_int32)
qed simp

declare candidateTunnelID.simps [simp del]

definition allocateTunnelID :: "'s VSwitchConfigInterface \<Rightarrow> VSwitchConfig \<Rightarrow> ('s, unit) go" where
  "allocateTunnelID api vswitchcfg =
     go_bind (go_wrap (Wrapf ''error refetching vswitch config: %v'' []) (Get api (vname vswitchcfg)))
     (\<lambda>vswitchcfg.
       if tunnelID vswitchcfg \<noteq> 0 then go_return ()
       else
         go_bind (go_wrap (Wrapf ''error getting the current set of tunnel IDs: %v'' [])
                    (getCurrentTunnelIDs api))
         (\<lambda>tunIDs.
           let candTunID = candidateTunnelID tunIDs defaultMinTunnelID;
               newVSwitchCfg = DeepCopy vswitchcfg;
               newVSwitchCfg = newVSwitchCfg\<lparr>Spec := (Spec newVSwitchCfg)\<lparr>OverlayTunnelID := candTunID\<rparr>\<rparr>
           in go_bind (go_wrap (Wrapf ''error updating vswitch config with tunnel ID: %v'' [])
                         (Update api newVSwitchCfg))
                (\<lambda>_. go_return ())))"

definition allocator_OnAdd :: "'s VSwitchConfigInterface \<Rightarrow> runtime_object \<Rightarrow> ('s, unit) state" where
  "allocator_OnAdd api obj =
     (case obj of
        VSwitchConfigObj vswitchcfg \<Rightarrow>
          if tunnelID vswitchcfg \<noteq> 0 then State_Monad.return ()
          else State_Monad.bind (allocateTunnelID api vswitchcfg) (\<lambda>_. State_Monad.return ())
      | _ \<Rightarrow> State_Monad.return ())"

definition allocator_OnUpdate ::
    "'s VSwitchConfigInterface \<Rightarrow> runtime_object \<Rightarrow> runtime_object \<Rightarrow> ('s, unit) state" where
  "allocator_OnUpdate api oldObj newObj =
     (case newObj of
        VSwitchConfigObj vswitchcfg \<Rightarrow>
          if tunnelID vswitchcfg \<noteq> 0 then State_Monad.return ()
          else State_Monad.bind (allocateTunnelID api vswitchcfg) (\<lambda>_. State_Monad.return ())
      | _ \<Rightarrow> State_Monad.return ())"

definition allocator_OnDelete :: "'s VSwitchConfigInterface \<Rightarrow> runtime_object \<Rightarrow> ('s, unit) state" where
  "allocator_OnDelete api obj = State_Monad.return ()"

text \<open>A run of the handlers over a sequence of events.\<close>

fun allocator_handle :: "'s VSwitchConfigInterface \<Rightarrow> informer_event \<Rightarrow> ('s, unit) state" where
  "allocator_handle api (AddEvent obj) = allocator_OnAdd api obj"
| "allocator_handle api (UpdateEvent oldObj newObj) = allocator_OnUpdate api oldObj newObj"
| "allocator_handle api (DeleteEvent obj) = allocator_OnDelete api obj"

fun allocator_run :: "'s VSwitchConfigInterface \<Rightarrow> informer_event list \<Rightarrow> 's \<Rightarrow> 's" where
  "allocator_run api [] s = s"
| "allocator_run api (ev # evs) s =
     allocator_run api evs (snd (run_state (allocator_handle api ev) s))"

subsection \<open>The search loop\<close>

definition valid_id :: "int32 \<Rightarrow> bool" where
  "valid_id i \<longleftrightarrow> 100 \<le> sint i \<and> sint i \<le> 9999"

lemma validateTunnelID_iff: "validateTunnelID i = Inr () \<longleftrightarrow> valid_id i"
  by (auto simp: validateTunnelID_def valid_id_def word_sless_alt defaultMinTunnelID_def
      defaultMaxTunnelID_def)

lemma validateTunnelID_cases:
  "validateTunnelID i = (if valid_id i then Inr () else validateTunnelID i)"
  by (simp add: validateTunnelID_iff)

lemma candidateTunnelID_spec:
  assumes "sint c \<le> 10000"
  shows "sint c \<le> sint (candidateTunnelID ids c) \<and> sint (candidateTunnelID ids c) \<le> 10000 \<and>
    (\<forall>i. sint c \<le> sint i \<and> sint i < sint (candidateTunnelID ids c) \<longrightarrow> ids i \<noteq> None) \<and>
    (sint (candidateTunnelID ids c) \<le> 9999 \<longrightarrow> ids (candidateTunnelID ids c) = None)"
  using assms
proof (induction ids c rule: candidateTunnelID.induct)
  case (1 ids c)
  show ?case
  proof (cases "c \<le>s defaultMaxTunnelID")
    case False
    then have "sint c = 10000" using "1.prems" by (simp add: word_sle_eq defaultMaxTunnelID_def)
    with False show ?thesis by (auto simp: candidateTunnelID.simps [of ids c])
  next
    case le: True
    then have c: "sint c \<le> 9999" by (simp add: word_sle_eq defaultMaxTunnelID_def)
    show ?thesis
    proof (cases "ids c")
      case None
      with le c show ?thesis by (auto simp: candidateTunnelID.simps [of ids c])
    next
      case (Some u)
      have inc: "sint (c + 1) = sint c + 1" using c by (simp add: sint_inc_int32)
      have res: "candidateTunnelID ids c = candidateTunnelID ids (c + 1)"
        using le Some by (simp add: candidateTunnelID.simps [of ids c])
      have "ids i \<noteq> None" if "sint c \<le> sint i" "\<not> sint c + 1 \<le> sint i" for i
        using that Some sint_inj_int32 [of i c] by force
      with "1.IH" [OF le Some] c inc show ?thesis unfolding res by force
    qed
  qed
qed

subsection \<open>What an allocation does to the stored objects\<close>

text \<open>
  \<open>used_ids\<close> are the identifiers the allocator counts as taken; \<open>least_free used c\<close>
  says that \<open>c\<close> is the least identifier of the range that is not taken.
\<close>

definition used_ids :: "(string \<rightharpoonup> VSwitchConfig) \<Rightarrow> int32 set" where
  "used_ids V = {i \<in> tunnelID ` ran V. valid_id i}"

definition least_free :: "int32 set \<Rightarrow> int32 \<Rightarrow> bool" where
  "least_free used c \<longleftrightarrow> valid_id c \<and> c \<notin> used \<and> (\<forall>i. valid_id i \<and> sint i < sint c \<longrightarrow> i \<in> used)"

definition unique_ids :: "(string \<rightharpoonup> VSwitchConfig) \<Rightarrow> bool" where
  "unique_ids V \<longleftrightarrow> (\<forall>m n v w. V m = Some v \<and> V n = Some w \<and> tunnelID v \<noteq> 0 \<and>
     tunnelID v = tunnelID w \<longrightarrow> m = n)"

lemma valid_id_nonzero: "valid_id i \<Longrightarrow> i \<noteq> 0"
  by (auto simp: valid_id_def)

lemma dom_collectTunnelIDs:
  "dom (collectTunnelIDs vs ids) = dom ids \<union> {i \<in> tunnelID ` set vs. valid_id i}"
proof (induction vs arbitrary: ids)
  case (Cons v vs)
  show ?case
  proof (cases "valid_id (tunnelID v)")
    case True
    then have "collectTunnelIDs (v # vs) ids = collectTunnelIDs vs (ids(tunnelID v \<mapsto> ()))"
      by (simp add: validateTunnelID_iff Let_def valid_id_nonzero split: sum.split)
        (metis validateTunnelID_iff sum.distinct(1))
    with True Cons show ?thesis by (auto split: if_splits)
  next
    case False
    then have "collectTunnelIDs (v # vs) ids = collectTunnelIDs vs ids"
      by (auto simp: Let_def simp flip: validateTunnelID_iff split: sum.split)
    with False Cons show ?thesis by auto
  qed
qed simp

text \<open>The search from the minimum finds the least free identifier, or runs off the range.\<close>

lemma candidateTunnelID_least_free:
  "candidateTunnelID ids defaultMinTunnelID = 10000 \<and> {i. valid_id i} \<subseteq> dom ids \<or>
   least_free {i \<in> dom ids. valid_id i} (candidateTunnelID ids defaultMinTunnelID)"
proof -
  let ?c = "candidateTunnelID ids defaultMinTunnelID"
  have start: "sint defaultMinTunnelID = 100" by (simp add: defaultMinTunnelID_def)
  have *: "100 \<le> sint ?c" "sint ?c \<le> 10000"
    "\<forall>i. 100 \<le> sint i \<and> sint i < sint ?c \<longrightarrow> i \<in> dom ids"
    "sint ?c \<le> 9999 \<longrightarrow> ?c \<notin> dom ids"
    using candidateTunnelID_spec [of defaultMinTunnelID ids] unfolding start by (auto simp: domIff)
  show ?thesis
  proof (cases "sint ?c \<le> 9999")
    case True
    with * show ?thesis by (auto simp: least_free_def valid_id_def)
  next
    case False
    with * have ten: "sint ?c = 10000" by simp
    have "?c = 10000" using ten by (intro sint_inj_int32 [THEN iffD1]) simp
    with * ten show ?thesis by (auto simp: valid_id_def)
  qed
qed

lemma card_valid_ids: "card {i. valid_id i} = 9900" and finite_valid_ids: "finite {i. valid_id i}"
proof -
  have img: "{i. valid_id i} = (word_of_int :: int \<Rightarrow> int32) ` {100..9999}"
  proof (intro equalityI subsetI)
    fix i :: int32
    assume "i \<in> {i. valid_id i}"
    then have "i = word_of_int (sint i)" and "sint i \<in> {100..9999}" by (auto simp: valid_id_def)
    then show "i \<in> word_of_int ` {100..9999}" by blast
  next
    fix i :: int32
    assume "i \<in> word_of_int ` {100..9999}"
    then obtain k where k: "i = word_of_int k" "100 \<le> k" "k \<le> 9999" by auto
    then have "sint i = k"
      by (simp add: sint_sbintrunc' signed_take_bit_int_eq_self)
    with k show "i \<in> {i. valid_id i}" by (simp add: valid_id_def)
  qed
  have "inj_on (word_of_int :: int \<Rightarrow> int32) {100..9999}"
  proof (rule inj_onI)
    fix a b :: int
    assume "a \<in> {100..9999}" "b \<in> {100..9999}" "(word_of_int a :: int32) = word_of_int b"
    then have "take_bit 32 a = take_bit 32 b" and "take_bit 32 a = a" and "take_bit 32 b = b"
      by (auto simp: word_of_int_eq_iff take_bit_int_eq_self)
    then show "a = b" by simp
  qed
  then show "card {i. valid_id i} = 9900" unfolding img by (simp add: card_image)
  show "finite {i. valid_id i}" unfolding img by simp
qed

context vswitch_api
begin

lemma getCurrentTunnelIDs_run:
  assumes "wf s" and "run_state (getCurrentTunnelIDs api) s = (Inr ids, s')"
  shows "wf s' \<and> view s' = view s \<and> dom ids = used_ids (view s)"
proof -
  from assms(2) obtain vs where run: "run_state (List api) s = (Inr vs, s')"
    and ids: "ids = collectTunnelIDs vs Map.empty"
    unfolding getCurrentTunnelIDs_def
    by (auto simp: run_simps split: prod.splits sum.splits)
  show ?thesis
    using list_frame [OF assms(1) run] list_ok [OF assms(1) run]
    by (simp add: ids dom_collectTunnelIDs used_ids_def)
qed

lemma getCurrentTunnelIDs_fails:
  assumes "wf s" and "run_state (getCurrentTunnelIDs api) s = (Inl e, s')"
  shows "wf s' \<and> view s' = view s"
  using assms(2) list_frame [OF assms(1)] unfolding getCurrentTunnelIDs_def
  by (auto simp: run_simps split: prod.splits sum.splits)

text \<open>
  An allocation leaves the stored objects alone, or it replaces exactly one object, whose
  identifier was 0, giving it the identifier the search found and keeping the rest of its
  spec.
\<close>

lemma allocateTunnelID_run:
  assumes wf: "wf s" and name: "vname v \<noteq> []"
    and run: "run_state (allocateTunnelID api v) s = (r, s')"
  shows "wf s' \<and> (view s' = view s \<and> (r = Inr () \<longrightarrow> (\<exists>w. view s (vname v) = Some w \<and> tunnelID w \<noteq> 0)) \<or>
    (\<exists>old new ids. r = Inr () \<and> view s (vname v) = Some old \<and> tunnelID old = 0 \<and>
       dom ids = used_ids (view s) \<and> view s' = (view s)(vname v \<mapsto> new) \<and>
       Spec new = (Spec old)\<lparr>OverlayTunnelID := candidateTunnelID ids defaultMinTunnelID\<rparr>))"
  using run unfolding allocateTunnelID_def
proof (cases rule: go_bind_cases)
  case (fails e)
  then show ?thesis using get_frame [OF wf] by (auto elim: go_wrap_cases)
next
  case (runs old s1)
  from runs(1) have getr: "run_state (Get api (vname v)) s = (Inr old, s1)"
    by (auto elim: go_wrap_cases)
  note g = get_frame [OF wf getr] get_ok [OF wf name getr]
  show ?thesis
  proof (cases "tunnelID old = 0")
    case False
    with runs(2) g show ?thesis by (auto simp: run_simps)
  next
    case zero: True
    with runs(2) have rest: "run_state (go_bind (go_wrap (Wrapf ''error getting the current set of tunnel IDs: %v'' [])
           (getCurrentTunnelIDs api)) (\<lambda>tunIDs. go_bind (go_wrap (Wrapf ''error updating vswitch config with tunnel ID: %v'' [])
           (Update api (old\<lparr>Spec := (Spec old)\<lparr>OverlayTunnelID := candidateTunnelID tunIDs defaultMinTunnelID\<rparr>\<rparr>)))
           (\<lambda>_. go_return ()))) s1 = (r, s')"
      by (simp add: Let_def)
    from rest show ?thesis
    proof (cases rule: go_bind_cases)
      case (fails e)
      then show ?thesis using getCurrentTunnelIDs_fails [of s1] g by (auto elim: go_wrap_cases)
    next
      case (runs ids s2)
      from runs(1) have ids: "run_state (getCurrentTunnelIDs api) s1 = (Inr ids, s2)"
        by (auto elim: go_wrap_cases)
      have i: "wf s2" "view s2 = view s" "dom ids = used_ids (view s)"
        using getCurrentTunnelIDs_run [OF _ ids] g by auto
      let ?new = "old\<lparr>Spec := (Spec old)\<lparr>OverlayTunnelID := candidateTunnelID ids defaultMinTunnelID\<rparr>\<rparr>"
      have old: "vname old = vname v" using wf_view [OF wf g(2)] by simp
      from runs(2) show ?thesis
      proof (cases rule: go_bind_cases)
        case (fails e)
        then have "run_state (Update api ?new) s2 = (Inl (case e of Wrapf _ _ e' \<Rightarrow> e'), s')"
          by (auto elim!: go_wrap_cases)
        then show ?thesis
          using update_wf [OF i(1), of ?new] update_err [OF i(1), of ?new] name old fails(2) i(2) by auto
      next
        case (runs new s3)
        then have u: "run_state (Update api ?new) s2 = (Inr new, s')" and r: "r = Inr ()"
          by (auto simp: run_simps split: prod.splits sum.splits)
        show ?thesis
          using update_wf [OF i(1) _ u] update_ok [OF i(1) _ u] name old g(2) i(2,3) zero r
          by (intro conjI disjI2 exI [of _ old] exI [of _ new] exI [of _ ids]) auto
      qed
    qed
  qed
qed

lemma handle_run:
  assumes wf: "wf s" and run: "run_state (allocator_handle api ev) s = (u, s')"
    and named: "\<And>v. ev = AddEvent (VSwitchConfigObj v) \<or> (\<exists>obj. ev = UpdateEvent obj (VSwitchConfigObj v)) \<Longrightarrow> vname v \<noteq> []"
  shows "wf s' \<and> (view s' = view s \<or>
    (\<exists>n old new ids. view s n = Some old \<and> tunnelID old = 0 \<and>
       dom ids = used_ids (view s) \<and> view s' = (view s)(n \<mapsto> new) \<and>
       Spec new = (Spec old)\<lparr>OverlayTunnelID := candidateTunnelID ids defaultMinTunnelID\<rparr>))"
proof -
  have alloc: "wf s' \<and> (view s' = view s \<or>
    (\<exists>n old new ids. view s n = Some old \<and> tunnelID old = 0 \<and>
       dom ids = used_ids (view s) \<and> view s' = (view s)(n \<mapsto> new) \<and>
       Spec new = (Spec old)\<lparr>OverlayTunnelID := candidateTunnelID ids defaultMinTunnelID\<rparr>))"
    if "vname v \<noteq> []" "run_state (State_Monad.bind (allocateTunnelID api v) (\<lambda>_. State_Monad.return ())) s = (u, s')"
    for v
  proof -
    from that(2) obtain r where "run_state (allocateTunnelID api v) s = (r, s')"
      by (auto split: prod.splits)
    from allocateTunnelID_run [OF wf that(1) this] show ?thesis by blast
  qed
  show ?thesis
    using run wf named alloc
    by (cases ev)
      (auto simp: allocator_OnAdd_def allocator_OnUpdate_def allocator_OnDelete_def
        split: runtime_object.splits if_splits)
qed

end

subsection \<open>Runs of the allocator\<close>

text \<open>Objects delivered by an informer carry the name they are stored under.\<close>

fun event_named :: "informer_event \<Rightarrow> bool" where
  "event_named (AddEvent (VSwitchConfigObj v)) = (vname v \<noteq> [])"
| "event_named (UpdateEvent _ (VSwitchConfigObj v)) = (vname v \<noteq> [])"
| "event_named _ = True"

text \<open>\<open>id_step V V'\<close>: one stored object with identifier 0 got the least free identifier.\<close>

definition id_step :: "(string \<rightharpoonup> VSwitchConfig) \<Rightarrow> (string \<rightharpoonup> VSwitchConfig) \<Rightarrow> bool" where
  "id_step V V' \<longleftrightarrow> (\<exists>n old new. V n = Some old \<and> tunnelID old = 0 \<and> V' = V(n \<mapsto> new) \<and>
     Spec new = (Spec old)\<lparr>OverlayTunnelID := tunnelID new\<rparr> \<and> least_free (used_ids V) (tunnelID new))"

text \<open>With at most 9900 objects, one of which has no identifier, an identifier is free.\<close>

lemma free_id_exists:
  assumes fin: "finite (dom V)" and card: "card (dom V) \<le> 9900"
    and n: "V n = Some old" and zero: "tunnelID old = 0"
  shows "\<not> {i. valid_id i} \<subseteq> used_ids V"
proof
  assume sub: "{i. valid_id i} \<subseteq> used_ids V"
  let ?ids = "(\<lambda>m. tunnelID (the (V m))) ` (dom V - {n})"
  have "used_ids V \<subseteq> ?ids"
  proof
    fix i
    assume "i \<in> used_ids V"
    then obtain m v where v: "V m = Some v" "i = tunnelID v" "valid_id i"
      by (auto simp: used_ids_def ran_def)
    then have "m \<noteq> n" using n zero by (auto dest: valid_id_nonzero)
    then show "i \<in> ?ids" using v by (auto simp: image_iff intro!: bexI [of _ m])
  qed
  with sub have "card {i. valid_id i} \<le> card ?ids" using fin by (intro card_mono) auto
  also have "\<dots> \<le> card (dom V - {n})" using fin by (intro card_image_le) simp
  also have "\<dots> < card (dom V)" using fin n by (intro psubset_card_mono) auto
  finally show False using card by (simp add: card_valid_ids)
qed

lemma id_stepI:
  assumes "finite (dom V)" and "card (dom V) \<le> 9900" and old: "V n = Some old" "tunnelID old = 0"
    and ids: "dom ids = used_ids V" and V': "V' = V(n \<mapsto> new)"
    and spec: "Spec new = (Spec old)\<lparr>OverlayTunnelID := candidateTunnelID ids defaultMinTunnelID\<rparr>"
  shows "id_step V V'"
proof -
  have "{i \<in> used_ids V. valid_id i} = used_ids V" by (auto simp: used_ids_def)
  then have "least_free (used_ids V) (candidateTunnelID ids defaultMinTunnelID)"
    using candidateTunnelID_least_free [of ids] free_id_exists [OF assms(1-4)] unfolding ids by auto
  then show ?thesis using old V' spec
    unfolding id_step_def by (intro exI [of _ n] exI [of _ old] exI [of _ new]) simp
qed

lemma id_step_unique:
  assumes step: "id_step V V'" and uniq: "unique_ids V"
  shows "unique_ids V'"
proof -
  from step obtain n old new where s: "V n = Some old" "tunnelID old = 0" "V' = V(n \<mapsto> new)"
    and free: "least_free (used_ids V) (tunnelID new)" by (auto simp: id_step_def)
  have other: "tunnelID w \<noteq> tunnelID new" if "V m = Some w" for m w
    using ranI [of V m w, OF that] free unfolding least_free_def used_ids_def by (auto simp: image_iff)
  show ?thesis unfolding unique_ids_def
  proof (intro allI impI, elim conjE)
    fix m k v w
    assume "V' m = Some v" "V' k = Some w" "tunnelID v \<noteq> 0" "tunnelID v = tunnelID w"
    then show "m = k" using s other [of k w] other [of m v] uniq
      unfolding unique_ids_def by (auto split: if_splits)
  qed
qed

lemma id_step_frame:
  assumes "id_step V V'"
  shows "dom V' = dom V" and "V n = Some v \<Longrightarrow>
    \<exists>v'. V' n = Some v' \<and> Spec v' = (Spec v)\<lparr>OverlayTunnelID := tunnelID v'\<rparr> \<and>
      (tunnelID v' = tunnelID v \<or> tunnelID v = 0 \<and> valid_id (tunnelID v'))"
  using assms by (auto simp: id_step_def least_free_def split: if_splits)

lemma id_stepE:
  assumes "V' = V \<or> id_step V V'" and "V n = Some v"
  obtains v' where "V' n = Some v'" and "Spec v' = (Spec v)\<lparr>OverlayTunnelID := tunnelID v'\<rparr>"
    and "tunnelID v' = tunnelID v \<or> tunnelID v = 0 \<and> valid_id (tunnelID v')"
  using assms id_step_frame(2) [of V V' n v] by auto

lemma id_step_dom: "V' = V \<or> id_step V V' \<Longrightarrow> dom V' = dom V"
  using id_step_frame(1) by blast

lemma id_steps_unique: "V' = V \<or> id_step V V' \<Longrightarrow> unique_ids V \<Longrightarrow> unique_ids V'"
  using id_step_unique by blast

context vswitch_api
begin

lemma handle_step:
  assumes "wf s" and "event_named ev" and "card (dom (view s)) \<le> 9900"
    and run: "run_state (allocator_handle api ev) s = (u, s')"
  shows "wf s'" and "view s' = view s \<or> id_step (view s) (view s')"
proof -
  have "\<And>v. ev = AddEvent (VSwitchConfigObj v) \<or> (\<exists>obj. ev = UpdateEvent obj (VSwitchConfigObj v)) \<Longrightarrow> vname v \<noteq> []"
    using assms(2) by auto
  from handle_run [OF assms(1) run this] show "wf s'" and "view s' = view s \<or> id_step (view s) (view s')"
    using id_stepI [OF wf_finite [OF assms(1)] assms(3)] by blast+
qed

lemma allocator_run_invariant:
  assumes "wf s" and "\<forall>ev\<in>set evs. event_named ev" and "card (dom (view s)) \<le> 9900"
    and "unique_ids (view s)"
  shows "wf (allocator_run api evs s) \<and> unique_ids (view (allocator_run api evs s)) \<and>
    dom (view (allocator_run api evs s)) = dom (view s)"
  using assms
proof (induction evs arbitrary: s)
  case (Cons ev evs)
  obtain s1 where run: "run_state (allocator_handle api ev) s = ((), s1)"
    by (cases "run_state (allocator_handle api ev) s") auto
  have named: "event_named ev" using Cons.prems by simp
  note step = handle_step [OF Cons.prems(1) named Cons.prems(3) run]
  have "unique_ids (view s1)" and "dom (view s1) = dom (view s)"
    using id_steps_unique [OF step(2) Cons.prems(4)] id_step_dom [OF step(2)] by auto
  with Cons.IH [of s1] Cons.prems step(1) run show ?case by simp
qed simp

lemma allocator_run_stable:
  assumes "wf s" and "\<forall>ev\<in>set evs. event_named ev" and "card (dom (view s)) \<le> 9900"
    and "view s n = Some v"
  shows "\<exists>v'. view (allocator_run api evs s) n = Some v' \<and>
    Spec v' = (Spec v)\<lparr>OverlayTunnelID := tunnelID v'\<rparr> \<and>
    (tunnelID v' = tunnelID v \<or> tunnelID v = 0 \<and> valid_id (tunnelID v'))"
  using assms
proof (induction evs arbitrary: s v)
  case (Cons ev evs)
  obtain s1 where run: "run_state (allocator_handle api ev) s = ((), s1)"
    by (cases "run_state (allocator_handle api ev) s") auto
  have named: "event_named ev" using Cons.prems by simp
  note step = handle_step [OF Cons.prems(1) named Cons.prems(3) run]
  obtain v1 where v1: "view s1 n = Some v1" "Spec v1 = (Spec v)\<lparr>OverlayTunnelID := tunnelID v1\<rparr>"
      "tunnelID v1 = tunnelID v \<or> tunnelID v = 0 \<and> valid_id (tunnelID v1)"
    using step(2) Cons.prems(4) by (rule id_stepE)
  have "card (dom (view s1)) \<le> 9900"
    using id_step_dom [OF step(2)] Cons.prems(3) by simp
  from Cons.IH [OF step(1) _ this v1(1)] Cons.prems(2) obtain v2 where
    "view (allocator_run api evs s1) n = Some v2" "Spec v2 = (Spec v1)\<lparr>OverlayTunnelID := tunnelID v2\<rparr>"
    "tunnelID v2 = tunnelID v1 \<or> tunnelID v1 = 0 \<and> valid_id (tunnelID v2)" by auto
  with v1 run show ?case by (auto dest: valid_id_nonzero)
qed simp

end

text \<open>The events that ask for an identifier of the object named \<open>n\<close>.\<close>

fun requests_id :: "string \<Rightarrow> informer_event \<Rightarrow> bool" where
  "requests_id n (AddEvent (VSwitchConfigObj v)) = (vname v = n \<and> tunnelID v = 0)"
| "requests_id n (UpdateEvent _ (VSwitchConfigObj v)) = (vname v = n \<and> tunnelID v = 0)"
| "requests_id n _ = False"

lemma requests_idE:
  assumes "requests_id n ev"
  obtains v where "ev = AddEvent (VSwitchConfigObj v) \<or> (\<exists>old. ev = UpdateEvent old (VSwitchConfigObj v))"
    and "vname v = n" and "tunnelID v = 0"
  using assms by (cases "(n, ev)" rule: requests_id.cases) auto

context reliable_vswitch_api
begin

lemma allocateTunnelID_succeeds:
  assumes wf: "wf s" and v: "view s (vname v) = Some w"
  shows "fst (run_state (allocateTunnelID api v) s) = Inr ()"
proof -
  obtain s1 where g: "run_state (Get api (vname v)) s = (Inr w, s1)"
    using get_total [OF wf v] by (metis prod.collapse)
  have s1: "wf s1" "view s1 = view s" using get_frame [OF wf g] by auto
  obtain vs s2 where l: "run_state (List api) s1 = (Inr vs, s2)"
    using list_total [OF s1(1)] by (metis prod.collapse)
  have s2: "wf s2" "view s2 = view s" using list_frame [OF s1(1) l] s1(2) by auto
  have name: "vname w = vname v" using wf_view [OF wf v] by simp
  let ?new = "w\<lparr>Spec := (Spec w)\<lparr>OverlayTunnelID :=
    candidateTunnelID (collectTunnelIDs vs Map.empty) defaultMinTunnelID\<rparr>\<rparr>"
  have "\<exists>v'. fst (run_state (Update api ?new) s2) = Inr v'"
    using update_total [OF s2(1), of ?new w] v s2(2) name by simp
  then obtain v' s3 where "run_state (Update api ?new) s2 = (Inr v', s3)" by (metis prod.collapse)
  with g l show ?thesis
    by (auto simp: allocateTunnelID_def getCurrentTunnelIDs_def run_simps Let_def)
qed

lemma allocator_handle_allocates:
  assumes wf: "wf s" and n: "view s n = Some w" and card: "card (dom (view s)) \<le> 9900"
    and ev: "ev = AddEvent (VSwitchConfigObj v) \<or> (\<exists>old. ev = UpdateEvent old (VSwitchConfigObj v))"
    and v: "vname v = n" "tunnelID v = 0"
  shows "\<exists>w'. view (snd (run_state (allocator_handle api ev) s)) n = Some w' \<and> tunnelID w' \<noteq> 0"
proof -
  have n0: "vname v \<noteq> []" using wf_view [OF wf n] v by simp
  obtain r s1 where run: "run_state (allocateTunnelID api v) s = (r, s1)"
    by (cases "run_state (allocateTunnelID api v) s") auto
  have r: "r = Inr ()" using allocateTunnelID_succeeds [OF wf, of v w] n v run by simp
  have s': "snd (run_state (allocator_handle api ev) s) = s1"
    using ev v run by (auto simp: allocator_OnAdd_def allocator_OnUpdate_def)
  from allocateTunnelID_run [OF wf n0 run] r v(1)
  consider x where "view s1 = view s" "view s n = Some x" "tunnelID x \<noteq> 0"
    | old new ids where "view s n = Some old" "tunnelID old = 0" "dom ids = used_ids (view s)"
      "view s1 = (view s)(n \<mapsto> new)"
      "Spec new = (Spec old)\<lparr>OverlayTunnelID := candidateTunnelID ids defaultMinTunnelID\<rparr>"
    by blast
  then show ?thesis
  proof cases
    case 1
    then show ?thesis unfolding s' by simp
  next
    case 2
    then have "id_step (view s) (view s1)" using id_stepI [OF wf_finite [OF wf] card] by blast
    then obtain w' where "view s1 n = Some w'" "tunnelID w' = tunnelID w \<or> valid_id (tunnelID w')"
      using id_step_frame(2) n by blast
    moreover have "candidateTunnelID ids defaultMinTunnelID \<noteq> 0"
      using candidateTunnelID_least_free [of ids] by (auto simp: least_free_def valid_id_def)
    ultimately show ?thesis using 2 unfolding s' by auto
  qed
qed

lemma allocator_run_allocates:
  assumes "wf s" and "\<forall>ev\<in>set evs. event_named ev" and "card (dom (view s)) \<le> 9900"
    and "view s n = Some w" and "\<exists>ev\<in>set evs. requests_id n ev"
  shows "\<exists>w'. view (allocator_run api evs s) n = Some w' \<and> tunnelID w' \<noteq> 0"
  using assms
proof (induction evs arbitrary: s w)
  case (Cons e evs)
  obtain s1 where run: "run_state (allocator_handle api e) s = ((), s1)"
    by (cases "run_state (allocator_handle api e) s") auto
  have named: "event_named e" "\<forall>ev\<in>set evs. event_named ev" using Cons.prems by auto
  note step = handle_step [OF Cons.prems(1) named(1) Cons.prems(3) run]
  have s1: "card (dom (view s1)) \<le> 9900" using id_step_dom [OF step(2)] Cons.prems(3) by simp
  obtain w1 where w1: "view s1 n = Some w1" using step(2) Cons.prems(4) by (rule id_stepE)
  show ?case
  proof (cases "requests_id n e")
    case True
    then obtain v where v: "e = AddEvent (VSwitchConfigObj v) \<or> (\<exists>old. e = UpdateEvent old (VSwitchConfigObj v))"
      "vname v = n" "tunnelID v = 0" by (rule requests_idE)
    have "tunnelID w1 \<noteq> 0"
      using allocator_handle_allocates [OF Cons.prems(1,4,3) v] run w1 by simp
    moreover obtain w2 where "view (allocator_run api evs s1) n = Some w2"
      "tunnelID w2 = tunnelID w1 \<or> tunnelID w1 = 0"
      using allocator_run_stable [OF step(1) named(2) s1 w1] by blast
    ultimately show ?thesis using run by auto
  next
    case False
    then have "\<exists>ev\<in>set evs. requests_id n ev" using Cons.prems(5) by simp
    from Cons.IH [OF step(1) named(2) s1 w1 this] show ?thesis using run by simp
  qed
qed simp

end

subsection \<open>Properties\<close>

abbreviation two_configs :: tracker where
  "two_configs \<equiv> demo_tracker [demo_config ''node-a'' 0, demo_config ''node-b'' 0]"

abbreviation two_adds :: "informer_event list" where
  "two_adds \<equiv> [AddEvent (VSwitchConfigObj (demo_config ''node-a'' 0)),
     AddEvent (VSwitchConfigObj (demo_config ''node-b'' 0))]"

lemma two_configs_facts:
  "tracker_wf two_configs" "card (dom (tracker_view two_configs)) \<le> 9900"
  "unique_ids (tracker_view two_configs)" "\<forall>ev\<in>set two_adds. event_named ev"
  "tracker_view two_configs ''node-a'' = Some (demo_config ''node-a'' 0)"
  using demo_card [of "[demo_config ''node-a'' 0, demo_config ''node-b'' 0]"]
  by (auto simp: demo_wf demo_view unique_ids_def split: if_splits)

text \<open>
  C1: allocation keeps tunnel identifiers unique. Starting from stored configurations whose
  non-zero identifiers are pairwise distinct, and with at most 9900 of them, any sequence of
  informer events (stale ones included, and with any of the calls failing) leaves the
  non-zero identifiers pairwise distinct and adds or removes no configuration.
\<close>

theorem allocator_unique_ids:
  assumes "vswitch_api api view ok" and "ok s" and "\<forall>ev\<in>set evs. event_named ev"
    and "card (dom (view s)) \<le> 9900" and "unique_ids (view s)"
  shows "unique_ids (view (allocator_run api evs s)) \<and>
    dom (view (allocator_run api evs s)) = dom (view s)"
  using vswitch_api.allocator_run_invariant [OF assms] by blast

theorem allocator_unique_ids_witness:
  "unique_ids (tracker_view (allocator_run FakeVSwitchConfigs two_adds two_configs)) \<and>
   dom (tracker_view (allocator_run FakeVSwitchConfigs two_adds two_configs)) =
     dom (tracker_view two_configs)"
  by (rule allocator_unique_ids [OF tracker_api.vswitch_api_axioms, OF two_configs_facts(1,4,2,3)])





text \<open>
  C4: the search for an identifier. When some identifier of 100..9999 is not taken, the
  loop returns the least such one; when all are taken it does not fail but returns 10000,
  which the allocator's own validation rejects.
\<close>

theorem candidateTunnelID_correct:
  "if \<exists>i. validateTunnelID i = Inr () \<and> i \<notin> dom ids
   then least_free {i \<in> dom ids. valid_id i} (candidateTunnelID ids defaultMinTunnelID)
   else candidateTunnelID ids defaultMinTunnelID = 10000 \<and>
     validateTunnelID (candidateTunnelID ids defaultMinTunnelID) =
       Inl (Errorf ''tunnel ID is greater than the maximum ID allowed'' [])"
proof -
  have over: "validateTunnelID 10000 = Inl (Errorf ''tunnel ID is greater than the maximum ID allowed'' [])"
    by (simp add: validateTunnelID_def word_sless_alt defaultMinTunnelID_def defaultMaxTunnelID_def)
  show ?thesis
  proof (cases "{i. valid_id i} \<subseteq> dom ids")
    case True
    then have "\<not> least_free {i \<in> dom ids. valid_id i} (candidateTunnelID ids defaultMinTunnelID)"
      by (auto simp: least_free_def)
    with True over candidateTunnelID_least_free [of ids] show ?thesis
      by (auto simp: validateTunnelID_iff)
  next
    case False
    with candidateTunnelID_least_free [of ids] show ?thesis
      by (auto simp: validateTunnelID_iff)
  qed
qed



end
