(* ===== verification/VSwitch_Controller.thy ===== *)
theory VSwitch_Controller
  imports Object_Tracker
begin

text \<open>
  The controller that keeps one \<open>VSwitchConfig\<close> per node
  (\<open>controllers/vswitchcfg/vswitchcfg.go\<close>) and the lister it reads
  (\<open>apis/generated/listers/kubeovs/v1alpha1/vswitchconfig.go\<close>).

  The lister reads the informer's cache, which a handler does not change; it is a parameter
  \<open>indexer\<close> of the definitions, possibly out of date with respect to the server. The
  callbacks can panic, so they return an \<open>outcome\<close>.
\<close>

subsection \<open>The lister\<close>

type_synonym indexer = "string \<Rightarrow> VSwitchConfig option result"

definition cache_GetByKey :: "(string \<rightharpoonup> VSwitchConfig) \<Rightarrow> indexer" where
  "cache_GetByKey items key = Inr (items key)"

definition lister_Get :: "indexer \<Rightarrow> string \<Rightarrow> VSwitchConfig result" where
  "lister_Get getByKey name =
     (case getByKey name of
        Inl e \<Rightarrow> Inl e
      | Inr None \<Rightarrow> Inl (StatusError NotFound name)
      | Inr (Some obj) \<Rightarrow> Inr obj)"

lemma lister_Get_cache:
  "lister_Get (cache_GetByKey items) name =
     (case items name of None \<Rightarrow> Inl (StatusError NotFound name) | Some v \<Rightarrow> Inr v)"
  by (simp add: lister_Get_def cache_GetByKey_def split: option.split)

text \<open>
  \<open>List\<close> goes through the objects of the indexer with \<open>cache.ListAll\<close>, which asks the selector about
  their labels unless the selector is empty. \<open>appendFn\<close> acts on what its closure holds.
\<close>

record labels_Selector =
  sel_Empty :: bool
  sel_Matches :: "(string \<times> string) list \<Rightarrow> bool"

fun ListAll :: "('m \<Rightarrow> ObjectMeta result) \<Rightarrow> labels_Selector \<Rightarrow> ('m \<Rightarrow> 'a \<Rightarrow> 'a) \<Rightarrow> 'm list \<Rightarrow> 'a \<Rightarrow> unit result \<times> 'a" where
  "ListAll accessor selector appendFn [] ret = (Inr (), ret)"
| "ListAll accessor selector appendFn (m # ms) ret =
     (if sel_Empty selector then ListAll accessor selector appendFn ms (appendFn m ret)
      else (case accessor m of
              Inl err \<Rightarrow> (Inl err, ret)
            | Inr metadata \<Rightarrow>
                ListAll accessor selector appendFn ms
                  (if sel_Matches selector (Labels metadata) then appendFn m ret else ret)))"

definition lister_List :: "VSwitchConfig list \<Rightarrow> labels_Selector \<Rightarrow> VSwitchConfig list \<times> unit result" where
  "lister_List stored selector =
     (case ListAll (\<lambda>v. Inr (Meta v)) selector (\<lambda>m ret. ret @ [m]) stored [] of (err, ret) \<Rightarrow> (ret, err))"

lemma lister_List_eq:
  "lister_List stored selector = (filter (\<lambda>v. sel_Empty selector \<or> sel_Matches selector (Labels (Meta v))) stored, Inr ())"
proof -
  have "ListAll (\<lambda>v. Inr (Meta v)) selector (\<lambda>m ret. ret @ [m]) stored ret =
      (Inr (), ret @ filter (\<lambda>v. sel_Empty selector \<or> sel_Matches selector (Labels (Meta v))) stored)" for ret
    by (induction stored arbitrary: ret) auto
  then show ?thesis by (simp add: lister_List_def)
qed

text \<open>\<open>List\<close> with everything selected and \<open>Get\<close> show the same objects.\<close>

lemma lister_List_Get:
  assumes "set stored = ran items" and "\<And>n v. items n = Some v \<Longrightarrow> vname v = n" and "sel_Empty selector"
  shows "v \<in> set (fst (lister_List stored selector)) \<longleftrightarrow> lister_Get (cache_GetByKey items) (vname v) = Inr v"
proof -
  have "v \<in> ran items \<longleftrightarrow> items (vname v) = Some v" using assms(2) by (auto simp: ran_def)
  then show ?thesis using assms(1,3) by (auto simp: lister_List_eq lister_Get_cache split: option.split)
qed

subsection \<open>Reading a node\<close>

fun overlayIP_loop :: "NodeAddress list \<Rightarrow> string \<Rightarrow> string \<Rightarrow> string \<times> string" where
  "overlayIP_loop [] internalIP externalIP = (internalIP, externalIP)"
| "overlayIP_loop (nodeAddress # rest) internalIP externalIP =
     (let internalIP = (if AddressType nodeAddress = NodeInternalIP then Address nodeAddress else internalIP);
          externalIP = (if AddressType nodeAddress = NodeExternalIP then Address nodeAddress else externalIP)
      in overlayIP_loop rest internalIP externalIP)"

definition nodeOverlayIP :: "Node \<Rightarrow> string result" where
  "nodeOverlayIP node =
     (let (internalIP, externalIP) = overlayIP_loop (Addresses node) [] []
      in if internalIP \<noteq> [] then Inr internalIP
         else if externalIP \<noteq> [] then Inr externalIP
         else Inl (Errorf ''no valid node IP found for tunnel overlay'' []))"

definition nodePodCIDR :: "Node \<Rightarrow> string result" where
  "nodePodCIDR node =
     (let podCIDR = NodePodCIDR node
      in if podCIDR = [] then Inl (Errorf ''node %q did not have pod CIDR set'' [Name (NodeMeta node)])
         else Inr podCIDR)"

subsection \<open>The controller\<close>

record vswitchConfig =
  overlayType :: string
  clusterCIDR :: string
  serviceCIDR :: string

definition nodeToVSwitchConfig ::
    "Node \<Rightarrow> string \<Rightarrow> string \<Rightarrow> string \<Rightarrow> string \<Rightarrow> string \<Rightarrow> VSwitchConfig" where
  "nodeToVSwitchConfig node ovType overlayIP podCIDR cCIDR sCIDR =
     \<lparr>TypeMetaOf = \<lparr>Kind = [], APIVersion = []\<rparr>,
      Meta = \<lparr>Name = Name (NodeMeta node), Namespace = [], ResourceVersion = [], Labels = []\<rparr>,
      Spec = \<lparr>PodCIDR = podCIDR, ClusterCIDR = cCIDR, ServiceCIDR = sCIDR,
        OverlayIP = overlayIP, OverlayType = ovType, OverlayTunnelID = 0\<rparr>\<rparr>"

definition needsUpdate :: "vswitchConfig \<Rightarrow> indexer \<Rightarrow> Node \<Rightarrow> bool result" where
  "needsUpdate v getByKey node =
     (case lister_Get getByKey (Name (NodeMeta node)) of
        Inl err \<Rightarrow>
          if IsNotFound err then Inr True
          else Inl (Wrapf ''error getting vswitch config from lister: %v'' [] err)
      | Inr vswitchCfg \<Rightarrow>
          (case nodeOverlayIP node of
             Inl err \<Rightarrow> Inl (Wrapf ''failed to get overlay IP for node: %v'' [] err)
           | Inr overlayIP \<Rightarrow>
               (case nodePodCIDR node of
                  Inl err \<Rightarrow> Inl (Wrapf ''failed to get pod CIDR for node: %v'' [] err)
                | Inr podCIDR \<Rightarrow>
                    if OverlayIP (Spec vswitchCfg) \<noteq> overlayIP then Inr True
                    else if OverlayType (Spec vswitchCfg) \<noteq> overlayType v then Inr True
                    else if PodCIDR (Spec vswitchCfg) \<noteq> podCIDR then Inr True
                    else if ClusterCIDR (Spec vswitchCfg) \<noteq> clusterCIDR v then Inr True
                    else if ServiceCIDR (Spec vswitchCfg) \<noteq> serviceCIDR v then Inr True
                    else Inr False)))"

definition syncVSwitchConfig ::
    "vswitchConfig \<Rightarrow> indexer \<Rightarrow> 's VSwitchConfigInterface \<Rightarrow> Node \<Rightarrow> ('s, unit) go" where
  "syncVSwitchConfig v getByKey api node =
     (case nodeOverlayIP node of
        Inl err \<Rightarrow> go_fail (Wrapf ''error getting overlay IP for node %q, err: %v'' [Name (NodeMeta node)] err)
      | Inr overlayIP \<Rightarrow>
          (case nodePodCIDR node of
             Inl err \<Rightarrow> go_fail (Wrapf ''failed to get pod CIDR for node: %v'' [] err)
           | Inr podCIDR \<Rightarrow>
               (case lister_Get getByKey (Name (NodeMeta node)) of
                  Inl err \<Rightarrow>
                    if IsNotFound err then
                      go_bind (Create api (nodeToVSwitchConfig node (overlayType v) overlayIP
                                 podCIDR (clusterCIDR v) (serviceCIDR v)))
                        (\<lambda>_. go_return ())
                    else go_fail (Wrapf ''error getting vswitch config from cache: %v'' [] err)
                | Inr vswitchCfg \<Rightarrow>
                    (let newVSwitchCfg = DeepCopy vswitchCfg;
                         newVSwitchCfg = newVSwitchCfg\<lparr>Spec := (Spec newVSwitchCfg)\<lparr>OverlayIP := overlayIP\<rparr>\<rparr>;
                         newVSwitchCfg = newVSwitchCfg\<lparr>Spec := (Spec newVSwitchCfg)\<lparr>OverlayType := overlayType v\<rparr>\<rparr>;
                         newVSwitchCfg = newVSwitchCfg\<lparr>Spec := (Spec newVSwitchCfg)\<lparr>PodCIDR := podCIDR\<rparr>\<rparr>;
                         newVSwitchCfg = newVSwitchCfg\<lparr>Spec := (Spec newVSwitchCfg)\<lparr>ClusterCIDR := clusterCIDR v\<rparr>\<rparr>;
                         newVSwitchCfg = newVSwitchCfg\<lparr>Spec := (Spec newVSwitchCfg)\<lparr>ServiceCIDR := serviceCIDR v\<rparr>\<rparr>
                     in go_bind (Update api newVSwitchCfg) (\<lambda>_. go_return ())))))"

text \<open>
  \<open>node, ok := obj.(*corev1.Node)\<close> leaves \<open>node\<close> nil when the assertion fails. \<open>OnAdd\<close>
  then returns; \<open>OnUpdate\<close> and \<open>OnDelete\<close> log and go on to read \<open>node.Name\<close>.
\<close>

definition reconcile ::
    "vswitchConfig \<Rightarrow> indexer \<Rightarrow> 's VSwitchConfigInterface \<Rightarrow> Node \<Rightarrow> ('s, unit outcome) state" where
  "reconcile v getByKey api node =
     (case needsUpdate v getByKey node of
        Inl _ \<Rightarrow> State_Monad.return (Returns ())
      | Inr shouldUpdate \<Rightarrow>
          if \<not> shouldUpdate then State_Monad.return (Returns ())
          else State_Monad.bind (syncVSwitchConfig v getByKey api node)
                 (\<lambda>_. State_Monad.return (Returns ())))"

definition vswitchcfg_OnAdd ::
    "vswitchConfig \<Rightarrow> indexer \<Rightarrow> 's VSwitchConfigInterface \<Rightarrow> runtime_object \<Rightarrow> ('s, unit outcome) state" where
  "vswitchcfg_OnAdd v getByKey api obj =
     (case obj of
        NodeObj node \<Rightarrow> reconcile v getByKey api node
      | _ \<Rightarrow> State_Monad.return (Returns ()))"

definition vswitchcfg_OnUpdate ::
    "vswitchConfig \<Rightarrow> indexer \<Rightarrow> 's VSwitchConfigInterface \<Rightarrow> runtime_object \<Rightarrow> runtime_object \<Rightarrow>
     ('s, unit outcome) state" where
  "vswitchcfg_OnUpdate v getByKey api oldObj newObj =
     (case newObj of
        NodeObj node \<Rightarrow> reconcile v getByKey api node
      | _ \<Rightarrow> State_Monad.return (Panics NilDereference))"

definition vswitchcfg_OnDelete ::
    "'s VSwitchConfigInterface \<Rightarrow> runtime_object \<Rightarrow> ('s, unit outcome) state" where
  "vswitchcfg_OnDelete api obj =
     (case obj of
        NodeObj node \<Rightarrow> State_Monad.bind (Delete api (Name (NodeMeta node)))
          (\<lambda>_. State_Monad.return (Returns ()))
      | _ \<Rightarrow> State_Monad.return (Panics NilDereference))"

subsection \<open>The desired configuration of a node\<close>

text \<open>
  \<open>desired v node i\<close> is the spec the controller wants for the node, with tunnel
  identifier \<open>i\<close>; \<open>None\<close> when the node has no usable address or no pod CIDR.
\<close>

definition last_address :: "NodeAddressType \<Rightarrow> NodeAddress list \<Rightarrow> string" where
  "last_address t as =
     (case filter (\<lambda>a. AddressType a = t) as of [] \<Rightarrow> [] | as' \<Rightarrow> Address (last as'))"

definition desired :: "vswitchConfig \<Rightarrow> Node \<Rightarrow> int32 \<Rightarrow> VSwitchConfigSpec option" where
  "desired v node i =
     (let internal = last_address NodeInternalIP (Addresses node);
          external = last_address NodeExternalIP (Addresses node);
          ip = (if internal \<noteq> [] then internal else external)
      in if ip = [] \<or> NodePodCIDR node = [] then None
         else Some \<lparr>PodCIDR = NodePodCIDR node, ClusterCIDR = clusterCIDR v,
                ServiceCIDR = serviceCIDR v, OverlayIP = ip, OverlayType = overlayType v,
                OverlayTunnelID = i\<rparr>)"

lemma overlayIP_loop_eq:
  "overlayIP_loop as i e =
     (if \<exists>a\<in>set as. AddressType a = NodeInternalIP then last_address NodeInternalIP as else i,
      if \<exists>a\<in>set as. AddressType a = NodeExternalIP then last_address NodeExternalIP as else e)"
  by (induction as arbitrary: i e)
    (auto simp: last_address_def Let_def filter_empty_conv split: list.splits)

text \<open>The overlay address is the last internal address, else the last external one, else an error.\<close>

lemma nodeOverlayIP_correct:
  "nodeOverlayIP node =
     (let internal = last_address NodeInternalIP (Addresses node);
          external = last_address NodeExternalIP (Addresses node)
      in if internal \<noteq> [] then Inr internal
         else if external \<noteq> [] then Inr external
         else Inl (Errorf ''no valid node IP found for tunnel overlay'' []))"
proof -
  have none: "last_address t as = []" if "\<not> (\<exists>a\<in>set as. AddressType a = t)" for t as
    using that by (auto simp: last_address_def filter_empty_conv split: list.split)
  show ?thesis by (auto simp: nodeOverlayIP_def overlayIP_loop_eq Let_def none)
qed

text \<open>The informer's cache stores objects under their names.\<close>

definition cache_keyed :: "(string \<rightharpoonup> VSwitchConfig) \<Rightarrow> bool" where
  "cache_keyed items \<longleftrightarrow> (\<forall>n v. items n = Some v \<longrightarrow> vname v = n)"

lemma node_desired_cases:
  obtains (usable) ip where "nodeOverlayIP node = Inr ip" and "nodePodCIDR node = Inr (NodePodCIDR node)"
    and "\<And>i. desired v node i = Some \<lparr>PodCIDR = NodePodCIDR node, ClusterCIDR = clusterCIDR v,
           ServiceCIDR = serviceCIDR v, OverlayIP = ip, OverlayType = overlayType v, OverlayTunnelID = i\<rparr>"
  | (unusable) "\<And>i. desired v node i = None" and
      "(\<exists>e. nodeOverlayIP node = Inl e) \<or> (\<exists>e. nodePodCIDR node = Inl e)"
proof (cases "last_address NodeInternalIP (Addresses node) = [] \<and> last_address NodeExternalIP (Addresses node) = []
    \<or> NodePodCIDR node = []")
  case True
  then show ?thesis by (intro unusable) (auto simp: desired_def nodeOverlayIP_correct nodePodCIDR_def Let_def)
next
  case False
  then show ?thesis
    by (intro usable [of "if last_address NodeInternalIP (Addresses node) \<noteq> []
        then last_address NodeInternalIP (Addresses node)
        else last_address NodeExternalIP (Addresses node)"])
      (auto simp: desired_def nodeOverlayIP_correct nodePodCIDR_def Let_def)
qed

lemma needsUpdate_cached:
  assumes "items (Name (NodeMeta node)) = Some w"
  shows "needsUpdate v (cache_GetByKey items) node = Inr False \<longleftrightarrow> desired v node (tunnelID w) = Some (Spec w)"
    and "needsUpdate v (cache_GetByKey items) node = Inr True \<longleftrightarrow>
      (\<exists>d. desired v node (tunnelID w) = Some d \<and> d \<noteq> Spec w)"
proof -
  have eq: "Spec w = \<lparr>PodCIDR = p, ClusterCIDR = c, ServiceCIDR = sc, OverlayIP = ip,
      OverlayType = t, OverlayTunnelID = tunnelID w\<rparr> \<longleftrightarrow>
    PodCIDR (Spec w) = p \<and> ClusterCIDR (Spec w) = c \<and> ServiceCIDR (Spec w) = sc \<and>
    OverlayIP (Spec w) = ip \<and> OverlayType (Spec w) = t" for p c sc ip t
    by (cases "Spec w") auto
  show "needsUpdate v (cache_GetByKey items) node = Inr False \<longleftrightarrow> desired v node (tunnelID w) = Some (Spec w)"
    and "needsUpdate v (cache_GetByKey items) node = Inr True \<longleftrightarrow>
      (\<exists>d. desired v node (tunnelID w) = Some d \<and> d \<noteq> Spec w)"
    using assms eq
    by (cases node v rule: node_desired_cases;
        auto simp: needsUpdate_def lister_Get_cache eq_commute [of _ "Spec w"] split: sum.splits)+
qed

lemma needsUpdate_uncached:
  "items (Name (NodeMeta node)) = None \<Longrightarrow> needsUpdate v (cache_GetByKey items) node = Inr True"
  by (simp add: needsUpdate_def lister_Get_cache)

context vswitch_api
begin

text \<open>
  A reconciliation returns, and it leaves the stored objects alone or stores exactly the
  desired configuration of the node, with the identifier of the cached copy.
\<close>

lemma reconcile_run:
  assumes wf: "wf s" and name: "Name (NodeMeta node) \<noteq> []" and keyed: "cache_keyed items"
    and run: "run_state (reconcile v (cache_GetByKey items) api node) s = (u, s')"
  shows "u = Returns () \<and> wf s' \<and> (view s' = view s \<or>
    (\<exists>new. view s' = (view s)(Name (NodeMeta node) \<mapsto> new) \<and>
      desired v node (tunnelID new) = Some (Spec new) \<and>
      (case items (Name (NodeMeta node)) of
         None \<Rightarrow> tunnelID new = 0 \<and> view s (Name (NodeMeta node)) = None
       | Some w \<Rightarrow> tunnelID new = tunnelID w \<and> view s (Name (NodeMeta node)) \<noteq> None)))"
proof (cases node v rule: node_desired_cases)
  case unusable
  then have "\<exists>e. syncVSwitchConfig v (cache_GetByKey items) api node = go_fail e"
    by (auto simp: syncVSwitchConfig_def split: sum.split)
  then show ?thesis using run wf
    by (auto simp: reconcile_def run_simps split: sum.splits if_splits)
next
  case (usable ip)
  show ?thesis
  proof (cases "items (Name (NodeMeta node))")
    case None
    let ?new = "nodeToVSwitchConfig node (overlayType v) ip (NodePodCIDR node) (clusterCIDR v) (serviceCIDR v)"
    have nm: "vname ?new = Name (NodeMeta node)" by (simp add: nodeToVSwitchConfig_def)
    obtain r s1 where c: "run_state (Create api ?new) s = (r, s1)" by (cases "run_state (Create api ?new) s")
    with run usable None have "u = Returns ()" "s' = s1"
      by (auto simp: reconcile_def needsUpdate_uncached syncVSwitchConfig_def lister_Get_cache run_simps
          split: sum.splits)
    then show ?thesis
      using c create_wf [OF wf, of ?new r s1] create_err [OF wf, of ?new _ s1] create_ok [OF wf, of ?new _ s1]
        nm name usable(3) None
      by (cases r) (auto simp: nodeToVSwitchConfig_def)
  next
    case (Some w)
    let ?new = "w\<lparr>Spec := \<lparr>PodCIDR = NodePodCIDR node, ClusterCIDR = clusterCIDR v,
      ServiceCIDR = serviceCIDR v, OverlayIP = ip, OverlayType = overlayType v,
      OverlayTunnelID = tunnelID w\<rparr>\<rparr>"
    have nm: "vname ?new = Name (NodeMeta node)" using keyed Some by (simp add: cache_keyed_def)
    have sync: "syncVSwitchConfig v (cache_GetByKey items) api node = go_bind (Update api ?new) (\<lambda>_. go_return ())"
      using usable Some by (cases "Spec w") (simp add: syncVSwitchConfig_def lister_Get_cache Let_def)
    obtain r s1 where c: "run_state (Update api ?new) s = (r, s1)" by (cases "run_state (Update api ?new) s")
    with run sync have u: "u = Returns ()" "s' = s1 \<or> s' = s"
      by (auto simp: reconcile_def run_simps split: sum.splits if_splits)
    have new: "vname ?new \<noteq> []" using nm name by simp
    have s1: "wf s1" "view s1 = view s \<or> (\<exists>v'. view s (vname ?new) \<noteq> None \<and>
        view s1 = (view s)(vname ?new \<mapsto> v') \<and> Spec v' = Spec ?new)"
      using update_wf [OF wf new c] update_err [OF wf new] update_ok [OF wf new] c
      by (cases r; blast)+
    have "desired v node (tunnelID w) = Some (Spec ?new)" using usable(3) by simp
    then show ?thesis using u s1 wf Some unfolding nm by auto
  qed
qed

end

text \<open>With a reliable server and a current cache, reconciliation reaches the desired spec.\<close>

definition stored_id :: "(string \<rightharpoonup> VSwitchConfig) \<Rightarrow> string \<Rightarrow> int32" where
  "stored_id V n = (case V n of None \<Rightarrow> 0 | Some w \<Rightarrow> tunnelID w)"

context reliable_vswitch_api
begin

lemma reconcile_converges:
  assumes wf: "wf s" and name: "Name (NodeMeta node) \<noteq> []"
    and fresh: "items (Name (NodeMeta node)) = view s (Name (NodeMeta node))"
    and d: "desired v node (stored_id (view s) (Name (NodeMeta node))) = Some d"
  shows "\<exists>new. view (snd (run_state (reconcile v (cache_GetByKey items) api node) s)) =
      (view s)(Name (NodeMeta node) \<mapsto> new) \<and> Spec new = d"
proof (cases node v rule: node_desired_cases)
  case unusable
  with d show ?thesis by simp
next
  case (usable ip)
  show ?thesis
  proof (cases "view s (Name (NodeMeta node))")
    case None
    let ?new = "nodeToVSwitchConfig node (overlayType v) ip (NodePodCIDR node) (clusterCIDR v) (serviceCIDR v)"
    have nm: "vname ?new = Name (NodeMeta node)" "Namespace (Meta ?new) = []"
      by (simp_all add: nodeToVSwitchConfig_def)
    obtain v' s1 where c: "run_state (Create api ?new) s = (Inr v', s1)"
      using create_total [OF wf, of ?new] nm name None by (metis prod.collapse)
    then have "snd (run_state (reconcile v (cache_GetByKey items) api node) s) = s1"
      using usable None fresh
      by (simp add: reconcile_def needsUpdate_uncached syncVSwitchConfig_def lister_Get_cache run_simps)
    then show ?thesis
      using create_ok [OF wf _ c] nm name d usable(3) None
      by (auto simp: nodeToVSwitchConfig_def stored_id_def)
  next
    case (Some w)
    have nm: "vname w = Name (NodeMeta node)" using wf_view [OF wf Some] by simp
    have id: "stored_id (view s) (Name (NodeMeta node)) = tunnelID w" using Some by (simp add: stored_id_def)
    let ?new = "w\<lparr>Spec := d\<rparr>"
    have sync: "syncVSwitchConfig v (cache_GetByKey items) api node = go_bind (Update api ?new) (\<lambda>_. go_return ())"
      using usable Some fresh d id
      by (cases "Spec w") (auto simp: syncVSwitchConfig_def lister_Get_cache Let_def)
    obtain v' s1 where c: "run_state (Update api ?new) s = (Inr v', s1)"
      using update_total [OF wf, of ?new w] Some nm by (metis VSwitchConfig.select_convs(2)
          VSwitchConfig.surjective VSwitchConfig.update_convs(3) prod.collapse)
    show ?thesis
    proof (cases "d = Spec w")
      case True
      then have "needsUpdate v (cache_GetByKey items) node = Inr False"
        using needsUpdate_cached(1) [of items node w v] Some fresh d id by simp
      with True Some show ?thesis
        by (auto simp: reconcile_def fun_upd_triv intro!: exI [of _ w])
    next
      case False
      then have "needsUpdate v (cache_GetByKey items) node = Inr True"
        using needsUpdate_cached(2) [of items node w v] Some fresh d id by auto
      then have "snd (run_state (reconcile v (cache_GetByKey items) api node) s) = s1"
        using sync c by (simp add: reconcile_def run_simps)
      then show ?thesis using update_ok [OF wf _ c] nm name by auto
    qed
  qed
qed

end

subsection \<open>Properties\<close>

abbreviation demo_controller :: vswitchConfig where
  "demo_controller \<equiv> \<lparr>overlayType = ''vxlan'', clusterCIDR = ''100.96.0.0/11'', serviceCIDR = ''100.64.0.0/13''\<rparr>"

abbreviation demo_node :: Node where
  "demo_node \<equiv> \<lparr>NodeMeta = \<lparr>Name = ''node-a'', Namespace = [], ResourceVersion = ''7'', Labels = []\<rparr>,
     NodePodCIDR = ''100.96.1.0/24'',
     Addresses = [\<lparr>AddressType = NodeExternalIP, Address = ''192.0.2.9''\<rparr>,
                  \<lparr>AddressType = NodeInternalIP, Address = ''10.0.0.7''\<rparr>]\<rparr>"

abbreviation one_config :: tracker where
  "one_config \<equiv> demo_tracker [demo_config ''node-a'' 100]"

abbreviation demo_spec :: VSwitchConfigSpec where
  "demo_spec \<equiv> \<lparr>PodCIDR = ''100.96.1.0/24'', ClusterCIDR = ''100.96.0.0/11'', ServiceCIDR = ''100.64.0.0/13'',
     OverlayIP = ''10.0.0.7'', OverlayType = ''vxlan'', OverlayTunnelID = 100\<rparr>"

lemma one_config_facts:
  "tracker_wf one_config" "cache_keyed (tracker_view one_config)"
  "stored_id (tracker_view one_config) ''node-a'' = 100"
  "desired demo_controller demo_node 100 = Some demo_spec"
  by (auto simp: demo_wf demo_view cache_keyed_def stored_id_def desired_def last_address_def split: if_splits)

text \<open>
  C6: convergence. With a server whose calls succeed and a cache that is current for the
  node, handling an add or update event of a node that has an overlay address and a pod CIDR
  stores exactly the configuration desired for it and keeps the tunnel identifier it had
  (0 for a new one); no other configuration changes.
\<close>

theorem vswitchcfg_converges:
  assumes "reliable_vswitch_api api view ok" and "ok s" and "Name (NodeMeta node) \<noteq> []"
    and "items (Name (NodeMeta node)) = view s (Name (NodeMeta node))"
    and "desired v node (stored_id (view s) (Name (NodeMeta node))) = Some d"
  shows "(\<exists>new. view (snd (run_state (vswitchcfg_OnAdd v (cache_GetByKey items) api (NodeObj node)) s)) =
      (view s)(Name (NodeMeta node) \<mapsto> new) \<and> Spec new = d) \<and>
    (\<exists>new. view (snd (run_state (vswitchcfg_OnUpdate v (cache_GetByKey items) api old (NodeObj node)) s)) =
      (view s)(Name (NodeMeta node) \<mapsto> new) \<and> Spec new = d)"
  using reliable_vswitch_api.reconcile_converges [OF assms(1), of s node items v d, OF assms(2-5)]
  by (simp add: vswitchcfg_OnAdd_def vswitchcfg_OnUpdate_def)

theorem vswitchcfg_converges_witness:
  "\<exists>new. tracker_view (snd (run_state (vswitchcfg_OnAdd demo_controller
       (cache_GetByKey (tracker_view one_config)) FakeVSwitchConfigs (NodeObj demo_node)) one_config)) =
     (tracker_view one_config)(''node-a'' \<mapsto> new) \<and> Spec new = demo_spec"
  using vswitchcfg_converges [OF tracker_reliable.reliable_vswitch_api_axioms, OF one_config_facts(1),
      of demo_node "tracker_view one_config" demo_controller demo_spec "OtherObj []"]
    one_config_facts(3,4)
  by simp



text \<open>
  No needless writes. For a node whose configuration is in the cache, the controller
  decides that no update is needed exactly when the cached spec is the desired one, and
  that one is needed exactly when a desired spec exists and differs.
\<close>

theorem needsUpdate_correct:
  assumes "items (Name (NodeMeta node)) = Some w"
  shows "(needsUpdate v (cache_GetByKey items) node = Inr False \<longleftrightarrow>
      desired v node (tunnelID w) = Some (Spec w)) \<and>
    (needsUpdate v (cache_GetByKey items) node = Inr True \<longleftrightarrow>
      (\<exists>d. desired v node (tunnelID w) = Some d \<and> d \<noteq> Spec w))"
  using needsUpdate_cached [of items node w v, OF assms] by blast

theorem needsUpdate_correct_witness:
  "needsUpdate demo_controller (cache_GetByKey (tracker_view one_config)) demo_node = Inr True"
  using needsUpdate_correct [of "tracker_view one_config" demo_node "demo_config ''node-a'' 100" demo_controller]
    one_config_facts(4)
  by (simp add: demo_view demo_config_def)

text \<open>
  Which callbacks can crash the controller. \<open>OnAdd\<close> returns for every object;
  \<open>OnUpdate\<close> and \<open>OnDelete\<close> dereference a nil node, and so panic, exactly when the object
  is not a node, as the tombstone that an informer delivers for a missed deletion is not.
\<close>

theorem vswitchcfg_panics:
  "fst (run_state (vswitchcfg_OnAdd v idx api obj) s) = Returns () \<and>
   (fst (run_state (vswitchcfg_OnUpdate v idx api old obj) s) = Panics NilDereference \<longleftrightarrow>
      \<not> (\<exists>node. obj = NodeObj node)) \<and>
   (fst (run_state (vswitchcfg_OnDelete api obj) s) = Panics NilDereference \<longleftrightarrow>
      \<not> (\<exists>node. obj = NodeObj node))"
  by (cases obj)
    (auto simp: vswitchcfg_OnAdd_def vswitchcfg_OnUpdate_def vswitchcfg_OnDelete_def reconcile_def
      split: sum.split prod.split)

end
