(* ===== verification/Control_Plane.thy ===== *)
theory Control_Plane
  imports Tunnel_Allocator VSwitch_Controller
begin

text \<open>
  The two controllers of kube-ovs-controller at work on the same server. The virtual switch
  controller reacts to nodes, the allocator to virtual switches; each runs in the goroutine of
  its informer, and only the allocator holds a mutex.

  A node handler makes at most one call, so it is one step; an allocation makes three (read the
  object, list all, update), and steps of node handlers may come in between. \<open>plane_step\<close> is
  this interleaving; \<open>alloc_phases\<close> shows that the phases in a row are \<open>allocateTunnelID\<close>.
\<close>

fun vswitchcfg_handle ::
    "vswitchConfig \<Rightarrow> indexer \<Rightarrow> 's VSwitchConfigInterface \<Rightarrow> informer_event \<Rightarrow> ('s, unit outcome) state" where
  "vswitchcfg_handle v getByKey api (AddEvent obj) = vswitchcfg_OnAdd v getByKey api obj"
| "vswitchcfg_handle v getByKey api (UpdateEvent oldObj newObj) = vswitchcfg_OnUpdate v getByKey api oldObj newObj"
| "vswitchcfg_handle v getByKey api (DeleteEvent obj) = vswitchcfg_OnDelete api obj"

subsection \<open>An allocation in phases\<close>

datatype alloc_phase =
    AllocIdle
  | AllocGot VSwitchConfig
  | AllocListed VSwitchConfig "int32 \<rightharpoonup> unit"

definition alloc_get :: "'s VSwitchConfigInterface \<Rightarrow> VSwitchConfig \<Rightarrow> 's \<Rightarrow> alloc_phase \<times> 's" where
  "alloc_get api v s =
     (case run_state (Get api (vname v)) s of
        (Inl _, s') \<Rightarrow> (AllocIdle, s')
      | (Inr w, s') \<Rightarrow> (if tunnelID w \<noteq> 0 then AllocIdle else AllocGot w, s'))"

definition alloc_list :: "'s VSwitchConfigInterface \<Rightarrow> VSwitchConfig \<Rightarrow> 's \<Rightarrow> alloc_phase \<times> 's" where
  "alloc_list api w s =
     (case run_state (getCurrentTunnelIDs api) s of
        (Inl _, s') \<Rightarrow> (AllocIdle, s')
      | (Inr tunIDs, s') \<Rightarrow> (AllocListed w tunIDs, s'))"

definition alloc_update ::
    "'s VSwitchConfigInterface \<Rightarrow> VSwitchConfig \<Rightarrow> (int32 \<rightharpoonup> unit) \<Rightarrow> 's \<Rightarrow> alloc_phase \<times> 's" where
  "alloc_update api w tunIDs s =
     (AllocIdle, snd (run_state (Update api (w\<lparr>Spec := (Spec w)
        \<lparr>OverlayTunnelID := candidateTunnelID tunIDs defaultMinTunnelID\<rparr>\<rparr>)) s))"

text \<open>One phase after another, until the allocation is over; an allocation has at most three.\<close>

fun alloc_continue :: "'s VSwitchConfigInterface \<Rightarrow> alloc_phase \<times> 's \<Rightarrow> alloc_phase \<times> 's" where
  "alloc_continue api (AllocIdle, s) = (AllocIdle, s)"
| "alloc_continue api (AllocGot w, s) = alloc_list api w s"
| "alloc_continue api (AllocListed w tunIDs, s) = alloc_update api w tunIDs s"

lemma alloc_phases:
  "alloc_continue api (alloc_continue api (alloc_get api v s)) =
     (AllocIdle, snd (run_state (allocateTunnelID api v) s))"
  by (auto simp: alloc_get_def alloc_list_def alloc_update_def allocateTunnelID_def run_simps Let_def
    split: prod.split sum.split)

text \<open>The configuration that an event asks an identifier for.\<close>

fun requested :: "informer_event \<Rightarrow> VSwitchConfig option" where
  "requested (AddEvent (VSwitchConfigObj v)) = (if tunnelID v = 0 then Some v else None)"
| "requested (UpdateEvent _ (VSwitchConfigObj v)) = (if tunnelID v = 0 then Some v else None)"
| "requested _ = None"

lemma allocator_handle_requested:
  "snd (run_state (allocator_handle api ev) s) =
     (case requested ev of None \<Rightarrow> s | Some v \<Rightarrow> snd (run_state (allocateTunnelID api v) s))"
  by (cases ev rule: requested.cases)
    (auto simp: allocator_OnAdd_def allocator_OnUpdate_def allocator_OnDelete_def run_simps split: prod.split)

subsection \<open>What a node handler does to the identifiers\<close>

text \<open>
  A cached configuration may lag behind the server, but its identifier is the stored one, or 0
  as it was before the allocation.
\<close>

definition lagging :: "(string \<rightharpoonup> VSwitchConfig) \<Rightarrow> (string \<rightharpoonup> VSwitchConfig) \<Rightarrow> bool" where
  "lagging items V \<longleftrightarrow> cache_keyed items \<and>
     (\<forall>n w c. items n = Some w \<and> V n = Some c \<longrightarrow> tunnelID w = 0 \<or> tunnelID w = tunnelID c)"

definition node_write :: "string \<Rightarrow> (string \<rightharpoonup> VSwitchConfig) \<Rightarrow> (string \<rightharpoonup> VSwitchConfig) \<Rightarrow> bool" where
  "node_write n V V' \<longleftrightarrow> V' = V \<or> V' = V(n := None) \<or>
     (\<exists>new. V' = V(n \<mapsto> new) \<and> (tunnelID new = 0 \<or> (\<exists>c. V n = Some c \<and> tunnelID new = tunnelID c)))"

fun event_node :: "informer_event \<Rightarrow> Node option" where
  "event_node (AddEvent (NodeObj node)) = Some node"
| "event_node (UpdateEvent _ (NodeObj node)) = Some node"
| "event_node (DeleteEvent (NodeObj node)) = Some node"
| "event_node _ = None"

text \<open>Node events that the plane handles: a node with a name out of \<open>N\<close>.\<close>

definition node_event_in :: "string set \<Rightarrow> informer_event \<Rightarrow> bool" where
  "node_event_in N ev \<longleftrightarrow> (\<exists>node. event_node ev = Some node \<and> Name (NodeMeta node) \<noteq> [] \<and> Name (NodeMeta node) \<in> N)"

lemma node_event_inE:
  assumes "node_event_in N ev"
  obtains node where "Name (NodeMeta node) \<noteq> []" and "Name (NodeMeta node) \<in> N"
    and "ev = AddEvent (NodeObj node) \<or> (\<exists>old. ev = UpdateEvent old (NodeObj node)) \<or> ev = DeleteEvent (NodeObj node)"
    and "event_node ev = Some node"
  using assms unfolding node_event_in_def by (cases ev rule: event_node.cases) auto

lemma node_writeI:
  "node_write n V V" "node_write n V (V(n := None))"
  "tunnelID new = 0 \<or> (\<exists>c. V n = Some c \<and> tunnelID new = tunnelID c) \<Longrightarrow> node_write n V (V(n \<mapsto> new))"
  unfolding node_write_def by blast+

lemma node_write_origin:
  assumes "node_write n V V'" and "V' m = Some x" and "tunnelID x \<noteq> 0"
  shows "\<exists>c. V m = Some c \<and> tunnelID c = tunnelID x"
  using assms unfolding node_write_def by (auto split: if_splits)

lemma used_idsI: "V m = Some c \<Longrightarrow> valid_id (tunnelID c) \<Longrightarrow> tunnelID c \<in> used_ids V"
  by (auto simp: used_ids_def ran_def)

lemma used_ids_write:
  assumes "node_write n V V'"
  shows "used_ids V' \<subseteq> used_ids V"
proof
  fix i
  assume "i \<in> used_ids V'"
  then obtain m x where x: "V' m = Some x" "i = tunnelID x" "valid_id i" by (auto simp: used_ids_def ran_def)
  obtain c where "V m = Some c" "tunnelID c = tunnelID x"
    using node_write_origin [OF assms x(1)] x by (auto dest: valid_id_nonzero)
  then show "i \<in> used_ids V" using used_idsI [of V m c] x by simp
qed

lemma unique_ids_write: "node_write n V V' \<Longrightarrow> unique_ids V \<Longrightarrow> unique_ids V'"
  unfolding unique_ids_def by (metis node_write_origin)

lemma unique_ids_fresh:
  assumes "unique_ids V" and "valid_id (tunnelID new)" and "tunnelID new \<notin> used_ids V"
  shows "unique_ids (V(n \<mapsto> new))"
proof -
  have "tunnelID x \<noteq> tunnelID new" if "V m = Some x" for m x
    using assms(2,3) used_idsI [of V m x] that by auto
  then show ?thesis using assms(1) unfolding unique_ids_def by (auto split: if_splits) metis+
qed

text \<open>Fewer than 9900 other names leave an identifier free for \<open>n\<close>.\<close>

lemma free_id_for:
  assumes "finite N" and "card N \<le> 9900" and "dom V \<subseteq> N" and "n \<in> N"
    and "\<forall>c. V n = Some c \<longrightarrow> tunnelID c = 0"
  shows "\<not> {i. valid_id i} \<subseteq> used_ids V"
proof
  assume sub: "{i. valid_id i} \<subseteq> used_ids V"
  have "used_ids V \<subseteq> (\<lambda>m. tunnelID (the (V m))) ` (N - {n})"
  proof
    fix i
    assume "i \<in> used_ids V"
    then obtain m x where x: "V m = Some x" "i = tunnelID x" "valid_id i" by (auto simp: used_ids_def ran_def)
    then have "m \<noteq> n" using assms(5) by (auto dest: valid_id_nonzero)
    then show "i \<in> (\<lambda>m. tunnelID (the (V m))) ` (N - {n})"
      using x assms(3) by (auto simp: image_iff intro!: bexI [of _ m])
  qed
  then have "card {i. valid_id i} \<le> card (N - {n})"
    using sub assms(1) by (intro surj_card_le) auto
  also have "\<dots> < card N" using assms(1,4) by (intro psubset_card_mono) auto
  finally show False using assms(2) by (simp add: card_valid_ids)
qed

subsection \<open>The interleaving\<close>

context vswitch_api
begin

lemma node_handler_writes:
  assumes wf: "wf s" and ev: "node_event_in N ev" and items: "lagging items (view s)"
    and run: "run_state (vswitchcfg_handle v (cache_GetByKey items) api ev) s = (u, s')"
  shows "u = Returns () \<and> wf s' \<and>
    (\<exists>n\<in>N. node_write n (view s) (view s') \<and> event_node ev \<noteq> None \<and> n = Name (NodeMeta (the (event_node ev))))"
proof -
  from ev obtain node where node: "Name (NodeMeta node) \<noteq> []" "Name (NodeMeta node) \<in> N" "event_node ev = Some node"
    and cases: "ev = AddEvent (NodeObj node) \<or> (\<exists>old. ev = UpdateEvent old (NodeObj node)) \<or> ev = DeleteEvent (NodeObj node)"
    by (rule node_event_inE)
  have keyed: "cache_keyed items" using items by (simp add: lagging_def)
  consider "run_state (reconcile v (cache_GetByKey items) api node) s = (u, s')"
    | r where "run_state (Delete api (Name (NodeMeta node))) s = (r, s')" "u = Returns ()"
    using cases run
    by (auto simp: vswitchcfg_OnAdd_def vswitchcfg_OnUpdate_def vswitchcfg_OnDelete_def run_simps split: prod.splits)
  then have "u = Returns () \<and> wf s' \<and> node_write (Name (NodeMeta node)) (view s) (view s')"
  proof cases
    case 1
    have "tunnelID new = 0 \<or> (\<exists>c. view s n = Some c \<and> tunnelID new = tunnelID c)"
      if "case items n of None \<Rightarrow> tunnelID new = 0 \<and> view s n = None
          | Some w \<Rightarrow> tunnelID new = tunnelID w \<and> view s n \<noteq> None" for n new
      using that items unfolding lagging_def by (fastforce split: option.splits)
    then show ?thesis using reconcile_run [OF wf node(1) keyed 1] node_writeI(1,3) by metis
  next
    case 2
    then show ?thesis
      using delete_wf [OF wf 2(1)] delete_err [OF wf] delete_ok [OF wf node(1)]
      by (cases r) (auto intro: node_writeI)
  qed
  then show ?thesis using node by auto
qed

end

text \<open>
  A state is the phase of the allocation in progress and the state of the server; \<open>N\<close> are
  the names of the nodes. A new allocation starts when the one before is over, as the mutex demands.
\<close>

inductive plane_step ::
    "vswitchConfig \<Rightarrow> 's VSwitchConfigInterface \<Rightarrow> ('s \<Rightarrow> string \<rightharpoonup> VSwitchConfig) \<Rightarrow> string set \<Rightarrow>
     alloc_phase \<times> 's \<Rightarrow> alloc_phase \<times> 's \<Rightarrow> bool"
  for v api view N where
  node: "node_event_in N ev \<Longrightarrow> lagging items (view s) \<Longrightarrow>
    run_state (vswitchcfg_handle v (cache_GetByKey items) api ev) s = (u, s') \<Longrightarrow>
    plane_step v api view N (phase, s) (phase, s')"
| allocate: "requested ev = Some w \<Longrightarrow> vname w \<noteq> [] \<Longrightarrow>
    plane_step v api view N (AllocIdle, s) (alloc_get api w s)"
| continue: "phase \<noteq> AllocIdle \<Longrightarrow>
    plane_step v api view N (phase, s) (alloc_continue api (phase, s))"

text \<open>
  What holds between the phases: the configuration in hand has no identifier on the server, and
  the identifiers in use are among those listed, of which one is free.
\<close>

fun phase_inv :: "string set \<Rightarrow> (string \<rightharpoonup> VSwitchConfig) \<Rightarrow> alloc_phase \<Rightarrow> bool" where
  "phase_inv N V AllocIdle \<longleftrightarrow> True"
| "phase_inv N V (AllocGot w) \<longleftrightarrow> vname w \<noteq> [] \<and> vname w \<in> N \<and> (\<forall>c. V (vname w) = Some c \<longrightarrow> tunnelID c = 0)"
| "phase_inv N V (AllocListed w tunIDs) \<longleftrightarrow> vname w \<noteq> [] \<and> vname w \<in> N \<and> used_ids V \<subseteq> dom tunIDs \<and>
     \<not> {i. valid_id i} \<subseteq> dom tunIDs"

definition plane_inv ::
    "('s \<Rightarrow> string \<rightharpoonup> VSwitchConfig) \<Rightarrow> ('s \<Rightarrow> bool) \<Rightarrow> string set \<Rightarrow> alloc_phase \<times> 's \<Rightarrow> bool" where
  "plane_inv view ok N = (\<lambda>(phase, s). ok s \<and> dom (view s) \<subseteq> N \<and> unique_ids (view s) \<and> phase_inv N (view s) phase)"

lemma node_keeps_phase: "node_write n V V' \<Longrightarrow> phase_inv N V phase \<Longrightarrow> phase_inv N V' phase"
proof (cases phase)
  case (AllocGot w)
  assume "node_write n V V'" and "phase_inv N V phase"
  then show ?thesis using AllocGot node_write_origin [of n V V' "vname w"] by fastforce
next
  case (AllocListed w tunIDs)
  assume "node_write n V V'" and "phase_inv N V phase"
  then show ?thesis using AllocListed used_ids_write [of n V V'] by auto
qed simp

lemma node_keeps_dom: "node_write n V V' \<Longrightarrow> n \<in> N \<Longrightarrow> dom V \<subseteq> N \<Longrightarrow> dom V' \<subseteq> N"
  unfolding node_write_def by (auto split: if_splits dest!: subsetD)

context vswitch_api
begin

lemma alloc_get_inv:
  assumes "plane_inv view wf N (AllocIdle, s)" and "vname w \<noteq> []"
  shows "plane_inv view wf N (alloc_get api w s)"
proof -
  have s: "wf s" "dom (view s) \<subseteq> N" "unique_ids (view s)" using assms(1) by (auto simp: plane_inv_def)
  obtain r s' where run: "run_state (Get api (vname w)) s = (r, s')" by fastforce
  have s': "wf s'" "view s' = view s" using get_frame [OF s(1) run] by auto
  show ?thesis
  proof (cases r)
    case (Inr x)
    then have x: "view s (vname w) = Some x" using get_ok [OF s(1) assms(2)] run by blast
    then show ?thesis
      using s s' run Inr wf_view [OF s(1) x] by (auto simp: alloc_get_def plane_inv_def)
  qed (use s s' run in \<open>simp add: alloc_get_def plane_inv_def\<close>)
qed

lemma alloc_list_inv:
  assumes inv: "plane_inv view wf N (AllocGot w, s)" and N: "finite N" "card N \<le> 9900"
  shows "plane_inv view wf N (alloc_list api w s)"
proof -
  have s: "wf s" "dom (view s) \<subseteq> N" "unique_ids (view s)" and w: "phase_inv N (view s) (AllocGot w)"
    using inv by (auto simp: plane_inv_def)
  obtain r s' where run: "run_state (getCurrentTunnelIDs api) s = (r, s')" by fastforce
  show ?thesis
  proof (cases r)
    case (Inl e)
    then show ?thesis using getCurrentTunnelIDs_fails [OF s(1)] run s by (auto simp: alloc_list_def plane_inv_def)
  next
    case (Inr ids)
    then have ids: "wf s'" "view s' = view s" "dom ids = used_ids (view s)"
      using getCurrentTunnelIDs_run [OF s(1)] run by auto
    have "\<not> {i. valid_id i} \<subseteq> used_ids (view s)"
      using free_id_for [OF N s(2)] w by (auto simp del: Collect_mono_iff)
    then show ?thesis using ids s w run Inr by (simp add: alloc_list_def plane_inv_def)
  qed
qed

lemma alloc_update_inv:
  assumes inv: "plane_inv view wf N (AllocListed w ids, s)"
  shows "plane_inv view wf N (alloc_update api w ids s)"
proof -
  have s: "wf s" "dom (view s) \<subseteq> N" "unique_ids (view s)" and w: "phase_inv N (view s) (AllocListed w ids)"
    using inv by (auto simp: plane_inv_def)
  let ?c = "candidateTunnelID ids defaultMinTunnelID"
  let ?new = "w\<lparr>Spec := (Spec w)\<lparr>OverlayTunnelID := ?c\<rparr>\<rparr>"
  have new: "vname ?new \<noteq> []" using w by simp
  have c: "valid_id ?c" "?c \<notin> used_ids (view s)"
    using candidateTunnelID_least_free [of ids] w by (auto simp: least_free_def)
  obtain r s' where run: "run_state (Update api ?new) s = (r, s')" by fastforce
  have wf': "wf s'" by (rule update_wf [OF s(1) new run])
  show ?thesis
  proof (cases r)
    case (Inl e)
    then show ?thesis using update_err [OF s(1) new] run s wf' by (auto simp: alloc_update_def plane_inv_def)
  next
    case (Inr x)
    then have u: "view s' = (view s)(vname w \<mapsto> x)" "Spec x = Spec ?new"
      using update_ok [OF s(1) new] run by auto
    then have "unique_ids (view s')" using unique_ids_fresh [OF s(3), of x] c by simp
    then show ?thesis using u w s(2) wf' run by (auto simp: alloc_update_def plane_inv_def)
  qed
qed

lemma plane_step_inv:
  assumes "plane_step v api view N c c'" and "finite N" and "card N \<le> 9900" and "plane_inv view wf N c"
  shows "plane_inv view wf N c'"
  using assms
proof (induction rule: plane_step.induct)
  case (node ev items s u s' phase)
  then have "wf s" by (simp add: plane_inv_def)
  from node_handler_writes [OF this node.hyps] obtain n where "wf s'" "n \<in> N" "node_write n (view s) (view s')" by blast
  then show ?case
    using node.prems node_keeps_phase node_keeps_dom unique_ids_write by (auto simp: plane_inv_def)
next
  case (continue phase s)
  then show ?case using alloc_list_inv alloc_update_inv by (cases phase) auto
qed (rule alloc_get_inv)

lemma plane_steps_inv:
  assumes "(plane_step v api view N)\<^sup>*\<^sup>* c c'" and "finite N" and "card N \<le> 9900" and "plane_inv view wf N c"
  shows "plane_inv view wf N c'"
  using assms by induction (auto intro: plane_step_inv)

end

subsection \<open>Runs handler by handler\<close>

text \<open>
  An event with the handler that receives it; a node event comes with what the lister's cache
  holds at that time.
\<close>

datatype plane_event =
    NodeEvent "string \<rightharpoonup> VSwitchConfig" informer_event
  | ConfigEvent informer_event

fun plane_do :: "vswitchConfig \<Rightarrow> 's VSwitchConfigInterface \<Rightarrow> plane_event \<Rightarrow> 's \<Rightarrow> 's" where
  "plane_do v api (NodeEvent items ev) s = snd (run_state (vswitchcfg_handle v (cache_GetByKey items) api ev) s)"
| "plane_do v api (ConfigEvent ev) s = snd (run_state (allocator_handle api ev) s)"

fun event_ok :: "string set \<Rightarrow> (string \<rightharpoonup> VSwitchConfig) \<Rightarrow> plane_event \<Rightarrow> bool" where
  "event_ok N V (NodeEvent items ev) \<longleftrightarrow> node_event_in N ev \<and> lagging items V"
| "event_ok N V (ConfigEvent ev) \<longleftrightarrow> event_named ev"

fun run_ok ::
    "vswitchConfig \<Rightarrow> 's VSwitchConfigInterface \<Rightarrow> ('s \<Rightarrow> string \<rightharpoonup> VSwitchConfig) \<Rightarrow> string set \<Rightarrow>
     plane_event list \<Rightarrow> 's \<Rightarrow> bool" where
  "run_ok v api view N [] s \<longleftrightarrow> True"
| "run_ok v api view N (e # es) s \<longleftrightarrow> event_ok N (view s) e \<and> run_ok v api view N es (plane_do v api e s)"

lemma run_ok_append:
  "run_ok v api view N (es @ es') s \<longleftrightarrow> run_ok v api view N es s \<and> run_ok v api view N es' (fold (plane_do v api) es s)"
  by (induction es arbitrary: s) auto

fun touches :: "string \<Rightarrow> plane_event \<Rightarrow> bool" where
  "touches n (NodeEvent items ev) \<longleftrightarrow> map_option (\<lambda>node. Name (NodeMeta node)) (event_node ev) = Some n"
| "touches n (ConfigEvent ev) \<longleftrightarrow> False"

fun asks :: "string \<Rightarrow> plane_event \<Rightarrow> bool" where
  "asks n (ConfigEvent ev) \<longleftrightarrow> requests_id n ev"
| "asks n (NodeEvent items ev) \<longleftrightarrow> False"

lemma continue_steps: "(plane_step v api view N)\<^sup>*\<^sup>* c (alloc_continue api c)"
proof (cases c)
  case (Pair phase s)
  then show ?thesis using plane_step.continue [of phase v api view N s] by (cases "phase = AllocIdle") auto
qed

lemma requested_named: "requested ev = Some w \<Longrightarrow> event_named ev \<Longrightarrow> vname w \<noteq> []"
  by (cases ev rule: requested.cases) (auto split: if_splits)

text \<open>A handler run on its own is a path of the interleaving.\<close>

lemma plane_do_steps:
  assumes "event_ok N (view s) e"
  shows "(plane_step v api view N)\<^sup>*\<^sup>* (AllocIdle, s) (AllocIdle, plane_do v api e s)"
proof (cases e)
  case (NodeEvent items ev)
  then have "plane_step v api view N (AllocIdle, s) (AllocIdle, plane_do v api e s)"
    using assms plane_step.node [of N ev items view s v api _ _ AllocIdle] by (metis event_ok.simps(1) plane_do.simps(1) prod.collapse)
  then show ?thesis by blast
next
  case (ConfigEvent ev)
  show ?thesis
  proof (cases "requested ev")
    case None
    then show ?thesis using ConfigEvent by (simp add: allocator_handle_requested)
  next
    case (Some w)
    have "plane_step v api view N (AllocIdle, s) (alloc_get api w s)"
      using requested_named [OF Some] Some assms ConfigEvent by (auto intro: plane_step.allocate)
    then have "(plane_step v api view N)\<^sup>*\<^sup>* (AllocIdle, s) (alloc_continue api (alloc_continue api (alloc_get api w s)))"
      using continue_steps by (meson converse_rtranclp_into_rtranclp rtranclp_trans)
    then show ?thesis using Some ConfigEvent by (simp add: alloc_phases allocator_handle_requested)
  qed
qed

lemma desired_id: "desired v node i = Some d \<Longrightarrow> desired v node j = Some (d\<lparr>OverlayTunnelID := j\<rparr>)"
  by (auto simp: desired_def Let_def split: if_splits)

context vswitch_api
begin

lemma plane_do_inv:
  assumes "plane_inv view wf N (AllocIdle, s)" and "event_ok N (view s) e" and "finite N" and "card N \<le> 9900"
  shows "plane_inv view wf N (AllocIdle, plane_do v api e s)"
  using plane_steps_inv [OF plane_do_steps [of N view s e v api, OF assms(2)]] assms(1,3,4) by blast

lemma plane_run_inv:
  assumes "plane_inv view wf N (AllocIdle, s)" and "run_ok v api view N es s" and "finite N" and "card N \<le> 9900"
  shows "plane_inv view wf N (AllocIdle, fold (plane_do v api) es s)"
  using assms by (induction es arbitrary: s) (auto simp: plane_do_inv)

lemma plane_inv_card: "plane_inv view wf N (p, s) \<Longrightarrow> finite N \<Longrightarrow> card N \<le> 9900 \<Longrightarrow> card (dom (view s)) \<le> 9900"
  unfolding plane_inv_def using card_mono [of N "dom (view s)"] by auto

text \<open>A step of another node, or of the allocator, keeps the configuration of \<open>n\<close> the desired one.\<close>

lemma plane_do_keeps:
  assumes inv: "plane_inv view wf N (AllocIdle, s)" and ok: "event_ok N (view s) e" and N: "finite N" "card N \<le> 9900"
    and other: "\<not> touches n e" and w: "view s n = Some w" "desired v node (tunnelID w) = Some (Spec w)"
  shows "\<exists>w'. view (plane_do v api e s) n = Some w' \<and> desired v node (tunnelID w') = Some (Spec w') \<and>
    (tunnelID w \<noteq> 0 \<longrightarrow> tunnelID w' \<noteq> 0)"
proof -
  have wf: "wf s" using inv by (simp add: plane_inv_def)
  show ?thesis
  proof (cases e)
    case (NodeEvent items ev)
    obtain u s' where run: "run_state (vswitchcfg_handle v (cache_GetByKey items) api ev) s = (u, s')" by fastforce
    have "node_event_in N ev" "lagging items (view s)" using ok NodeEvent by auto
    from node_handler_writes [OF wf this run] obtain m where m: "node_write m (view s) (view s')" "m \<noteq> n"
      using other NodeEvent by auto
    then have "view s' n = view s n" unfolding node_write_def by auto
    then show ?thesis using NodeEvent run w by simp
  next
    case (ConfigEvent ev)
    obtain s' where run: "run_state (allocator_handle api ev) s = ((), s')"
      by (cases "run_state (allocator_handle api ev) s") auto
    have "event_named ev" using ok ConfigEvent by simp
    from handle_step(2) [OF wf this plane_inv_card [OF inv N] run]
    obtain w' where "view s' n = Some w'" "Spec w' = (Spec w)\<lparr>OverlayTunnelID := tunnelID w'\<rparr>"
      "tunnelID w' = tunnelID w \<or> tunnelID w = 0 \<and> valid_id (tunnelID w')"
      using id_stepE w(1) by metis
    then show ?thesis using ConfigEvent run desired_id [OF w(2)] by (auto dest: valid_id_nonzero)
  qed
qed

end

context reliable_vswitch_api
begin

lemma plane_run_assigns:
  assumes "plane_inv view wf N (AllocIdle, s)" and "run_ok v api view N es s" and N: "finite N" "card N \<le> 9900"
    and "\<forall>e\<in>set es. \<not> touches n e" and "view s n = Some w" and "desired v node (tunnelID w) = Some (Spec w)"
    and "tunnelID w \<noteq> 0 \<or> (\<exists>e\<in>set es. asks n e)"
  shows "\<exists>w'. view (fold (plane_do v api) es s) n = Some w' \<and> desired v node (tunnelID w') = Some (Spec w') \<and>
    tunnelID w' \<noteq> 0"
  using assms(1,2,5-)
proof (induction es arbitrary: s w)
  case Nil
  then show ?case by auto
next
  case (Cons e es)
  have ok: "event_ok N (view s) e" "run_ok v api view N es (plane_do v api e s)" using Cons.prems by auto
  obtain w1 where w1: "view (plane_do v api e s) n = Some w1" "desired v node (tunnelID w1) = Some (Spec w1)"
    "tunnelID w \<noteq> 0 \<longrightarrow> tunnelID w1 \<noteq> 0"
    using plane_do_keeps [OF Cons.prems(1) ok(1) N _ Cons.prems(4,5)] Cons.prems(3) by auto
  have "tunnelID w1 \<noteq> 0" if "asks n e"
  proof -
    from that obtain ev where e: "e = ConfigEvent ev" "requests_id n ev" by (cases e) auto
    then obtain x where "ev = AddEvent (VSwitchConfigObj x) \<or> (\<exists>old. ev = UpdateEvent old (VSwitchConfigObj x))"
      "vname x = n" "tunnelID x = 0" by (auto elim: requests_idE)
    from allocator_handle_allocates [OF _ Cons.prems(4) plane_inv_card [OF Cons.prems(1) N] this]
    show ?thesis using Cons.prems(1) e w1(1) by (auto simp: plane_inv_def)
  qed
  then have "tunnelID w1 \<noteq> 0 \<or> (\<exists>e\<in>set es. asks n e)" using Cons.prems(6) w1(3) by auto
  from Cons.IH [OF plane_do_inv [OF Cons.prems(1) ok(1) N] ok(2) _ w1(1,2) this] Cons.prems(3)
  show ?case by simp
qed

lemma node_event_desired:
  assumes "wf s" and "Name (NodeMeta node) \<noteq> []" and "items (Name (NodeMeta node)) = view s (Name (NodeMeta node))"
    and "desired v node i = Some d" and "ev = AddEvent (NodeObj node) \<or> ev = UpdateEvent old (NodeObj node)"
  shows "\<exists>w. view (plane_do v api (NodeEvent items ev) s) (Name (NodeMeta node)) = Some w \<and>
    desired v node (tunnelID w) = Some (Spec w)"
proof -
  let ?i = "stored_id (view s) (Name (NodeMeta node))"
  have d: "desired v node ?i = Some (d\<lparr>OverlayTunnelID := ?i\<rparr>)" by (rule desired_id [OF assms(4)])
  obtain w where "view (snd (run_state (reconcile v (cache_GetByKey items) api node) s)) =
      (view s)(Name (NodeMeta node) \<mapsto> w)" "Spec w = d\<lparr>OverlayTunnelID := ?i\<rparr>"
    using reconcile_converges [of s node items v, OF assms(1-3) d] by blast
  moreover from this have "tunnelID w = ?i" by simp
  ultimately show ?thesis using assms(5) d by (auto simp: vswitchcfg_OnAdd_def vswitchcfg_OnUpdate_def)
qed

lemma plane_run_converges:
  assumes "wf s" and "finite N" and "card N \<le> 9900" and "dom (view s) \<subseteq> N" and "unique_ids (view s)"
    and "evs = before @ NodeEvent items ev # after" and "run_ok v api view N evs s"
    and "ev = AddEvent (NodeObj node) \<or> ev = UpdateEvent old (NodeObj node)"
    and "items (Name (NodeMeta node)) = view (fold (plane_do v api) before s) (Name (NodeMeta node))"
    and "desired v node i = Some d"
    and "\<forall>e\<in>set after. \<not> touches (Name (NodeMeta node)) e" and "\<exists>e\<in>set after. asks (Name (NodeMeta node)) e"
  shows "\<exists>w. view (fold (plane_do v api) evs s) (Name (NodeMeta node)) = Some w \<and>
    desired v node (tunnelID w) = Some (Spec w) \<and> tunnelID w \<noteq> 0 \<and> unique_ids (view (fold (plane_do v api) evs s))"
proof -
  let ?s1 = "fold (plane_do v api) before s"
  let ?s2 = "plane_do v api (NodeEvent items ev) ?s1"
  have ok: "run_ok v api view N before s" "event_ok N (view ?s1) (NodeEvent items ev)" "run_ok v api view N after ?s2"
    using assms(6,7) by (auto simp: run_ok_append)
  have "plane_inv view wf N (AllocIdle, s)" using assms(1,4,5) by (simp add: plane_inv_def)
  note i1 = plane_run_inv [OF this ok(1) assms(2,3)]
  note i2 = plane_do_inv [OF i1 ok(2) assms(2,3)]
  have nm: "Name (NodeMeta node) \<noteq> []" using ok(2) assms(8) by (auto simp: node_event_in_def)
  have "wf ?s1" using i1 by (simp add: plane_inv_def)
  from node_event_desired [of ?s1 node items v i d ev old, OF this nm assms(9,10,8)] obtain w where
    "view ?s2 (Name (NodeMeta node)) = Some w" "desired v node (tunnelID w) = Some (Spec w)" by blast
  from plane_run_assigns [OF i2 ok(3) assms(2,3,11) this] assms(12) obtain w' where
    "view (fold (plane_do v api) after ?s2) (Name (NodeMeta node)) = Some w'"
    "desired v node (tunnelID w') = Some (Spec w')" "tunnelID w' \<noteq> 0" by blast
  then show ?thesis
    using plane_run_inv [OF i2 ok(3) assms(2,3)] assms(6) by (auto simp: plane_inv_def)
qed

end

subsection \<open>Properties\<close>

text \<open>
  C9: unique identifiers under interleaving. Node handlers and allocations run concurrently,
  an allocation interrupted between any two of its calls, calls fail, caches lag behind; as
  long as at most 9900 names are in play, no two stored configurations ever have the
  same non-zero identifier, and every configuration belongs to one of these names.
\<close>

theorem interleaved_unique_ids:
  assumes "vswitch_api api view ok" and "ok s" and "(plane_step v api view N)\<^sup>*\<^sup>* (AllocIdle, s) (phase, s')"
    and "finite N" and "card N \<le> 9900" and "dom (view s) \<subseteq> N" and "unique_ids (view s)"
  shows "unique_ids (view s') \<and> dom (view s') \<subseteq> N"
proof -
  have "plane_inv view ok N (AllocIdle, s)" using assms(2,6,7) by (simp add: plane_inv_def)
  from vswitch_api.plane_steps_inv [OF assms(1,3-5) this] show ?thesis by (simp add: plane_inv_def)
qed

lemma two_configs_names:
  "dom (tracker_view two_configs) \<subseteq> {''node-a'', ''node-b''}" "lagging (tracker_view two_configs) (tracker_view two_configs)"
  by (auto simp: demo_view lagging_def cache_keyed_def split: if_splits)

theorem interleaved_unique_ids_witness:
  "\<exists>s'. (plane_step demo_controller FakeVSwitchConfigs tracker_view {''node-a'', ''node-b''})\<^sup>*\<^sup>*
       (AllocIdle, two_configs) (AllocGot (demo_config ''node-a'' 0), s') \<and> unique_ids (tracker_view s')"
proof -
  let ?w = "demo_config ''node-a'' 0" and ?N = "{''node-a'', ''node-b''} :: string set"
  let ?step = "plane_step demo_controller FakeVSwitchConfigs tracker_view ?N"
  obtain s1 where get: "run_state (Get FakeVSwitchConfigs ''node-a'') two_configs = (Inr ?w, s1)"
    using tracker_reliable.get_total [OF two_configs_facts(1,5)] by (metis prod.collapse)
  have s1: "tracker_view s1 = tracker_view two_configs" using tracker_api.get_frame [OF two_configs_facts(1) get] by simp
  have "?step (AllocIdle, two_configs) (AllocGot ?w, s1)"
    using plane_step.allocate [of "AddEvent (VSwitchConfigObj ?w)" ?w demo_controller FakeVSwitchConfigs tracker_view ?N two_configs] get
    by (simp add: alloc_get_def)
  moreover have "node_event_in ?N (AddEvent (NodeObj demo_node))" by (simp add: node_event_in_def)
  then have "?step (AllocGot ?w, s1) (AllocGot ?w, snd (run_state (vswitchcfg_handle demo_controller
      (cache_GetByKey (tracker_view two_configs)) FakeVSwitchConfigs (AddEvent (NodeObj demo_node))) s1))" (is "_ (AllocGot ?w, ?s2)")
    using plane_step.node [OF _ _ prod.collapse [symmetric]] two_configs_names(2) s1 by metis
  ultimately have path: "?step\<^sup>*\<^sup>* (AllocIdle, two_configs) (AllocGot ?w, ?s2)" by (meson converse_rtranclp_into_rtranclp r_into_rtranclp)
  show ?thesis
    using interleaved_unique_ids [OF tracker_api.vswitch_api_axioms, OF two_configs_facts(1) path _ _ two_configs_names(1)
      two_configs_facts(3)] path by auto
qed

text \<open>
  C8: the controllers together give every node its configuration. With a server whose calls
  succeed, take any sequence of node and configuration events in which an event of
  the node \<open>node\<close> finds a current cache, no later event concerns this node, and a later
  configuration event asks for its identifier. At the end the node's configuration is the one
  desired for it and has an identifier, which no other configuration has.
\<close>

theorem control_plane_converges:
  assumes "reliable_vswitch_api api view ok" and "ok s" and "finite N" and "card N \<le> 9900"
    and "dom (view s) \<subseteq> N" and "unique_ids (view s)"
    and "evs = before @ NodeEvent items ev # after" and "run_ok v api view N evs s"
    and "ev = AddEvent (NodeObj node) \<or> ev = UpdateEvent old (NodeObj node)"
    and "items (Name (NodeMeta node)) = view (fold (plane_do v api) before s) (Name (NodeMeta node))"
    and "desired v node i = Some d"
    and "\<forall>e\<in>set after. \<not> touches (Name (NodeMeta node)) e" and "\<exists>e\<in>set after. asks (Name (NodeMeta node)) e"
  shows "\<exists>w. view (fold (plane_do v api) evs s) (Name (NodeMeta node)) = Some w \<and>
    desired v node (tunnelID w) = Some (Spec w) \<and> tunnelID w \<noteq> 0 \<and> unique_ids (view (fold (plane_do v api) evs s))"
  by (rule reliable_vswitch_api.plane_run_converges [OF assms])

theorem control_plane_converges_witness:
  "\<exists>w. tracker_view (fold (plane_do demo_controller FakeVSwitchConfigs)
       [NodeEvent (tracker_view two_configs) (AddEvent (NodeObj demo_node)),
        ConfigEvent (AddEvent (VSwitchConfigObj (demo_config ''node-a'' 0)))] two_configs) ''node-a'' = Some w \<and>
     PodCIDR (Spec w) = ''100.96.1.0/24'' \<and> tunnelID w \<noteq> 0"
proof -
  let ?n = "NodeEvent (tracker_view two_configs) (AddEvent (NodeObj demo_node))"
  let ?c = "ConfigEvent (AddEvent (VSwitchConfigObj (demo_config ''node-a'' 0)))"
  have ok: "run_ok demo_controller FakeVSwitchConfigs tracker_view {''node-a'', ''node-b''} [?n, ?c] two_configs"
    using two_configs_names(2) by (simp add: node_event_in_def)
  have cidr: "desired demo_controller demo_node i = Some sp \<Longrightarrow> PodCIDR sp = ''100.96.1.0/24''" for i sp
    using desired_id [OF one_config_facts(4), of i] by auto
  show ?thesis
    using control_plane_converges [OF tracker_reliable.reliable_vswitch_api_axioms, OF two_configs_facts(1) _ _
        two_configs_names(1) two_configs_facts(3) _ ok, of "[]" "tracker_view two_configs" "AddEvent (NodeObj demo_node)"
        "[?c]" demo_node "OtherObj []" 100 demo_spec] one_config_facts(4)
    by (auto dest: cidr)
qed

end
