(* ===== verification/Go_Bytes.thy ===== *)
theory Go_Bytes
  imports Kube_Prelude
begin

text \<open>
  Byte slices: the indexed reads and writes, \<open>copy\<close>, and the big-endian operations of
  Go's \<open>encoding/binary\<close>. An access outside a slice panics.

  A serialiser of the program allocates a zeroed packet and fills it from the left; the
  lemmas named \<open>_pad\<close> follow it with the packet in the form \<open>d @ replicate k 0\<close>, where
  \<open>d\<close> is what was written so far.
\<close>

unbundle bit_operations_syntax

subsection \<open>Operations\<close>

definition make_bytes :: "nat \<Rightarrow> bytes" where
  "make_bytes n = replicate n 0"

definition get_at :: "bytes \<Rightarrow> nat \<Rightarrow> uint8 outcome" where
  "get_at packet i = (if i < length packet then Returns (packet ! i) else Panics IndexOutOfRange)"

definition set_at :: "bytes \<Rightarrow> nat \<Rightarrow> uint8 \<Rightarrow> bytes outcome" where
  "set_at packet i b =
     (if i < length packet then Returns (packet[i := b]) else Panics IndexOutOfRange)"

text \<open>\<open>packet[i:]\<close>\<close>

definition slice_from :: "bytes \<Rightarrow> nat \<Rightarrow> bytes outcome" where
  "slice_from packet i = (if i \<le> length packet then Returns (drop i packet) else Panics SliceOutOfRange)"

text \<open>\<open>copy(packet[i:], src)\<close> writes as much of \<open>src\<close> as fits.\<close>

definition copy_at :: "bytes \<Rightarrow> nat \<Rightarrow> bytes \<Rightarrow> bytes outcome" where
  "copy_at packet i src =
     (if i \<le> length packet
      then Returns (take i packet @ take (length packet - i) src @ drop (i + length src) packet)
      else Panics SliceOutOfRange)"

definition be16 :: "uint16 \<Rightarrow> bytes" where
  "be16 v = [ucast (drop_bit 8 v), ucast v]"

definition be32 :: "uint32 \<Rightarrow> bytes" where
  "be32 v = [ucast (drop_bit 24 v), ucast (drop_bit 16 v), ucast (drop_bit 8 v), ucast v]"

definition be64 :: "uint64 \<Rightarrow> bytes" where
  "be64 v = be32 (ucast (drop_bit 32 v)) @ be32 (ucast v)"

text \<open>\<open>binary.BigEndian.PutUintN(packet[i:], v)\<close>, with the bytes of \<open>v\<close>.\<close>

definition put_at :: "bytes \<Rightarrow> nat \<Rightarrow> bytes \<Rightarrow> bytes outcome" where
  "put_at packet i bs =
     (if length packet < i then Panics SliceOutOfRange
      else if length packet < i + length bs then Panics IndexOutOfRange
      else Returns (take i packet @ bs @ drop (i + length bs) packet))"

abbreviation PutUint16 :: "bytes \<Rightarrow> nat \<Rightarrow> uint16 \<Rightarrow> bytes outcome" where
  "PutUint16 packet i v \<equiv> put_at packet i (be16 v)"

abbreviation PutUint32 :: "bytes \<Rightarrow> nat \<Rightarrow> uint32 \<Rightarrow> bytes outcome" where
  "PutUint32 packet i v \<equiv> put_at packet i (be32 v)"

abbreviation PutUint64 :: "bytes \<Rightarrow> nat \<Rightarrow> uint64 \<Rightarrow> bytes outcome" where
  "PutUint64 packet i v \<equiv> put_at packet i (be64 v)"

fun of_be16 :: "bytes \<Rightarrow> uint16" where
  "of_be16 (a # b # _) = ucast b OR push_bit 8 (ucast a)"
| "of_be16 _ = 0"

fun of_be32 :: "bytes \<Rightarrow> uint32" where
  "of_be32 (a # b # c # d # _) =
     ucast d OR push_bit 8 (ucast c) OR push_bit 16 (ucast b) OR push_bit 24 (ucast a)"
| "of_be32 _ = 0"

definition of_be64 :: "bytes \<Rightarrow> uint64" where
  "of_be64 bs = ucast (of_be32 (drop 4 bs)) OR push_bit 32 (ucast (of_be32 bs))"

text \<open>\<open>binary.BigEndian.UintN(packet[i:])\<close>.\<close>

definition get_be :: "nat \<Rightarrow> (bytes \<Rightarrow> 'a) \<Rightarrow> bytes \<Rightarrow> nat \<Rightarrow> 'a outcome" where
  "get_be n dec packet i =
     (if length packet < i then Panics SliceOutOfRange
      else if length packet < i + n then Panics IndexOutOfRange
      else Returns (dec (drop i packet)))"

abbreviation Uint16 :: "bytes \<Rightarrow> nat \<Rightarrow> uint16 outcome" where
  "Uint16 \<equiv> get_be 2 of_be16"

abbreviation Uint32 :: "bytes \<Rightarrow> nat \<Rightarrow> uint32 outcome" where
  "Uint32 \<equiv> get_be 4 of_be32"

abbreviation Uint64 :: "bytes \<Rightarrow> nat \<Rightarrow> uint64 outcome" where
  "Uint64 \<equiv> get_be 8 of_be64"

text \<open>
  \<open>for i := 0; i < n; i++ { packet[index] = src[off+i]; index++ }\<close>
\<close>

fun store_loop :: "bytes \<Rightarrow> nat \<Rightarrow> bytes \<Rightarrow> nat \<Rightarrow> nat \<Rightarrow> bytes outcome" where
  "store_loop packet index src off 0 = Returns packet"
| "store_loop packet index src off (Suc n) =
     bind_outcome (get_at src off) (\<lambda>b.
     bind_outcome (set_at packet index b) (\<lambda>packet.
     store_loop packet (index + 1) src (off + 1) n))"

text \<open>
  \<open>for _, e := range xs { copy(packet[index:], e.Serialize()); index += e.Size() }\<close>
\<close>

fun copy_loop :: "('a \<Rightarrow> bytes outcome) \<Rightarrow> ('a \<Rightarrow> nat) \<Rightarrow> bytes \<Rightarrow> nat \<Rightarrow> 'a list \<Rightarrow> bytes outcome" where
  "copy_loop ser sz packet index [] = Returns packet"
| "copy_loop ser sz packet index (x # xs) =
     bind_outcome (ser x) (\<lambda>p.
     bind_outcome (copy_at packet index p) (\<lambda>packet.
     copy_loop ser sz packet (index + sz x) xs))"

subsection \<open>Lengths and round trips\<close>

lemma be_length [simp]: "length (be16 v) = 2" "length (be32 w) = 4" "length (be64 x) = 8"
  by (simp_all add: be16_def be32_def be64_def)

lemma of_be16_be16 [simp]: "of_be16 (be16 v @ r) = v"
  by (auto simp: be16_def bit_eq_iff bit_simps)

lemma of_be32_be32 [simp]: "of_be32 (be32 v @ r) = v"
proof -
  have "n - 16 < 8" if "bit v n" and "\<not> bit v (24 + (n - 24))" for n
    using that by (cases "24 \<le> n") auto
  then show ?thesis by (auto simp: be32_def bit_eq_iff bit_simps)
qed

lemma of_be64_be64 [simp]: "of_be64 (be64 v @ r) = v"
proof -
  have "drop 4 (be64 v @ r) = be32 (ucast v) @ r" by (simp add: be64_def)
  moreover have "of_be32 (be64 v @ r) = ucast (drop_bit 32 v)" by (simp add: be64_def)
  ultimately have "of_be64 (be64 v @ r) = ucast (ucast v :: uint32) OR push_bit 32 (ucast (ucast (drop_bit 32 v) :: uint32))"
    by (simp only: of_be64_def of_be32_be32)
  also have "\<dots> = v" by (auto simp: bit_eq_iff bit_simps)
  finally show ?thesis .
qed

lemmas of_be_exact [simp] = of_be16_be16 [of _ "[]", simplified] of_be32_be32 [of _ "[]", simplified]
  of_be64_be64 [of _ "[]", simplified]

subsection \<open>Filling a packet from the left\<close>

named_theorems pad_simps \<open>writes at the end of the written part of a packet\<close>

lemma put_at_pad [pad_simps]:
  assumes "length d = i" and "length bs \<le> k"
  shows "put_at (d @ replicate k 0) i bs = Returns ((d @ bs) @ replicate (k - length bs) 0)"
  using assms by (simp add: put_at_def)

lemma set_at_pad [pad_simps]:
  assumes "length d = i" and "0 < k"
  shows "set_at (d @ replicate k 0) i b = Returns ((d @ [b]) @ replicate (k - 1) 0)"
  using assms by (cases k) (simp_all add: set_at_def list_update_append)

lemma copy_at_pad [pad_simps]:
  assumes "length d = i" and "length bs \<le> k"
  shows "copy_at (d @ replicate k 0) i bs = Returns ((d @ bs) @ replicate (k - length bs) 0)"
  using assms by (simp add: copy_at_def)

text \<open>The first write, and the start of a packet.\<close>

lemma put_at_zeros [pad_simps]:
  "length bs \<le> k \<Longrightarrow> put_at (replicate k 0) 0 bs = Returns (bs @ replicate (k - length bs) 0)"
  using put_at_pad [of "[]" 0 bs k] by simp

lemma copy_at_zeros [pad_simps]:
  "length bs \<le> k \<Longrightarrow> copy_at (replicate k 0) 0 bs = Returns (bs @ replicate (k - length bs) 0)"
  using copy_at_pad [of "[]" 0 bs k] by simp

lemma set_at_zeros [pad_simps]:
  "0 < k \<Longrightarrow> set_at (replicate k 0) 0 b = Returns ([b] @ replicate (k - 1) 0)"
  using set_at_pad [of "[]" 0 k b] by simp

lemma skip_pad:
  assumes "j \<le> k"
  shows "d @ replicate k 0 = (d @ replicate j 0) @ replicate (k - j) 0"
  using assms by (simp add: replicate_add [symmetric])

lemma get_at_ok [simp]: "i < length p \<Longrightarrow> get_at p i = Returns (p ! i)"
  by (simp add: get_at_def)

lemma store_loop_pad [pad_simps]:
  assumes "length d = index" and "n \<le> k" and "off + n \<le> length src"
  shows "store_loop (d @ replicate k 0) index src off n =
    Returns ((d @ take n (drop off src)) @ replicate (k - n) 0)"
  using assms
proof (induction n arbitrary: d k index off)
  case (Suc n)
  then have "drop off src = src ! off # drop (off + 1) src" by (simp add: Cons_nth_drop_Suc)
  then show ?case
    using Suc.prems Suc.IH [of "d @ [src ! off]" "index + 1" "k - 1" "off + 1"]
    by (simp add: set_at_pad)
qed simp

lemma store_loop_panics:
  assumes "length src < off + n" and "off \<le> length src" and "index + n \<le> length packet"
  shows "store_loop packet index src off n = Panics IndexOutOfRange"
  using assms
proof (induction n arbitrary: packet index off)
  case (Suc n)
  show ?case
  proof (cases "off < length src")
    case True
    then show ?thesis using Suc by (simp add: set_at_def)
  next
    case False
    then show ?thesis by (simp add: get_at_def)
  qed
qed simp

lemma copy_loop_pad:
  assumes "length d = index" and "\<forall>x\<in>set xs. ser x = Returns (enc x) \<and> length (enc x) = sz x"
    and "sum_list (map sz xs) \<le> k"
  shows "copy_loop ser sz (d @ replicate k 0) index xs =
    Returns ((d @ concat (map enc xs)) @ replicate (k - sum_list (map sz xs)) 0)"
  using assms
proof (induction xs arbitrary: d k index)
  case (Cons x xs)
  have "copy_loop ser sz (d @ replicate k 0) index (x # xs) =
      copy_loop ser sz ((d @ enc x) @ replicate (k - sz x) 0) (index + sz x) xs"
    using Cons.prems by (simp add: copy_at_pad)
  also have "\<dots> = Returns (((d @ enc x) @ concat (map enc xs)) @ replicate (k - sz x - sum_list (map sz xs)) 0)"
    using Cons.prems by (intro Cons.IH) auto
  finally show ?case by simp
qed simp

end
