(* ===== verification/Go_Strings.thy ===== *)
theory Go_Strings
  imports Kube_Prelude
begin

text \<open>
  The parts of Go's \<open>strings\<close> and \<open>strconv\<close> packages that kube-ovs uses. A Go string is
  a sequence of bytes, as HOL's \<open>string\<close> is; \<open>TrimSpace\<close> treats the ASCII space
  characters (the multi-byte Unicode ones do not occur in the outputs it is applied to).
  \<open>Atoi\<close> is that of a 64-bit platform.
\<close>

subsection \<open>Splitting and trimming\<close>

fun strings_Split :: "string \<Rightarrow> char \<Rightarrow> string list" where
  "strings_Split [] sep = [[]]"
| "strings_Split (c # cs) sep =
     (if c = sep then [] # strings_Split cs sep
      else (case strings_Split cs sep of [] \<Rightarrow> [[c]] | w # ws \<Rightarrow> (c # w) # ws))"

definition is_space :: "char \<Rightarrow> bool" where
  "is_space c \<longleftrightarrow> c \<in> {CHR '' '', CHR 0x09, CHR 0x0A, CHR 0x0B, CHR 0x0C, CHR 0x0D}"

definition strings_TrimSpace :: "string \<Rightarrow> string" where
  "strings_TrimSpace s = rev (dropWhile is_space (rev (dropWhile is_space s)))"

fun has_prefix :: "string \<Rightarrow> string \<Rightarrow> bool" where
  "has_prefix s [] = True"
| "has_prefix [] (p # ps) = False"
| "has_prefix (c # cs) (p # ps) = (c = p \<and> has_prefix cs ps)"

definition strings_TrimPrefix :: "string \<Rightarrow> string \<Rightarrow> string" where
  "strings_TrimPrefix s p = (if has_prefix s p then drop (length p) s else s)"

fun strings_Contains :: "string \<Rightarrow> string \<Rightarrow> bool" where
  "strings_Contains [] sub = (sub = [])"
| "strings_Contains (c # cs) sub = (has_prefix (c # cs) sub \<or> strings_Contains cs sub)"

text \<open>\<open>strings.Replace(s, c, "", -1)\<close> for a one-byte \<open>c\<close>.\<close>

definition strings_Remove :: "string \<Rightarrow> char \<Rightarrow> string" where
  "strings_Remove s c = filter (\<lambda>x. x \<noteq> c) s"

lemma strings_Split_nonempty [simp]: "strings_Split s sep \<noteq> []"
  by (cases s) (auto split: list.split)

lemma strings_Split_nosep: "sep \<notin> set s \<Longrightarrow> strings_Split s sep = [s]"
  by (induction s) auto

lemma strings_Split_sep:
  "sep \<notin> set a \<Longrightarrow> strings_Split (a @ sep # b) sep = a # strings_Split b sep"
  by (induction a) auto

lemma strings_Split_two:
  "sep \<notin> set a \<Longrightarrow> sep \<notin> set b \<Longrightarrow> strings_Split (a @ sep # b) sep = [a, b]"
  by (simp add: strings_Split_sep strings_Split_nosep)

lemma strings_Split_words_nosep: "w \<in> set (strings_Split s sep) \<Longrightarrow> sep \<notin> set w"
  by (induction s arbitrary: w) (auto split: list.splits if_splits)

text \<open>Splitting loses nothing: joining the words with the separator gives the string back.\<close>

fun join :: "char \<Rightarrow> string list \<Rightarrow> string" where
  "join sep [] = []"
| "join sep [w] = w"
| "join sep (w # ws) = w @ sep # join sep ws"

lemma join_Cons: "ws \<noteq> [] \<Longrightarrow> join sep (w # ws) = w @ sep # join sep ws"
  by (cases ws) auto

lemma join_strings_Split: "join sep (strings_Split s sep) = s"
proof (induction s)
  case (Cons c cs)
  obtain w ws where split: "strings_Split cs sep = w # ws"
    using strings_Split_nonempty by (metis neq_Nil_conv)
  have "join sep ((c # w) # ws) = c # join sep (w # ws)" by (cases ws) auto
  with split Cons show ?case by (auto simp: join_Cons)
qed simp

lemma has_prefix_append [simp]: "has_prefix (p @ s) p"
  by (induction p) auto

lemma has_prefix_iff: "has_prefix s p \<longleftrightarrow> (\<exists>t. s = p @ t)"
  by (induction s p rule: has_prefix.induct) auto

lemma strings_TrimPrefix_append [simp]: "strings_TrimPrefix (p @ s) p = s"
  by (simp add: strings_TrimPrefix_def)

lemma strings_Contains_iff: "strings_Contains s sub \<longleftrightarrow> (\<exists>a b. s = a @ sub @ b)"
proof (induction s)
  case (Cons c cs)
  show ?case
  proof
    assume "strings_Contains (c # cs) sub"
    then consider "has_prefix (c # cs) sub" | "strings_Contains cs sub" by auto
    then show "\<exists>a b. c # cs = a @ sub @ b"
    proof cases
      case 1
      then show ?thesis unfolding has_prefix_iff by (metis append_Nil)
    next
      case 2
      then show ?thesis using Cons by (metis append_Cons)
    qed
  next
    assume "\<exists>a b. c # cs = a @ sub @ b"
    then obtain a b where eq: "c # cs = a @ sub @ b" by blast
    show "strings_Contains (c # cs) sub"
    proof (cases a)
      case Nil
      with eq have "has_prefix (c # cs) sub" by (simp add: has_prefix_iff)
      then show ?thesis by simp
    next
      case (Cons a' as)
      with eq have "cs = as @ sub @ b" by simp
      then have "strings_Contains cs sub" using \<open>strings_Contains cs sub = (\<exists>a b. cs = a @ sub @ b)\<close> by blast
      then show ?thesis by simp
    qed
  qed
qed auto

lemma strings_TrimSpace_padded:
  assumes "s \<noteq> []" and "\<not> is_space (hd s)" and "\<not> is_space (last s)"
    and "\<forall>c\<in>set l. is_space c" and "\<forall>c\<in>set r. is_space c"
  shows "strings_TrimSpace (l @ s @ r) = s"
proof -
  obtain x xs where s: "s = x # xs" using assms(1) by (cases s) auto
  have "dropWhile is_space (l @ s @ r) = s @ r"
    using assms(2,4) unfolding s by (simp add: dropWhile_append_sep)
  moreover obtain y ys where rs: "rev s = y # ys" using assms(1) by (cases "rev s") auto
  have "y = last s" using rs assms(1) by (metis hd_rev list.sel(1))
  then have "dropWhile is_space (rev r @ rev s) = rev s"
    using assms(3,5) unfolding rs by (simp add: dropWhile_append_sep)
  ultimately show ?thesis by (simp add: strings_TrimSpace_def)
qed

subsection \<open>Decimal numbers\<close>

definition is_digit :: "char \<Rightarrow> bool" where
  "is_digit c \<longleftrightarrow> 48 \<le> (of_char c :: nat) \<and> (of_char c :: nat) \<le> 57"

definition digit_val :: "char \<Rightarrow> nat" where
  "digit_val c = of_char c - 48"

definition digit_char :: "nat \<Rightarrow> char" where
  "digit_char d = char_of (48 + d)"

fun nat_string :: "nat \<Rightarrow> string" where
  "nat_string n = (if n < 10 then [digit_char n] else nat_string (n div 10) @ [digit_char (n mod 10)])"

declare nat_string.simps [simp del]

definition dec_val :: "string \<Rightarrow> nat" where
  "dec_val s = foldl (\<lambda>n c. n * 10 + digit_val c) 0 s"

definition strconv_Itoa :: "int \<Rightarrow> string" where
  "strconv_Itoa i = (if i < 0 then CHR ''-'' # nat_string (nat (- i)) else nat_string (nat i))"

definition strconv_Atoi :: "string \<Rightarrow> int result" where
  "strconv_Atoi s =
     (let (neg, ds) = (case s of
            [] \<Rightarrow> (False, [])
          | c # cs \<Rightarrow> if c = CHR ''-'' then (True, cs) else if c = CHR ''+'' then (False, cs) else (False, s));
          n = (if neg then - int (dec_val ds) else int (dec_val ds))
      in if ds = [] \<or> \<not> list_all is_digit ds then Inl (Errorf ''strconv.Atoi: invalid syntax'' [s])
         else if n < - (2 ^ 63) \<or> 2 ^ 63 \<le> n then Inl (Errorf ''strconv.Atoi: value out of range'' [s])
         else Inr n)"

lemma digit_char_props [simp]:
  assumes "d < 10"
  shows "is_digit (digit_char d)" and "digit_val (digit_char d) = d"
  using assms by (auto simp: is_digit_def digit_val_def digit_char_def)

lemma dec_val_snoc: "dec_val (s @ [c]) = dec_val s * 10 + digit_val c"
  by (simp add: dec_val_def)

lemma nat_string_digits: "nat_string n \<noteq> [] \<and> list_all is_digit (nat_string n) \<and> dec_val (nat_string n) = n"
proof (induction n rule: nat_string.induct)
  case (1 n)
  show ?case
  proof (cases "n < 10")
    case True
    then show ?thesis by (simp add: nat_string.simps [of n] dec_val_def)
  next
    case False
    with 1 show ?thesis by (simp add: nat_string.simps [of n] dec_val_snoc)
  qed
qed

lemma is_digit_not_sign: "is_digit c \<Longrightarrow> c \<noteq> CHR ''-'' \<and> c \<noteq> CHR ''+''"
  by (auto simp: is_digit_def)

text \<open>Printing and reading back a 64-bit integer.\<close>

lemma Atoi_Itoa:
  assumes "- (2 ^ 63) \<le> i" and "i < 2 ^ 63"
  shows "strconv_Atoi (strconv_Itoa i) = Inr i"
proof (cases "i < 0")
  case True
  then show ?thesis using assms nat_string_digits [of "nat (- i)"]
    by (simp add: strconv_Itoa_def strconv_Atoi_def)
next
  case False
  obtain c cs where s: "nat_string (nat i) = c # cs"
    using nat_string_digits [of "nat i"] by (cases "nat_string (nat i)") auto
  then have "is_digit c" using nat_string_digits [of "nat i"] by simp
  with s show ?thesis using False assms nat_string_digits [of "nat i"] is_digit_not_sign [of c]
    by (simp add: strconv_Itoa_def strconv_Atoi_def)
qed

lemma nat_string_nospace: "c \<in> set (nat_string n) \<Longrightarrow> \<not> is_space c \<and> c \<noteq> CHR ''/'' \<and> c \<noteq> CHR ''.'' "
  using nat_string_digits [of n] by (auto simp: list_all_iff is_digit_def is_space_def)

end
