(* ===== verification/Go_Net.thy ===== *)
theory Go_Net
  imports Go_Strings
begin

text \<open>
  The parts of Go's \<open>net\<close> package that kube-ovs uses (parsing, printing and masking of
  addresses), and the address arithmetic of \<open>containernetworking/plugins/pkg/ip/cidr.go\<close>.

  An \<open>IP\<close>, an \<open>IPMask\<close> and a \<open>HardwareAddr\<close> are byte slices. A function whose caller
  tests the result for nil returns an option; a nil that is used as an address afterwards
  is the empty list.
\<close>

unbundle bit_operations_syntax

type_synonym IP = bytes
type_synonym IPMask = bytes
type_synonym HardwareAddr = bytes

record IPNet =
  NetIP :: IP
  NetMask :: IPMask

definition nil_or :: "bytes option \<Rightarrow> bytes" where
  "nil_or x = (case x of None \<Rightarrow> [] | Some b \<Rightarrow> b)"

subsection \<open>Addresses and masks\<close>

definition v4InV6Prefix :: bytes where
  "v4InV6Prefix = replicate 10 0 @ [0xff, 0xff]"

definition To4 :: "IP \<Rightarrow> IP option" where
  "To4 ip =
     (if length ip = 4 then Some ip
      else if length ip = 16 \<and> take 12 ip = v4InV6Prefix then Some (drop 12 ip)
      else None)"

definition To16 :: "IP \<Rightarrow> IP option" where
  "To16 ip =
     (if length ip = 4 then Some (v4InV6Prefix @ ip)
      else if length ip = 16 then Some ip else None)"

text \<open>One byte of a mask with \<open>n\<close> leading ones, \<open>^byte(0xff >> n)\<close> for \<open>n < 8\<close>.\<close>

definition mask_byte :: "nat \<Rightarrow> uint8" where
  "mask_byte n = (if 8 \<le> n then 0xff else NOT (drop_bit n 0xff))"

fun CIDRMask_loop :: "nat \<Rightarrow> nat \<Rightarrow> IPMask" where
  "CIDRMask_loop 0 n = []"
| "CIDRMask_loop (Suc l) n = mask_byte n # CIDRMask_loop l (n - 8)"

definition CIDRMask :: "int \<Rightarrow> nat \<Rightarrow> IPMask option" where
  "CIDRMask ones bits =
     (if bits \<noteq> 32 \<and> bits \<noteq> 128 then None
      else if ones < 0 \<or> int bits < ones then None
      else Some (CIDRMask_loop (bits div 8) (nat ones)))"

definition IP_Mask :: "IP \<Rightarrow> IPMask \<Rightarrow> IP" where
  "IP_Mask ip msk =
     (let msk = (if length msk = 16 \<and> length ip = 4 \<and> list_all (\<lambda>b. b = 0xff) (take 12 msk)
                  then drop 12 msk else msk);
          ip = (if length msk = 4 \<and> length ip = 16 \<and> take 12 ip = v4InV6Prefix
                then drop 12 ip else ip)
      in if length ip \<noteq> length msk then [] else map2 (\<lambda>a b. a AND b) ip msk)"

definition networkNumberAndMask :: "IPNet \<Rightarrow> (IP \<times> IPMask) option" where
  "networkNumberAndMask n =
     (let ip = (case To4 (NetIP n) of Some x \<Rightarrow> x | None \<Rightarrow> NetIP n);
          m = NetMask n
      in if To4 (NetIP n) = None \<and> length (NetIP n) \<noteq> 16 then None
         else if length m = 4 then (if length ip \<noteq> 4 then None else Some (ip, m))
         else if length m = 16 then Some (ip, if length ip = 4 then drop 12 m else m)
         else None)"

definition IPNet_Contains :: "IPNet \<Rightarrow> IP \<Rightarrow> bool" where
  "IPNet_Contains n ip =
     (let (nn, m) = (case networkNumberAndMask n of None \<Rightarrow> ([], []) | Some p \<Rightarrow> p);
          ip = (case To4 ip of Some x \<Rightarrow> x | None \<Rightarrow> ip)
      in length ip = length nn \<and>
         list_all (\<lambda>i. nn ! i AND m ! i = ip ! i AND m ! i) [0..<length ip])"

subsection \<open>Parsing numbers\<close>

text \<open>
  \<open>dtoi\<close> and \<open>xtoi\<close> read a decimal or hexadecimal number at the head of a string and give
  the value, the number of bytes consumed and whether it is valid; both give up at
  \<open>big = 0xFFFFFF\<close>.
\<close>

definition big :: nat where
  "big = 0xFFFFFF"

fun dtoi_loop :: "string \<Rightarrow> nat \<Rightarrow> nat \<Rightarrow> nat \<times> nat \<times> bool" where
  "dtoi_loop [] n i = (if i = 0 then (0, 0, False) else (n, i, True))"
| "dtoi_loop (c # cs) n i =
     (if is_digit c then
        (let n = n * 10 + digit_val c
         in if big \<le> n then (big, i, False) else dtoi_loop cs n (i + 1))
      else if i = 0 then (0, 0, False) else (n, i, True))"

definition dtoi :: "string \<Rightarrow> nat \<times> nat \<times> bool" where
  "dtoi s = dtoi_loop s 0 0"

definition hex_val :: "char \<Rightarrow> nat option" where
  "hex_val c =
     (let v = (of_char c :: nat) in
      if 48 \<le> v \<and> v \<le> 57 then Some (v - 48)
      else if 97 \<le> v \<and> v \<le> 102 then Some (v - 97 + 10)
      else if 65 \<le> v \<and> v \<le> 70 then Some (v - 65 + 10)
      else None)"

fun xtoi_loop :: "string \<Rightarrow> nat \<Rightarrow> nat \<Rightarrow> nat \<times> nat \<times> bool" where
  "xtoi_loop [] n i = (if i = 0 then (0, i, False) else (n, i, True))"
| "xtoi_loop (c # cs) n i =
     (case hex_val c of
        Some d \<Rightarrow>
          (let n = n * 16 + d
           in if big \<le> n then (0, i, False) else xtoi_loop cs n (i + 1))
      | None \<Rightarrow> if i = 0 then (0, i, False) else (n, i, True))"

definition xtoi :: "string \<Rightarrow> nat \<times> nat \<times> bool" where
  "xtoi s = xtoi_loop s 0 0"

text \<open>\<open>xtoi2 s e\<close>: the byte written in the first two characters, which \<open>e\<close> must follow.\<close>

definition xtoi2 :: "string \<Rightarrow> char \<Rightarrow> uint8 option" where
  "xtoi2 s e =
     (if 2 < length s \<and> s ! 2 \<noteq> e then None
      else (let (n, ei, ok) = xtoi (take 2 s)
            in if ok \<and> ei = 2 then Some (of_nat n) else None))"

subsection \<open>Parsing addresses\<close>

text \<open>
  \<open>parseIPv4_loop s i p\<close> is the loop of \<open>parseIPv4\<close> with \<open>i\<close> numbers left to read; the
  first one is not preceded by a dot.
\<close>

fun parseIPv4_loop :: "string \<Rightarrow> nat \<Rightarrow> bytes \<Rightarrow> (string \<times> bytes) option" where
  "parseIPv4_loop s 0 p = Some (s, p)"
| "parseIPv4_loop s (Suc i) p =
     (if s = [] then None
      else if p \<noteq> [] \<and> hd s \<noteq> CHR ''.'' then None
      else (let s = (if p \<noteq> [] then tl s else s);
                (n, c, ok) = dtoi s
            in if \<not> ok \<or> 0xFF < n then None
               else parseIPv4_loop (drop c s) i (p @ [of_nat n])))"

definition parseIPv4 :: "string \<Rightarrow> IP option" where
  "parseIPv4 s =
     (case parseIPv4_loop s 4 [] of
        None \<Rightarrow> None
      | Some (s, p) \<Rightarrow> if s \<noteq> [] then None else Some (v4InV6Prefix @ p))"

text \<open>
  The loop of \<open>parseIPv6\<close>: \<open>ip\<close> holds the bytes stored so far (its length is the
  program's \<open>i\<close>), \<open>ellipsis\<close> the position of \<open>::\<close>.
\<close>

function parseIPv6_loop :: "string \<Rightarrow> bytes \<Rightarrow> nat option \<Rightarrow> (string \<times> bytes \<times> nat option) option" where
  "parseIPv6_loop s ip ellipsis =
     (if length ip < 16 then
        (case xtoi s of (n, c, ok) \<Rightarrow>
          if \<not> ok \<or> 0xFFFF < n then None
          else if c < length s \<and> s ! c = CHR ''.'' then
            (if ellipsis = None \<and> length ip \<noteq> 12 then None
             else if 16 < length ip + 4 then None
             else (case parseIPv4 s of
                     None \<Rightarrow> None
                   | Some ip4 \<Rightarrow> Some ([], ip @ drop 12 ip4, ellipsis)))
          else
            (let ip = ip @ [of_nat (n div 256), of_nat n]; s = drop c s in
             if s = [] then Some (s, ip, ellipsis)
             else if hd s \<noteq> CHR '':'' \<or> length s = 1 then None
             else (let s = tl s in
                   if hd s = CHR '':'' then
                     (if ellipsis \<noteq> None then None
                      else (let s = tl s in
                            if s = [] then Some (s, ip, Some (length ip))
                            else parseIPv6_loop s ip (Some (length ip))))
                   else parseIPv6_loop s ip ellipsis)))
      else Some (s, ip, ellipsis))"
  by pat_completeness auto
termination
  by (relation "measure (\<lambda>(s, ip, e). 16 - length ip)") auto

declare parseIPv6_loop.simps [simp del]

definition parseIPv6 :: "string \<Rightarrow> IP option" where
  "parseIPv6 s =
     (let lead = has_prefix s [CHR '':'', CHR '':''];
          s = (if lead then drop 2 s else s)
      in if lead \<and> s = [] then Some (replicate 16 0)
         else (case parseIPv6_loop s [] (if lead then Some 0 else None) of
                 None \<Rightarrow> None
               | Some (s, ip, ellipsis) \<Rightarrow>
                   if s \<noteq> [] then None
                   else if length ip < 16 then
                     (case ellipsis of
                        None \<Rightarrow> None
                      | Some e \<Rightarrow> Some (take e ip @ replicate (16 - length ip) 0 @ drop e ip))
                   else if ellipsis \<noteq> None then None else Some ip))"

definition ParseIP :: "string \<Rightarrow> IP option" where
  "ParseIP s =
     (case find (\<lambda>c. c = CHR ''.'' \<or> c = CHR '':'') s of
        None \<Rightarrow> None
      | Some c \<Rightarrow> if c = CHR ''.'' then parseIPv4 s else parseIPv6 s)"

definition ParseCIDR :: "string \<Rightarrow> (IP \<times> IPNet) result" where
  "ParseCIDR s =
     (if CHR ''/'' \<notin> set s then Inl (Errorf ''invalid CIDR address'' [s])
      else (let addr = takeWhile (\<lambda>c. c \<noteq> CHR ''/'') s;
                msk = tl (dropWhile (\<lambda>c. c \<noteq> CHR ''/'') s);
                (iplen, ip) = (case parseIPv4 addr of
                                 Some ip \<Rightarrow> (4, Some ip) | None \<Rightarrow> (16, parseIPv6 addr));
                (n, i, ok) = dtoi msk
            in case ip of
                 None \<Rightarrow> Inl (Errorf ''invalid CIDR address'' [s])
               | Some ip \<Rightarrow>
                   if \<not> ok \<or> i \<noteq> length msk \<or> 8 * iplen < n
                   then Inl (Errorf ''invalid CIDR address'' [s])
                   else (let m = nil_or (CIDRMask (int n) (8 * iplen))
                         in Inr (ip, \<lparr>NetIP = IP_Mask ip m, NetMask = m\<rparr>))))"

fun ParseMAC_colon :: "string \<Rightarrow> nat \<Rightarrow> char \<Rightarrow> HardwareAddr option" where
  "ParseMAC_colon s 0 e = Some []"
| "ParseMAC_colon s (Suc n) e =
     (case xtoi2 s e of
        None \<Rightarrow> None
      | Some b \<Rightarrow> map_option ((#) b) (ParseMAC_colon (drop 3 s) n e))"

fun ParseMAC_dot :: "string \<Rightarrow> nat \<Rightarrow> char \<Rightarrow> HardwareAddr option" where
  "ParseMAC_dot s 0 e = Some []"
| "ParseMAC_dot s (Suc n) e =
     (case xtoi2 (take 2 s) (CHR 0x00) of
        None \<Rightarrow> None
      | Some a \<Rightarrow>
          (case xtoi2 (drop 2 s) e of
             None \<Rightarrow> None
           | Some b \<Rightarrow> map_option (\<lambda>r. a # b # r) (ParseMAC_dot (drop 5 s) n e)))"

definition ParseMAC :: "string \<Rightarrow> HardwareAddr result" where
  "ParseMAC s =
     (let err = Inl (Errorf ''invalid MAC address'' [s]);
          res = (\<lambda>r. case r of None \<Rightarrow> err | Some hw \<Rightarrow> Inr hw)
      in if length s < 14 then err
         else if s ! 2 = CHR '':'' \<or> s ! 2 = CHR ''-'' then
           (if (length s + 1) mod 3 \<noteq> 0 then err
            else (let n = (length s + 1) div 3 in
                  if n \<noteq> 6 \<and> n \<noteq> 8 \<and> n \<noteq> 20 then err
                  else res (ParseMAC_colon s n (s ! 2))))
         else if s ! 4 = CHR ''.'' then
           (if (length s + 1) mod 5 \<noteq> 0 then err
            else (let n = 2 * (length s + 1) div 5 in
                  if n \<noteq> 6 \<and> n \<noteq> 8 \<and> n \<noteq> 20 then err
                  else res (ParseMAC_dot s (n div 2) (s ! 4))))
         else err)"

subsection \<open>Printing addresses\<close>

definition hex_char :: "nat \<Rightarrow> char" where
  "hex_char d = (if d < 10 then char_of (48 + d) else char_of (87 + d))"

definition hex2 :: "uint8 \<Rightarrow> string" where
  "hex2 b = [hex_char (unat b div 16), hex_char (unat b mod 16)]"

fun nat_hex :: "nat \<Rightarrow> string" where
  "nat_hex n = (if n < 16 then [hex_char n] else nat_hex (n div 16) @ [hex_char (n mod 16)])"

declare nat_hex.simps [simp del]

fun dotted :: "bytes \<Rightarrow> string" where
  "dotted [] = []"
| "dotted [b] = nat_string (unat b)"
| "dotted (b # bs) = nat_string (unat b) @ CHR ''.'' # dotted bs"

definition hw_String :: "HardwareAddr \<Rightarrow> string" where
  "hw_String a = join (CHR '':'') (map hex2 a)"

fun groups16 :: "bytes \<Rightarrow> nat list" where
  "groups16 (a # b # r) = (unat a * 256 + unat b) # groups16 r"
| "groups16 _ = []"

text \<open>
  The longest run of zero groups: \<open>zero_run gs\<close> is the length of the run at the head, and
  \<open>best_run\<close> keeps the first longest one; runs of a single group are not abbreviated.
\<close>

definition zero_run :: "nat list \<Rightarrow> nat" where
  "zero_run gs = length (takeWhile (\<lambda>g. g = 0) gs)"

fun best_run :: "nat list \<Rightarrow> nat \<Rightarrow> nat \<times> nat \<Rightarrow> nat \<times> nat" where
  "best_run [] i best = best"
| "best_run (g # gs) i (e0, e1) =
     best_run gs (i + 1)
       (if e1 - e0 < zero_run (g # gs) then (i, i + zero_run (g # gs)) else (e0, e1))"

definition v6_String :: "nat list \<Rightarrow> string" where
  "v6_String gs =
     (let (e0, e1) = best_run gs 0 (0, 0)
      in if e1 - e0 \<le> 1 then join (CHR '':'') (map nat_hex gs)
         else join (CHR '':'') (map nat_hex (take e0 gs)) @ [CHR '':'', CHR '':''] @
              join (CHR '':'') (map nat_hex (drop e1 gs)))"

definition IP_String :: "IP \<Rightarrow> string" where
  "IP_String ip =
     (if ip = [] then ''<nil>''
      else case To4 ip of
             Some p4 \<Rightarrow> dotted p4
           | None \<Rightarrow> if length ip \<noteq> 16 then CHR ''?'' # concat (map hex2 ip)
                     else v6_String (groups16 ip))"

subsection \<open>Address arithmetic\<close>

text \<open>
  \<open>big.Int\<close>'s \<open>SetBytes\<close> and \<open>Bytes\<close>: big-endian, and \<open>Bytes\<close> gives no leading zeros.
\<close>

definition SetBytes :: "bytes \<Rightarrow> nat" where
  "SetBytes bs = foldl (\<lambda>n b. n * 256 + unat b) 0 bs"

fun Bytes :: "nat \<Rightarrow> bytes" where
  "Bytes n = (if n = 0 then [] else Bytes (n div 256) @ [of_nat (n mod 256)])"

declare Bytes.simps [simp del]

definition ipToInt :: "IP \<Rightarrow> nat" where
  "ipToInt ip = (case To4 ip of Some v \<Rightarrow> SetBytes v | None \<Rightarrow> SetBytes (nil_or (To16 ip)))"

definition intToIP :: "nat \<Rightarrow> IP" where
  "intToIP i = Bytes i"

definition NextIP :: "IP \<Rightarrow> IP" where
  "NextIP ip = intToIP (ipToInt ip + 1)"

definition ip_Network :: "IPNet \<Rightarrow> IPNet" where
  "ip_Network ipn = \<lparr>NetIP = IP_Mask (NetIP ipn) (NetMask ipn), NetMask = NetMask ipn\<rparr>"

subsection \<open>Decimal numbers and dotted addresses\<close>

lemma foldl_dec_ge: "n \<le> foldl (\<lambda>n c. n * 10 + digit_val c) n ds"
proof (induction ds arbitrary: n)
  case (Cons d ds)
  have "n \<le> n * 10 + digit_val d" by simp
  also have "\<dots> \<le> foldl (\<lambda>n c. n * 10 + digit_val c) (n * 10 + digit_val d) ds" by (rule Cons)
  finally show ?case by simp
qed simp

lemma dtoi_loop_digits:
  assumes "list_all is_digit ds" and "ds \<noteq> [] \<or> 0 < i"
    and "foldl (\<lambda>n c. n * 10 + digit_val c) n ds < big"
    and "rest = [] \<or> \<not> is_digit (hd rest)"
  shows "dtoi_loop (ds @ rest) n i = (foldl (\<lambda>n c. n * 10 + digit_val c) n ds, i + length ds, True)"
  using assms
proof (induction ds arbitrary: n i)
  case Nil
  then show ?case by (cases rest) auto
next
  case (Cons d ds)
  have "n * 10 + digit_val d < big"
    using Cons.prems(3) foldl_dec_ge [of "n * 10 + digit_val d" ds] by simp
  then show ?case using Cons by simp
qed

lemma dtoi_nat_string:
  assumes "n < big" and "rest = [] \<or> \<not> is_digit (hd rest)"
  shows "dtoi (nat_string n @ rest) = (n, length (nat_string n), True)"
  using dtoi_loop_digits [of "nat_string n" 0 0 rest] nat_string_digits [of n] assms
  by (simp add: dtoi_def dec_val_def)

lemmas dtoi_nat_string_end = dtoi_nat_string [of _ "[]", simplified]

lemma unat_uint8_lt: "unat (b :: uint8) < 256"
  using unsigned_less [of b] by simp

lemma uint8_lt_big [simp]: "unat (b :: uint8) < big"
  using unat_uint8_lt [of b] by (simp add: big_def)

lemma not_digit_dot [simp]: "\<not> is_digit (CHR ''.'')" "\<not> is_digit (CHR ''/'')"
  by (simp_all add: is_digit_def)

lemma parseIPv4_loop_byte:
  assumes "rest = [] \<or> \<not> is_digit (hd rest)"
  shows "parseIPv4_loop (nat_string (unat b) @ rest) (Suc i) [] = parseIPv4_loop rest i [b]"
    and "p \<noteq> [] \<Longrightarrow>
      parseIPv4_loop (CHR ''.'' # nat_string (unat b) @ rest) (Suc i) p = parseIPv4_loop rest i (p @ [b])"
  using dtoi_nat_string [OF uint8_lt_big assms, of b] nat_string_digits [of "unat b"] unat_uint8_lt [of b]
  by (simp_all add: not_less)

lemma length4_cases:
  assumes "length ip = 4"
  obtains a b c d where "ip = [a, b, c, d]"
  using assms by (auto simp: length_Suc_conv eval_nat_numeral)

lemma parseIPv4_dotted:
  assumes "length ip = 4"
  shows "parseIPv4 (dotted ip) = Some (v4InV6Prefix @ ip)"
proof -
  obtain a b c d where ip: "ip = [a, b, c, d]" using assms by (rule length4_cases)
  have four: "(4 :: nat) = Suc (Suc (Suc (Suc 0)))" by simp
  have "parseIPv4_loop (dotted ip) 4 [] = Some ([], ip)"
    unfolding ip four
    using parseIPv4_loop_byte(2) [of "[]" "[a, b, c]" d 0]
    by (simp add: parseIPv4_loop_byte del: parseIPv4_loop.simps(2))
  then show ?thesis by (simp add: parseIPv4_def)
qed

lemma nat_string_no_sep: "c \<in> set (nat_string n) \<Longrightarrow> c \<noteq> CHR ''.'' \<and> c \<noteq> CHR '':'' \<and> c \<noteq> CHR ''/''"
  using nat_string_digits [of n] by (auto simp: list_all_iff is_digit_def)

lemma find_append: "find P (xs @ ys) = (case find P xs of None \<Rightarrow> find P ys | Some x \<Rightarrow> Some x)"
  by (induction xs) auto

lemma find_dotted:
  assumes "length ip = 4"
  shows "find (\<lambda>c. c = CHR ''.'' \<or> c = CHR '':'') (dotted ip) = Some (CHR ''.'')"
proof -
  obtain a b c d where ip: "ip = [a, b, c, d]" using assms by (rule length4_cases)
  have "find (\<lambda>c. c = CHR ''.'' \<or> c = CHR '':'') (nat_string (unat a)) = None"
    using nat_string_no_sep by (auto simp: find_None_iff)
  then show ?thesis by (simp add: ip find_append)
qed

lemma ParseIP_dotted:
  assumes "length ip = 4"
  shows "ParseIP (dotted ip) = Some (v4InV6Prefix @ ip)"
  using assms by (simp add: ParseIP_def find_dotted parseIPv4_dotted)

lemma dotted_no_slash:
  assumes "length ip = 4"
  shows "CHR ''/'' \<notin> set (dotted ip)"
proof -
  obtain a b c d where ip: "ip = [a, b, c, d]" using assms by (rule length4_cases)
  show ?thesis using nat_string_no_sep by (auto simp: ip)
qed

lemma v4InV6Prefix_length [simp]: "length v4InV6Prefix = 12"
  by (simp add: v4InV6Prefix_def)

lemma To4_simps [simp]:
  "length ip = 4 \<Longrightarrow> To4 ip = Some ip"
  "length ip = 4 \<Longrightarrow> To4 (v4InV6Prefix @ ip) = Some ip"
  by (simp_all add: To4_def)

lemma CIDRMask_loop_length [simp]: "length (CIDRMask_loop l n) = l"
  by (induction l arbitrary: n) auto

text \<open>The four bytes of an IPv4 mask with \<open>n\<close> leading ones.\<close>

definition mask4 :: "nat \<Rightarrow> IPMask" where
  "mask4 n = CIDRMask_loop 4 n"

lemma mask4_length [simp]: "length (mask4 n) = 4"
  by (simp add: mask4_def)

lemma CIDRMask_32: "n \<le> 32 \<Longrightarrow> CIDRMask (int n) 32 = Some (mask4 n)"
  by (simp add: CIDRMask_def mask4_def)

lemma CIDRMask_32_None: "i < 0 \<or> 32 < i \<Longrightarrow> CIDRMask i 32 = None"
  by (auto simp: CIDRMask_def)

definition and_bytes :: "bytes \<Rightarrow> bytes \<Rightarrow> bytes" where
  "and_bytes a b = map2 (\<lambda>a b. a AND b) a b"

lemma and_bytes_length [simp]: "length (and_bytes a b) = min (length a) (length b)"
  by (simp add: and_bytes_def)

lemma IP_Mask_v4:
  assumes "length ip = 4" and "length m = 4"
  shows "IP_Mask (v4InV6Prefix @ ip) m = and_bytes ip m" and "IP_Mask ip m = and_bytes ip m"
  using assms by (simp_all add: IP_Mask_def and_bytes_def)

definition cidr_string :: "IP \<Rightarrow> nat \<Rightarrow> string" where
  "cidr_string ip n = dotted ip @ CHR ''/'' # nat_string n"

lemma cidr_string_take:
  assumes "length ip = 4"
  shows "takeWhile (\<lambda>c. c \<noteq> CHR ''/'') (cidr_string ip n) = dotted ip"
    and "dropWhile (\<lambda>c. c \<noteq> CHR ''/'') (cidr_string ip n) = CHR ''/'' # nat_string n"
proof -
  have "\<forall>c\<in>set (dotted ip). c \<noteq> CHR ''/''" using dotted_no_slash [OF assms] by auto
  then show "takeWhile (\<lambda>c. c \<noteq> CHR ''/'') (cidr_string ip n) = dotted ip"
    and "dropWhile (\<lambda>c. c \<noteq> CHR ''/'') (cidr_string ip n) = CHR ''/'' # nat_string n"
    unfolding cidr_string_def by (simp_all add: takeWhile_append2 dropWhile_append2)
qed

lemma ParseCIDR_cidr_string:
  assumes "length ip = 4" and "n \<le> 32"
  shows "ParseCIDR (cidr_string ip n) =
    Inr (v4InV6Prefix @ ip, \<lparr>NetIP = and_bytes ip (mask4 n), NetMask = mask4 n\<rparr>)"
proof -
  have "n < big" using assms(2) by (simp add: big_def)
  then show ?thesis
    using assms dtoi_nat_string_end [of n] cidr_string_take [OF assms(1), of n]
    by (simp add: ParseCIDR_def parseIPv4_dotted CIDRMask_32 nil_or_def IP_Mask_v4)
      (simp add: cidr_string_def Let_def)
qed

subsection \<open>Masks and prefixes\<close>

lemma mask_byte_eq:
  assumes "n \<le> 8"
  shows "mask_byte n = NOT (Bit_Operations.mask (8 - n))"
proof -
  consider "n = 0" | "n = 1" | "n = 2" | "n = 3" | "n = 4" | "n = 5" | "n = 6" | "n = 7" | "n = 8"
    using assms by linarith
  then show ?thesis by cases (simp_all add: mask_byte_def mask_numeral)
qed

lemma mask_byte_ge8: "8 \<le> n \<Longrightarrow> x AND mask_byte n = x"
proof -
  assume "8 \<le> n"
  then have "mask_byte n = -1" by (simp add: mask_byte_def)
  then show ?thesis by simp
qed

lemma and_not_mask_eq_iff:
  fixes x y :: "'a::len word"
  shows "x AND NOT (Bit_Operations.mask k) = y AND NOT (Bit_Operations.mask k) \<longleftrightarrow> drop_bit k x = drop_bit k y"
proof
  assume eq: "x AND NOT (Bit_Operations.mask k) = y AND NOT (Bit_Operations.mask k)"
  have "drop_bit k (x AND NOT (Bit_Operations.mask k)) = drop_bit k (y AND NOT (Bit_Operations.mask k))"
    using eq by simp
  then show "drop_bit k x = drop_bit k y"
    by (auto simp: bit_eq_iff bit_simps dest: bit_imp_le_length)
next
  assume "drop_bit k x = drop_bit k y"
  then have "push_bit k (drop_bit k x) = push_bit k (drop_bit k y)" by simp
  then show "x AND NOT (Bit_Operations.mask k) = y AND NOT (Bit_Operations.mask k)"
    by (auto simp: bit_eq_iff bit_simps)
qed

lemma mask_byte_and_iff:
  assumes "n \<le> 8"
  shows "x AND mask_byte n = y AND mask_byte n \<longleftrightarrow> unat x div 2 ^ (8 - n) = unat y div 2 ^ (8 - n)"
proof -
  have "unat (drop_bit k w) = unat w div 2 ^ k" for k and w :: uint8
    using unat_drop_bit_eq [of k w] by (simp only: drop_bit_eq_div [where ?'a = nat])
  then have "drop_bit k x = drop_bit k y \<longleftrightarrow> unat x div 2 ^ k = unat y div 2 ^ k" for k
    by (metis word_unat_eq_iff)
  then show ?thesis by (simp add: mask_byte_eq [OF assms] and_not_mask_eq_iff)
qed

lemma SetBytes_fold: "foldl (\<lambda>n b. n * 256 + unat b) k bs = k * 256 ^ length bs + SetBytes bs"
proof (induction bs rule: rev_induct)
  case (snoc b bs)
  then show ?case by (simp add: SetBytes_def algebra_simps)
qed (simp add: SetBytes_def)

lemma SetBytes_Nil [simp]: "SetBytes [] = 0"
  by (simp add: SetBytes_def)

lemma SetBytes_Cons: "SetBytes (b # bs) = unat b * 256 ^ length bs + SetBytes bs"
  using SetBytes_fold [of "unat b" bs] by (simp add: SetBytes_def)

lemma SetBytes_snoc: "SetBytes (bs @ [b]) = SetBytes bs * 256 + unat b"
  by (simp add: SetBytes_def)

lemma SetBytes_lt: "SetBytes bs < 256 ^ length bs"
proof (induction bs)
  case (Cons b bs)
  have "unat b * 256 ^ length bs + SetBytes bs < (unat b + 1) * 256 ^ length bs"
    using Cons by simp
  also have "\<dots> \<le> 256 * 256 ^ length bs"
    using unat_uint8_lt [of b] by (intro mult_right_mono) auto
  finally show ?case by (simp add: SetBytes_Cons)
qed simp

lemma pow256: "(256 :: nat) ^ l = 2 ^ (8 * l)"
  by (simp add: power_mult)

lemma split_div_hi:
  assumes "k \<le> l" and "a < 2 ^ l"
  shows "(x * 2 ^ l + a) div 2 ^ k = x * 2 ^ (l - k) + a div (2 ^ k :: nat)"
proof -
  have "x * 2 ^ l = (x * 2 ^ (l - k)) * 2 ^ k"
    using assms(1) by (simp add: power_add [symmetric])
  then have "(x * 2 ^ l + a) div 2 ^ k = (a + (x * 2 ^ (l - k)) * 2 ^ k) div 2 ^ k"
    by (simp only: add.commute)
  then show ?thesis by simp
qed

lemma split_div_lo:
  assumes "a < 2 ^ l"
  shows "(x * 2 ^ l + a) div 2 ^ (l + k) = x div (2 ^ k :: nat)"
proof -
  have "(x * 2 ^ l + a) div 2 ^ l = x" using assms by simp
  then show ?thesis by (simp add: power_add div_mult2_eq)
qed

lemma pair_eq_mod:
  assumes "a < m" and "b < (m :: nat)"
  shows "x * m + a = y * m + b \<longleftrightarrow> x = y \<and> a = b"
proof
  assume eq: "x * m + a = y * m + b"
  have "(x * m + a) div m = x" "(y * m + b) div m = y" using assms by simp_all
  with eq show "x = y \<and> a = b" by simp
qed simp

text \<open>Masking compares exactly the leading bits.\<close>

lemma and_mask_iff:
  assumes "length a = l" and "length b = l" and "n \<le> 8 * l"
  shows "and_bytes a (CIDRMask_loop l n) = and_bytes b (CIDRMask_loop l n) \<longleftrightarrow>
    SetBytes a div 2 ^ (8 * l - n) = SetBytes b div 2 ^ (8 * l - n)"
  using assms
proof (induction l arbitrary: a b n)
  case 0
  then show ?case by (simp add: and_bytes_def)
next
  case (Suc l)
  obtain x a' y b' where ab: "a = x # a'" "b = y # b'" and len: "length a' = l" "length b' = l"
    using Suc.prems by (auto simp: length_Suc_conv)
  have A: "SetBytes a' < 2 ^ (8 * l)" and B: "SetBytes b' < 2 ^ (8 * l)"
    using SetBytes_lt [of a'] SetBytes_lt [of b'] len by (simp_all add: pow256)
  have S: "SetBytes a = unat x * 2 ^ (8 * l) + SetBytes a'" "SetBytes b = unat y * 2 ^ (8 * l) + SetBytes b'"
    using ab len by (simp_all add: SetBytes_Cons pow256)
  have rest: "and_bytes a' (CIDRMask_loop l (n - 8)) = and_bytes b' (CIDRMask_loop l (n - 8)) \<longleftrightarrow>
      SetBytes a' div 2 ^ (8 * l - (n - 8)) = SetBytes b' div 2 ^ (8 * l - (n - 8))"
    using Suc.IH [OF len, of "n - 8"] Suc.prems(3) by simp
  have split: "and_bytes a (CIDRMask_loop (Suc l) n) = and_bytes b (CIDRMask_loop (Suc l) n) \<longleftrightarrow>
      x AND mask_byte n = y AND mask_byte n \<and>
      and_bytes a' (CIDRMask_loop l (n - 8)) = and_bytes b' (CIDRMask_loop l (n - 8))"
    by (simp add: ab and_bytes_def)
  show ?case
  proof (cases "8 \<le> n")
    case True
    let ?k = "8 * Suc l - n"
    have k: "?k \<le> 8 * l" "8 * l - (n - 8) = ?k" using True Suc.prems(3) by auto
    have lt: "SetBytes a' div 2 ^ ?k < 2 ^ (8 * l - ?k)" "SetBytes b' div 2 ^ ?k < 2 ^ (8 * l - ?k)"
      using A B k(1) by (simp_all add: less_mult_imp_div_less power_add [symmetric])
    show ?thesis
      using split rest S split_div_hi [OF k(1) A] split_div_hi [OF k(1) B] pair_eq_mod [OF lt]
      by (simp add: k(2) mask_byte_ge8 [OF True] word_unat_eq_iff)
  next
    case False
    then have k: "8 * Suc l - n = 8 * l + (8 - n)" "n - 8 = 0" by auto
    have "SetBytes a' div 2 ^ (8 * l) = SetBytes b' div 2 ^ (8 * l)" using A B by simp
    then have "and_bytes a (CIDRMask_loop (Suc l) n) = and_bytes b (CIDRMask_loop (Suc l) n) \<longleftrightarrow>
        unat x div 2 ^ (8 - n) = unat y div 2 ^ (8 - n)"
      using split rest mask_byte_and_iff [of n x y] False by (simp add: k(2))
    then show ?thesis
      unfolding S k(1) split_div_lo [OF A] split_div_lo [OF B] .
  qed
qed

text \<open>Membership in a subnet, on addresses as numbers.\<close>

definition in_prefix :: "IP \<Rightarrow> nat \<Rightarrow> IP \<Rightarrow> bool" where
  "in_prefix ip n x \<longleftrightarrow> SetBytes x div 2 ^ (32 - n) = SetBytes ip div 2 ^ (32 - n)"

lemma and_mask4_iff:
  assumes "length a = 4" and "length b = 4" and "n \<le> 32"
  shows "and_bytes a (mask4 n) = and_bytes b (mask4 n) \<longleftrightarrow> in_prefix b n a"
  using and_mask_iff [of a 4 b n] assms by (simp add: mask4_def in_prefix_def)

lemma and_bytes_idem: "and_bytes (and_bytes a m) m = and_bytes a m"
  by (rule nth_equalityI) (simp_all add: and_bytes_def and.assoc)

lemma in_prefix_masked:
  assumes "length ip = 4" and "length x = 4" and "n \<le> 32"
  shows "in_prefix (and_bytes ip (mask4 n)) n x \<longleftrightarrow> in_prefix ip n x"
proof -
  have "and_bytes (and_bytes ip (mask4 n)) (mask4 n) = and_bytes ip (mask4 n)" by (rule and_bytes_idem)
  then have "in_prefix ip n (and_bytes ip (mask4 n))"
    using and_mask4_iff [of "and_bytes ip (mask4 n)" ip n] assms by simp
  then show ?thesis by (auto simp: in_prefix_def)
qed

lemma Contains_mask4:
  assumes "length net = 4" and "length m = 4" and "length x = 4"
  shows "IPNet_Contains \<lparr>NetIP = net, NetMask = m\<rparr> x \<longleftrightarrow> and_bytes x m = and_bytes net m"
    and "IPNet_Contains \<lparr>NetIP = net, NetMask = m\<rparr> (v4InV6Prefix @ x) \<longleftrightarrow> and_bytes x m = and_bytes net m"
proof -
  have "list_all (\<lambda>i. net ! i AND m ! i = x ! i AND m ! i) [0..<4] \<longleftrightarrow> and_bytes x m = and_bytes net m"
    using assms by (auto simp: list_all_iff list_eq_iff_nth_eq and_bytes_def)
  then show "IPNet_Contains \<lparr>NetIP = net, NetMask = m\<rparr> x \<longleftrightarrow> and_bytes x m = and_bytes net m"
    and "IPNet_Contains \<lparr>NetIP = net, NetMask = m\<rparr> (v4InV6Prefix @ x) \<longleftrightarrow> and_bytes x m = and_bytes net m"
    using assms by (simp_all add: IPNet_Contains_def networkNumberAndMask_def)
qed

lemma Contains_prefix:
  assumes "length ip = 4" and "length x = 4" and "n \<le> 32"
  shows "IPNet_Contains \<lparr>NetIP = and_bytes ip (mask4 n), NetMask = mask4 n\<rparr> (v4InV6Prefix @ x) \<longleftrightarrow>
    in_prefix ip n x"
  using assms by (simp add: Contains_mask4 and_bytes_idem and_mask4_iff)

subsection \<open>Address arithmetic\<close>

lemma SetBytes_Bytes: "SetBytes (Bytes n) = n"
proof (induction n rule: Bytes.induct)
  case (1 n)
  have "unat (of_nat (n mod 256) :: uint8) = n mod 256" by (simp add: unat_of_nat)
  then show ?case
    using 1 by (subst Bytes.simps) (auto simp: SetBytes_snoc)
qed

lemma SetBytes_ge:
  assumes "bs \<noteq> []" and "hd bs \<noteq> 0"
  shows "256 ^ (length bs - 1) \<le> SetBytes bs"
proof -
  obtain b r where bs: "bs = b # r" using assms(1) by (cases bs) auto
  have "1 \<le> unat b" using assms(2) bs by (simp add: Suc_le_eq unat_gt_0)
  then have "1 * 256 ^ length r \<le> unat b * 256 ^ length r" by (rule mult_right_mono) simp
  then have "256 ^ length r \<le> unat b * 256 ^ length r + SetBytes r" by linarith
  then show ?thesis by (simp add: bs SetBytes_Cons)
qed

lemma Bytes_nonempty: "0 < n \<Longrightarrow> Bytes n \<noteq> [] \<and> hd (Bytes n) \<noteq> 0"
proof (induction n rule: Bytes.induct)
  case (1 n)
  show ?case
  proof (cases "n div 256 = 0")
    case True
    then have n: "n mod 256 = n" "n < 256" by auto
    then have "unat (of_nat n :: uint8) = n" by (simp add: unat_of_nat)
    then have "(of_nat n :: uint8) \<noteq> 0" using 1(2) by (metis unat_0 neq0_conv)
    then show ?thesis using 1(2) True n
      by (subst (1 2) Bytes.simps) (simp add: Bytes.simps)
  next
    case False
    then have "Bytes (n div 256) \<noteq> [] \<and> hd (Bytes (n div 256)) \<noteq> 0" using 1 by simp
    then show ?thesis using 1(2) by (subst (1 2) Bytes.simps) simp
  qed
qed

lemma Bytes_length:
  assumes "256 ^ l \<le> n" and "n < 256 ^ Suc l"
  shows "length (Bytes n) = Suc l"
proof -
  have "0 < n" using assms(1) by (metis gr0I not_less power_eq_0_iff zero_neq_numeral le_zero_eq)
  then have ne: "Bytes n \<noteq> []" "hd (Bytes n) \<noteq> 0" using Bytes_nonempty by auto
  have "256 ^ (length (Bytes n) - 1) \<le> n" using SetBytes_ge [OF ne] by (simp add: SetBytes_Bytes)
  then have "256 ^ (length (Bytes n) - 1) < (256 :: nat) ^ Suc l" using assms(2) by (rule le_less_trans)
  then have up: "length (Bytes n) - 1 < Suc l" by (simp add: power_strict_increasing_iff del: power_Suc)
  have "256 ^ l < (256 :: nat) ^ length (Bytes n)"
    using assms(1) SetBytes_lt [of "Bytes n"] by (simp only: SetBytes_Bytes)
  then have "l < length (Bytes n)" by simp
  with up ne show ?thesis by (cases "Bytes n") auto
qed

lemma NextIP_v4:
  assumes "length ip = 4" and "hd ip \<noteq> 0" and "SetBytes ip + 1 < 256 ^ 4"
  shows "length (NextIP ip) = 4" and "SetBytes (NextIP ip) = SetBytes ip + 1"
proof -
  have next_eq: "NextIP ip = Bytes (SetBytes ip + 1)"
    using assms(1) by (simp add: NextIP_def intToIP_def ipToInt_def)
  have "256 ^ 3 \<le> SetBytes ip + 1"
    using SetBytes_ge [of ip] assms(1,2) by fastforce
  then show "length (NextIP ip) = 4"
    using Bytes_length [of 3 "SetBytes ip + 1"] assms(3) next_eq by simp
  show "SetBytes (NextIP ip) = SetBytes ip + 1"
    by (simp add: next_eq SetBytes_Bytes)
qed

subsection \<open>Hardware addresses\<close>

lemma hex_val_hex_char [simp]: "d < 16 \<Longrightarrow> hex_val (hex_char d) = Some d"
  by (auto simp: hex_val_def hex_char_def)

lemma xtoi2_hex2:
  assumes "rest = [] \<or> hd rest = e"
  shows "xtoi2 (hex2 b @ rest) e = Some b"
proof -
  let ?n = "unat b"
  have lt: "?n div 16 < 16" "?n mod 16 < 16" using unat_uint8_lt [of b] by (auto simp: less_mult_imp_div_less)
  have "xtoi (hex2 b) = (?n div 16 * 16 + ?n mod 16, 2, True)"
    using lt unat_uint8_lt [of b] by (simp add: xtoi_def hex2_def big_def Let_def)
  then have "xtoi (hex2 b) = (?n, 2, True)" by simp
  moreover have "take 2 (hex2 b @ rest) = hex2 b" "length (hex2 b) = 2" by (simp_all add: hex2_def)
  moreover have "2 < length (hex2 b @ rest) \<longrightarrow> (hex2 b @ rest) ! 2 = e"
    using assms by (cases rest) (simp_all add: hex2_def)
  ultimately show ?thesis by (auto simp: xtoi2_def)
qed

lemma ParseMAC_colon_hw:
  "ParseMAC_colon (hw_String a) (length a) (CHR '':'') = Some a"
proof (induction a)
  case (Cons b bs)
  have d3: "drop 3 (hex2 b @ CHR '':'' # s) = s" for s by (simp add: hex2_def)
  show ?case
  proof (cases bs)
    case Nil
    then show ?thesis using xtoi2_hex2 [of "[]" "CHR '':''" b] by (simp add: hw_String_def)
  next
    case (Cons c cs)
    then have "hw_String (b # bs) = hex2 b @ CHR '':'' # hw_String bs"
      by (simp add: hw_String_def)
    then show ?thesis
      using Cons.IH xtoi2_hex2 [of "CHR '':'' # hw_String bs" "CHR '':''" b]
      by (simp add: d3 del: drop_append)
  qed
qed simp

lemma ParseMAC_hw_String:
  assumes "length a = 6"
  shows "ParseMAC (hw_String a) = Inr a"
proof -
  obtain b c r where a: "a = b # c # r" and r: "length r = 4"
    using assms by (auto simp: length_Suc_conv eval_nat_numeral)
  have len: "length (join (CHR '':'') (map hex2 xs)) + 1 = 3 * length xs" if "xs \<noteq> []" for xs
    using that
  proof (induction xs rule: induct_list012)
    case (3 x y zs)
    then show ?case by (simp add: hex2_def)
  qed (simp_all add: hex2_def)
  have "length (hw_String a) = 17" using len [of a] assms a by (simp add: hw_String_def)
  moreover have "hw_String a ! 2 = CHR '':''" by (simp add: a hw_String_def hex2_def)
  ultimately show ?thesis using ParseMAC_colon_hw [of a] assms by (simp add: ParseMAC_def)
qed

subsection \<open>Sizes of parsed addresses\<close>

lemma parseIPv4_loop_length:
  "parseIPv4_loop s i p = Some (r, q) \<Longrightarrow> length q = length p + i"
proof (induction s i p rule: parseIPv4_loop.induct)
  case (2 s i p)
  then show ?case by (auto simp: Let_def split: if_splits prod.splits)
qed simp

lemma parseIPv4_length: "parseIPv4 s = Some ip \<Longrightarrow> length ip = 16"
  by (auto simp: parseIPv4_def split: option.splits if_splits dest!: parseIPv4_loop_length)

lemma parseIPv6_loop_length:
  "parseIPv6_loop s ip e = Some (r, q, e') \<Longrightarrow> even (length ip) \<Longrightarrow> length ip \<le> 16 \<Longrightarrow> length q \<le> 16"
proof (induction "16 - length ip" arbitrary: s ip e rule: less_induct)
  case (less ip s e)
  note IH = less(1) and res0 = less(2) and even = less(3)
  show ?case
  proof (cases "length ip < 16")
    case False
    then show ?thesis using less by (simp add: parseIPv6_loop.simps [of s ip e])
  next
    case True
    obtain n c ok where x: "xtoi s = (n, c, ok)" by (cases "xtoi s")
    let ?ip = "ip @ [of_nat (n div 256), of_nat n]"
    let ?s = "drop c s"
    obtain k where k: "length ip = 2 * k" using even by (rule evenE)
    then have small: "even (length ?ip)" "length ?ip \<le> 16" using True by simp_all
    have res: "ok" "\<not> 0xFFFF < n" using res0 True x by (auto simp: parseIPv6_loop.simps [of s ip e] split: if_splits)
    show ?thesis
    proof (cases "c < length s \<and> s ! c = CHR ''.''")
      case dot: True
      then show ?thesis using res0 True x res
        by (auto simp: parseIPv6_loop.simps [of s ip e] split: if_splits option.splits dest!: parseIPv4_length)
    next
      case nodot: False
      consider (stop) "?s = []" | (ellips) "?s \<noteq> []" "hd (tl ?s) = CHR '':''" "e = None" "tl (tl ?s) \<noteq> []"
          "parseIPv6_loop (tl (tl ?s)) ?ip (Some (length ?ip)) = Some (r, q, e')"
        | (ends) "?s \<noteq> []" "q = ?ip"
        | (more) "?s \<noteq> []" "hd (tl ?s) \<noteq> CHR '':''" "parseIPv6_loop (tl ?s) ?ip e = Some (r, q, e')"
        using res0 True x res nodot
        by (subst (asm) parseIPv6_loop.simps) (auto simp: Let_def split: if_splits)
      then show ?thesis
      proof cases
        case stop
        then show ?thesis using res0 True x res nodot small
          by (subst (asm) parseIPv6_loop.simps) (auto simp: Let_def split: if_splits)
      next
        case ellips
        show ?thesis by (rule IH [OF _ ellips(5) small]) (use True in simp)
      next
        case ends
        then show ?thesis using small by simp
      next
        case more
        show ?thesis by (rule IH [OF _ more(3) small]) (use True in simp)
      qed
    qed
  qed
qed

lemma ParseIP_length: "ParseIP s = Some ip \<Longrightarrow> length ip = 16"
proof -
  have v6: "length ip = 16" if "parseIPv6 t = Some ip" for t
  proof (cases "has_prefix t [CHR '':'', CHR '':''] \<and> drop 2 t = []")
    case True
    then show ?thesis using that by (auto simp: parseIPv6_def)
  next
    case False
    let ?lead = "has_prefix t [CHR '':'', CHR '':'']"
    let ?loop = "parseIPv6_loop (if ?lead then drop 2 t else t) [] (if ?lead then Some 0 else None)"
    have run: "(case ?loop of None \<Rightarrow> None | Some (s, q, el) \<Rightarrow>
        if s \<noteq> [] then None
        else if length q < 16 then
          (case el of None \<Rightarrow> None | Some k \<Rightarrow> Some (take k q @ replicate (16 - length q) 0 @ drop k q))
        else if el \<noteq> None then None else Some q) = Some ip"
      using that False unfolding parseIPv6_def Let_def by (cases ?lead) simp_all
    then obtain r q e' where loop: "?loop = Some (r, q, e')" by (cases ?loop) auto
    then have ip: "if length q < 16 then \<exists>k. ip = take k q @ replicate (16 - length q) 0 @ drop k q else ip = q"
      using run by (auto split: if_splits option.splits)
    have "length q \<le> 16" using parseIPv6_loop_length [OF loop] by simp
    then show ?thesis using ip by (auto split: if_splits)
  qed
  assume "ParseIP s = Some ip"
  then show ?thesis
    using v6 parseIPv4_length by (auto simp: ParseIP_def split: option.splits if_splits)
qed

lemma ParseMAC_loop_length:
  "ParseMAC_colon s n e = Some a \<Longrightarrow> length a = n"
  "ParseMAC_dot s n e = Some a \<Longrightarrow> length a = 2 * n"
proof -
  show "ParseMAC_colon s n e = Some a \<Longrightarrow> length a = n"
    by (induction s n e arbitrary: a rule: ParseMAC_colon.induct) (auto split: option.splits)
  show "ParseMAC_dot s n e = Some a \<Longrightarrow> length a = 2 * n"
    by (induction s n e arbitrary: a rule: ParseMAC_dot.induct) (auto split: option.splits)
qed

lemma ParseMAC_length: "ParseMAC s = Inr a \<Longrightarrow> 6 \<le> length a"
  by (auto simp: ParseMAC_def Let_def split: if_splits option.splits dest!: ParseMAC_loop_length)

end
