(* ===== verification/Ofp_Flow_Mod.thy ===== *)
theory Ofp_Flow_Mod
  imports Go_Bytes Go_Net
begin

text \<open>
  The OpenFlow 1.3 messages kube-ovs builds: the header and the \<open>FLOW_MOD\<close> message with
  its match fields, instructions and actions, as \<open>gofc/ofprotocol/ofp13\<close> constructs and
  serialises them (\<open>ofp13.go\<close>, \<open>ofp13_parser.go\<close>).

  The serialisers follow the code: they allocate a packet of \<open>Size()\<close> bytes and fill it at
  a running index, and panic where an index or a slice is out of range. The transaction
  counter \<open>xid\<close> is a global variable of the package; the constructors that draw from it take
  its value and return the next one. A \<open>Serialize\<close> method that first stores a length in its
  receiver is modelled by the packet it returns; the stored length is recomputed by every call.
\<close>

unbundle bit_operations_syntax

subsection \<open>Constants and the header\<close>

abbreviation (input) OFPT_HELLO :: uint8 where "OFPT_HELLO \<equiv> 0"
abbreviation (input) OFPT_ERROR :: uint8 where "OFPT_ERROR \<equiv> 1"
abbreviation (input) OFPT_ECHO_REQUEST :: uint8 where "OFPT_ECHO_REQUEST \<equiv> 2"
abbreviation (input) OFPT_ECHO_REPLY :: uint8 where "OFPT_ECHO_REPLY \<equiv> 3"
abbreviation (input) OFPT_FEATURES_REQUEST :: uint8 where "OFPT_FEATURES_REQUEST \<equiv> 5"
abbreviation (input) OFPT_FEATURES_REPLY :: uint8 where "OFPT_FEATURES_REPLY \<equiv> 6"
abbreviation (input) OFPT_FLOW_MOD :: uint8 where "OFPT_FLOW_MOD \<equiv> 14"
abbreviation (input) OFPMT_OXM :: uint16 where "OFPMT_OXM \<equiv> 1"
abbreviation (input) OFPIT_GOTO_TABLE :: uint16 where "OFPIT_GOTO_TABLE \<equiv> 1"
abbreviation (input) OFPIT_APPLY_ACTIONS :: uint16 where "OFPIT_APPLY_ACTIONS \<equiv> 4"
abbreviation (input) OFPAT_OUTPUT :: uint16 where "OFPAT_OUTPUT \<equiv> 0"
abbreviation (input) OFPAT_SET_FIELD :: uint16 where "OFPAT_SET_FIELD \<equiv> 25"
abbreviation (input) OFPFC_ADD :: uint8 where "OFPFC_ADD \<equiv> 0"
abbreviation (input) OFP_NO_BUFFER :: uint32 where "OFP_NO_BUFFER \<equiv> 0xffffffff"
abbreviation (input) OFPP_ANY :: uint32 where "OFPP_ANY \<equiv> 0xffffffff"
abbreviation (input) OFPG_ANY :: uint32 where "OFPG_ANY \<equiv> 0xffffffff"
abbreviation (input) OFPXMT_OFB_ETH_DST :: uint32 where "OFPXMT_OFB_ETH_DST \<equiv> 3"
abbreviation (input) OFPXMT_OFB_ETH_TYPE :: uint32 where "OFPXMT_OFB_ETH_TYPE \<equiv> 5"
abbreviation (input) OFPXMT_OFB_IPV4_DST :: uint32 where "OFPXMT_OFB_IPV4_DST \<equiv> 12"
abbreviation (input) OFPXMT_OFB_ARP_TPA :: uint32 where "OFPXMT_OFB_ARP_TPA \<equiv> 23"
abbreviation (input) OFPXMT_OFB_TUNNEL_ID :: uint32 where "OFPXMT_OFB_TUNNEL_ID \<equiv> 38"

record OfpHeader =
  HVersion :: uint8
  HType :: uint8
  HLength :: uint16
  HXid :: uint32

definition nextXid :: "uint32 \<Rightarrow> uint32 \<times> uint32" where
  "nextXid xid = (xid, xid + 1)"

definition NewOfpHeader :: "uint8 \<Rightarrow> uint32 \<Rightarrow> OfpHeader \<times> uint32" where
  "NewOfpHeader t xid =
     (let (x, xid) = nextXid xid in (\<lparr>HVersion = 4, HType = t, HLength = 8, HXid = x\<rparr>, xid))"

definition OfpHeader_Serialize :: "OfpHeader \<Rightarrow> bytes outcome" where
  "OfpHeader_Serialize h =
     (let packet = make_bytes 8 in
      bind_outcome (set_at packet 0 (HVersion h)) (\<lambda>packet.
      bind_outcome (set_at packet 1 (HType h)) (\<lambda>packet.
      bind_outcome (PutUint16 packet 2 (HLength h)) (\<lambda>packet.
      PutUint32 packet 4 (HXid h)))))"

definition OfpHeader_Parse :: "bytes \<Rightarrow> OfpHeader outcome" where
  "OfpHeader_Parse packet =
     bind_outcome (get_at packet 0) (\<lambda>version.
     bind_outcome (get_at packet 1) (\<lambda>t.
     bind_outcome (Uint16 packet 2) (\<lambda>l.
     bind_outcome (Uint32 packet 4) (\<lambda>x.
     Returns \<lparr>HVersion = version, HType = t, HLength = l, HXid = x\<rparr>))))"

subsection \<open>Match fields\<close>

definition oxmHeader_raw :: "uint32 \<Rightarrow> uint32 \<Rightarrow> uint32 \<Rightarrow> uint32 \<Rightarrow> uint32" where
  "oxmHeader_raw cls field hasMask len =
     (push_bit 16 cls OR push_bit 9 field OR push_bit 8 hasMask) OR len"

definition oxmHeader :: "uint32 \<Rightarrow> uint32 \<Rightarrow> uint32 \<Rightarrow> uint32" where
  "oxmHeader cls field len = oxmHeader_raw cls field 0 len"

definition oxmHeaderW :: "uint32 \<Rightarrow> uint32 \<Rightarrow> uint32 \<Rightarrow> uint32" where
  "oxmHeaderW cls field len = oxmHeader_raw cls field 1 (len * 2)"

definition oxmClass :: "uint32 \<Rightarrow> uint32" where
  "oxmClass h = drop_bit 16 h"

definition oxmField :: "uint32 \<Rightarrow> uint32" where
  "oxmField h = drop_bit 9 h AND 0x7f"

definition oxmHasMask :: "uint32 \<Rightarrow> uint32" where
  "oxmHasMask h = drop_bit 8 h AND 1"

definition oxmLength :: "uint32 \<Rightarrow> uint32" where
  "oxmLength h = h AND 0xff"

definition OXM_OF_ETH_DST :: uint32 where
  "OXM_OF_ETH_DST = oxmHeader 0x8000 OFPXMT_OFB_ETH_DST 6"
definition OXM_OF_ETH_TYPE :: uint32 where
  "OXM_OF_ETH_TYPE = oxmHeader 0x8000 OFPXMT_OFB_ETH_TYPE 2"
definition OXM_OF_IPV4_DST :: uint32 where
  "OXM_OF_IPV4_DST = oxmHeader 0x8000 OFPXMT_OFB_IPV4_DST 4"
definition OXM_OF_IPV4_DST_W :: uint32 where
  "OXM_OF_IPV4_DST_W = oxmHeaderW 0x8000 OFPXMT_OFB_IPV4_DST 4"
definition OXM_OF_ARP_TPA :: uint32 where
  "OXM_OF_ARP_TPA = oxmHeader 0x8000 OFPXMT_OFB_ARP_TPA 4"
definition OXM_OF_ARP_TPA_W :: uint32 where
  "OXM_OF_ARP_TPA_W = oxmHeaderW 0x8000 OFPXMT_OFB_ARP_TPA 4"
definition OXM_OF_TUNNEL_ID :: uint32 where
  "OXM_OF_TUNNEL_ID = oxmHeader 0x8000 OFPXMT_OFB_TUNNEL_ID 8"

text \<open>A field carries its TLV header, value and mask; a nil mask is the empty list.\<close>

datatype OxmField =
    OxmEth uint32 HardwareAddr HardwareAddr
  | OxmEthType uint32 uint16
  | OxmIpv4 uint32 IP IPMask
  | OxmArpPa uint32 IP IPMask
  | OxmTunnelId uint32 uint64 uint64

fun TlvHeader :: "OxmField \<Rightarrow> uint32" where
  "TlvHeader (OxmEth h _ _) = h"
| "TlvHeader (OxmEthType h _) = h"
| "TlvHeader (OxmIpv4 h _ _) = h"
| "TlvHeader (OxmArpPa h _ _) = h"
| "TlvHeader (OxmTunnelId h _ _) = h"

definition OxmField_Size :: "OxmField \<Rightarrow> nat" where
  "OxmField_Size m = unat (oxmLength (TlvHeader m) + 4)"

definition NewOxmEth :: "uint32 \<Rightarrow> string \<Rightarrow> OxmField result" where
  "NewOxmEth header hwAddr =
     (case ParseMAC hwAddr of Inl err \<Rightarrow> Inl err | Inr v \<Rightarrow> Inr (OxmEth header v []))"

definition NewOxmEthDst :: "string \<Rightarrow> OxmField result" where
  "NewOxmEthDst hwAddr = NewOxmEth OXM_OF_ETH_DST hwAddr"

definition NewOxmEthType :: "uint16 \<Rightarrow> OxmField" where
  "NewOxmEthType ethType = OxmEthType OXM_OF_ETH_TYPE ethType"

definition NewOxmIpv4 :: "uint32 \<Rightarrow> string \<Rightarrow> OxmField result" where
  "NewOxmIpv4 header addr =
     (case ParseIP addr of
        None \<Rightarrow> Inl (Errorf ''failed to parse IPv4 address.'' [])
      | Some v4addr \<Rightarrow> Inr (OxmIpv4 header v4addr []))"

definition NewOxmIpv4W :: "uint32 \<Rightarrow> string \<Rightarrow> int \<Rightarrow> OxmField result" where
  "NewOxmIpv4W header addr msk =
     (case ParseIP addr of
        None \<Rightarrow> Inl (Errorf ''failed to parse IPv4 address.'' [])
      | Some v4addr \<Rightarrow> Inr (OxmIpv4 header v4addr (nil_or (CIDRMask msk 32))))"

definition NewOxmIpv4Dst :: "string \<Rightarrow> OxmField result" where
  "NewOxmIpv4Dst addr = NewOxmIpv4 OXM_OF_IPV4_DST addr"

definition NewOxmIpv4DstW :: "string \<Rightarrow> int \<Rightarrow> OxmField result" where
  "NewOxmIpv4DstW addr msk = NewOxmIpv4W OXM_OF_IPV4_DST_W addr msk"

definition NewOxmArpPa :: "uint32 \<Rightarrow> string \<Rightarrow> OxmField result" where
  "NewOxmArpPa header addr =
     (case ParseIP addr of
        None \<Rightarrow> Inl (Errorf ''failed to parse IPv4 address.'' [])
      | Some v4addr \<Rightarrow> Inr (OxmArpPa header v4addr []))"

definition NewOxmArpPaW :: "uint32 \<Rightarrow> string \<Rightarrow> int \<Rightarrow> OxmField result" where
  "NewOxmArpPaW header addr msk =
     (case ParseIP addr of
        None \<Rightarrow> Inl (Errorf ''failed to parse IPv4 address.'' [])
      | Some v4addr \<Rightarrow> Inr (OxmArpPa header v4addr (nil_or (CIDRMask msk 32))))"

definition NewOxmArpTpa :: "string \<Rightarrow> OxmField result" where
  "NewOxmArpTpa addr = NewOxmArpPa OXM_OF_ARP_TPA addr"

definition NewOxmArpTpaW :: "string \<Rightarrow> int \<Rightarrow> OxmField result" where
  "NewOxmArpTpaW addr msk = NewOxmArpPaW OXM_OF_ARP_TPA_W addr msk"

definition NewOxmTunnelId :: "uint64 \<Rightarrow> OxmField" where
  "NewOxmTunnelId i = OxmTunnelId OXM_OF_TUNNEL_ID i 0"

definition OxmEth_Serialize :: "uint32 \<Rightarrow> HardwareAddr \<Rightarrow> HardwareAddr \<Rightarrow> bytes outcome" where
  "OxmEth_Serialize h value msk =
     (let packet = make_bytes (unat (oxmLength h + 4)) in
      bind_outcome (PutUint32 packet 0 h) (\<lambda>packet.
      bind_outcome (store_loop packet 4 value 0 6) (\<lambda>packet.
      if oxmHasMask h = 1 then store_loop packet 10 msk 0 6 else Returns packet)))"

definition OxmEthType_Serialize :: "uint32 \<Rightarrow> uint16 \<Rightarrow> bytes outcome" where
  "OxmEthType_Serialize h value =
     (let packet = make_bytes (unat (oxmLength h + 4)) in
      bind_outcome (PutUint32 packet 0 h) (\<lambda>packet.
      PutUint16 packet 4 value))"

definition OxmIpv4_Serialize :: "uint32 \<Rightarrow> IP \<Rightarrow> IPMask \<Rightarrow> bytes outcome" where
  "OxmIpv4_Serialize h value msk =
     (let packet = make_bytes (unat (oxmLength h + 4)) in
      bind_outcome (PutUint32 packet 0 h) (\<lambda>packet.
      bind_outcome (store_loop packet 4 value 12 4) (\<lambda>packet.
      if oxmHasMask h = 1 then store_loop packet 8 msk 0 4 else Returns packet)))"

definition OxmArpPa_Serialize :: "uint32 \<Rightarrow> IP \<Rightarrow> IPMask \<Rightarrow> bytes outcome" where
  "OxmArpPa_Serialize h value msk =
     (let packet = make_bytes (unat (oxmLength h + 4)) in
      bind_outcome (PutUint32 packet 0 h) (\<lambda>packet.
      bind_outcome (store_loop packet 4 value 12 4) (\<lambda>packet.
      if oxmHasMask h = 1 then store_loop packet 8 msk 0 4 else Returns packet)))"

definition OxmTunnelId_Serialize :: "uint32 \<Rightarrow> uint64 \<Rightarrow> uint64 \<Rightarrow> bytes outcome" where
  "OxmTunnelId_Serialize h value msk =
     (let packet = make_bytes (unat (oxmLength h + 4)) in
      bind_outcome (PutUint32 packet 0 h) (\<lambda>packet.
      bind_outcome (PutUint64 packet 4 value) (\<lambda>packet.
      if oxmHasMask h = 1 then PutUint64 packet 12 msk else Returns packet)))"

fun OxmField_Serialize :: "OxmField \<Rightarrow> bytes outcome" where
  "OxmField_Serialize (OxmEth h v m) = OxmEth_Serialize h v m"
| "OxmField_Serialize (OxmEthType h v) = OxmEthType_Serialize h v"
| "OxmField_Serialize (OxmIpv4 h v m) = OxmIpv4_Serialize h v m"
| "OxmField_Serialize (OxmArpPa h v m) = OxmArpPa_Serialize h v m"
| "OxmField_Serialize (OxmTunnelId h v m) = OxmTunnelId_Serialize h v m"

subsection \<open>Matches\<close>

record OfpMatch =
  MatchType :: uint16
  OxmFields :: "OxmField list"

definition NewOfpMatch :: OfpMatch where
  "NewOfpMatch = \<lparr>MatchType = OFPMT_OXM, OxmFields = []\<rparr>"

definition OfpMatch_Append :: "OfpMatch \<Rightarrow> OxmField \<Rightarrow> OfpMatch" where
  "OfpMatch_Append m f = m\<lparr>OxmFields := OxmFields m @ [f]\<rparr>"

definition OfpMatch_Size :: "OfpMatch \<Rightarrow> nat" where
  "OfpMatch_Size m =
     (let sz = foldl (\<lambda>sz e. sz + OxmField_Size e) 4 (OxmFields m)
      in sz + (8 - sz mod 8))"

definition OfpMatch_Serialize :: "OfpMatch \<Rightarrow> bytes outcome" where
  "OfpMatch_Serialize m =
     (let len = foldl (\<lambda>len e. len + (of_nat (OxmField_Size e) :: uint16)) 4 (OxmFields m);
          packet = make_bytes (OfpMatch_Size m) in
      bind_outcome (PutUint16 packet 0 (MatchType m)) (\<lambda>packet.
      bind_outcome (PutUint16 packet 2 len) (\<lambda>packet.
      copy_loop OxmField_Serialize OxmField_Size packet 4 (OxmFields m))))"

subsection \<open>Actions and instructions\<close>

record OfpActionHeader =
  ActType :: uint16
  ActLength :: uint16

definition OfpActionHeader_Serialize :: "OfpActionHeader \<Rightarrow> bytes outcome" where
  "OfpActionHeader_Serialize h =
     (let packet = make_bytes 8 in
      bind_outcome (PutUint16 packet 0 (ActType h)) (\<lambda>packet.
      PutUint16 packet 2 (ActLength h)))"

datatype OfpAction =
    OfpActionOutput OfpActionHeader uint32 uint16
  | OfpActionSetField OfpActionHeader OxmField

definition NewOfpActionOutput :: "uint32 \<Rightarrow> uint16 \<Rightarrow> OfpAction" where
  "NewOfpActionOutput port max_len =
     OfpActionOutput \<lparr>ActType = OFPAT_OUTPUT, ActLength = 16\<rparr> port max_len"

definition NewOfpActionSetField :: "OxmField \<Rightarrow> OfpAction" where
  "NewOfpActionSetField oxm =
     (let len = ((of_nat (OxmField_Size oxm) + 11) div 8) * 8 :: uint32
      in OfpActionSetField \<lparr>ActType = OFPAT_SET_FIELD, ActLength = ucast len\<rparr> oxm)"

fun OfpAction_Size :: "OfpAction \<Rightarrow> nat" where
  "OfpAction_Size (OfpActionOutput h port max_len) = 16"
| "OfpAction_Size (OfpActionSetField h oxm) = ((OxmField_Size oxm + 11) div 8) * 8"

definition OfpActionOutput_Serialize :: "OfpActionHeader \<Rightarrow> uint32 \<Rightarrow> uint16 \<Rightarrow> bytes outcome" where
  "OfpActionOutput_Serialize h port max_len =
     (let packet = make_bytes (OfpAction_Size (OfpActionOutput h port max_len)) in
      bind_outcome (OfpActionHeader_Serialize h) (\<lambda>h_packet.
      bind_outcome (copy_at packet 0 h_packet) (\<lambda>packet.
      bind_outcome (PutUint32 packet 4 port) (\<lambda>packet.
      PutUint16 packet 8 max_len))))"

definition OfpActionSetField_Serialize :: "OfpActionHeader \<Rightarrow> OxmField \<Rightarrow> bytes outcome" where
  "OfpActionSetField_Serialize h oxm =
     (let packet = make_bytes (OfpAction_Size (OfpActionSetField h oxm)) in
      bind_outcome (OfpActionHeader_Serialize h) (\<lambda>h_packet.
      bind_outcome (copy_at packet 0 h_packet) (\<lambda>packet.
      bind_outcome (OxmField_Serialize oxm) (\<lambda>m_packet.
      copy_at packet 4 m_packet))))"

fun OfpAction_Serialize :: "OfpAction \<Rightarrow> bytes outcome" where
  "OfpAction_Serialize (OfpActionOutput h port max_len) = OfpActionOutput_Serialize h port max_len"
| "OfpAction_Serialize (OfpActionSetField h oxm) = OfpActionSetField_Serialize h oxm"

record OfpInstructionHeader =
  InstType :: uint16
  InstLength :: uint16

definition OfpInstructionHeader_Serialize :: "OfpInstructionHeader \<Rightarrow> bytes outcome" where
  "OfpInstructionHeader_Serialize h =
     (let packet = make_bytes 4 in
      bind_outcome (PutUint16 packet 0 (InstType h)) (\<lambda>packet.
      PutUint16 packet 2 (InstLength h)))"

datatype OfpInstruction =
    OfpInstructionGotoTable OfpInstructionHeader uint8
  | OfpInstructionActions OfpInstructionHeader "OfpAction list"

definition NewOfpInstructionGotoTable :: "uint8 \<Rightarrow> OfpInstruction" where
  "NewOfpInstructionGotoTable i =
     OfpInstructionGotoTable \<lparr>InstType = OFPIT_GOTO_TABLE, InstLength = 8\<rparr> i"

definition NewOfpInstructionActions :: "uint16 \<Rightarrow> OfpInstruction" where
  "NewOfpInstructionActions t = OfpInstructionActions \<lparr>InstType = t, InstLength = 4\<rparr> []"

fun OfpInstructionActions_Append :: "OfpInstruction \<Rightarrow> OfpAction \<Rightarrow> OfpInstruction" where
  "OfpInstructionActions_Append (OfpInstructionActions h as) a = OfpInstructionActions h (as @ [a])"
| "OfpInstructionActions_Append i a = i"

fun OfpInstruction_Size :: "OfpInstruction \<Rightarrow> nat" where
  "OfpInstruction_Size (OfpInstructionGotoTable h t) = 4 + 4"
| "OfpInstruction_Size (OfpInstructionActions h as) = foldl (\<lambda>sz a. sz + OfpAction_Size a) (4 + 4) as"

definition GotoTable_Serialize :: "OfpInstructionHeader \<Rightarrow> uint8 \<Rightarrow> bytes outcome" where
  "GotoTable_Serialize h t =
     (let packet = make_bytes (OfpInstruction_Size (OfpInstructionGotoTable h t)) in
      bind_outcome (OfpInstructionHeader_Serialize h) (\<lambda>h_packet.
      bind_outcome (copy_at packet 0 h_packet) (\<lambda>packet.
      set_at packet 4 t)))"

definition Actions_Serialize :: "OfpInstructionHeader \<Rightarrow> OfpAction list \<Rightarrow> bytes outcome" where
  "Actions_Serialize h as =
     (let sz = OfpInstruction_Size (OfpInstructionActions h as);
          packet = make_bytes sz in
      bind_outcome (OfpInstructionHeader_Serialize (h\<lparr>InstLength := of_nat sz\<rparr>)) (\<lambda>h_packet.
      bind_outcome (copy_at packet 0 h_packet) (\<lambda>packet.
      copy_loop OfpAction_Serialize OfpAction_Size packet 8 as)))"

fun OfpInstruction_Serialize :: "OfpInstruction \<Rightarrow> bytes outcome" where
  "OfpInstruction_Serialize (OfpInstructionGotoTable h t) = GotoTable_Serialize h t"
| "OfpInstruction_Serialize (OfpInstructionActions h as) = Actions_Serialize h as"

subsection \<open>Flow modifications\<close>

record OfpFlowMod =
  FHeader :: OfpHeader
  Cookie :: uint64
  CookieMask :: uint64
  TableId :: uint8
  Command :: uint8
  IdleTimeout :: uint16
  HardTimeout :: uint16
  Priority :: uint16
  BufferId :: uint32
  OutPort :: uint32
  OutGroup :: uint32
  FlowFlags :: uint16
  FMatch :: OfpMatch
  Instructions :: "OfpInstruction list"

definition newOfpFlowMod ::
    "uint64 \<Rightarrow> uint64 \<Rightarrow> uint8 \<Rightarrow> uint8 \<Rightarrow> uint16 \<Rightarrow> uint16 \<Rightarrow> uint16 \<Rightarrow> uint32 \<Rightarrow> uint32 \<Rightarrow> uint32 \<Rightarrow>
     uint16 \<Rightarrow> OfpMatch \<Rightarrow> OfpInstruction list \<Rightarrow> uint32 \<Rightarrow> OfpFlowMod \<times> uint32" where
  "newOfpFlowMod ck ckMask tab cmd idle hard prio buf port grp flags match is xid =
     (let (header, xid) = NewOfpHeader OFPT_FLOW_MOD xid
      in (\<lparr>FHeader = header, Cookie = ck, CookieMask = ckMask, TableId = tab, Command = cmd,
           IdleTimeout = idle, HardTimeout = hard, Priority = prio, BufferId = buf,
           OutPort = port, OutGroup = grp, FlowFlags = flags, FMatch = match, Instructions = is\<rparr>, xid))"

definition NewOfpFlowModAdd ::
    "uint64 \<Rightarrow> uint64 \<Rightarrow> uint8 \<Rightarrow> uint16 \<Rightarrow> uint16 \<Rightarrow> OfpMatch \<Rightarrow> OfpInstruction list \<Rightarrow> uint32 \<Rightarrow>
     OfpFlowMod \<times> uint32" where
  "NewOfpFlowModAdd ck ckMask tab prio flags match is xid =
     newOfpFlowMod ck ckMask tab OFPFC_ADD 0 0 prio OFP_NO_BUFFER OFPP_ANY OFPG_ANY flags match is xid"

definition OfpFlowMod_Size :: "OfpFlowMod \<Rightarrow> nat" where
  "OfpFlowMod_Size m =
     foldl (\<lambda>sz inst. sz + OfpInstruction_Size inst) (8 + 40 + OfpMatch_Size (FMatch m)) (Instructions m)"

definition OfpFlowMod_Serialize :: "OfpFlowMod \<Rightarrow> bytes outcome" where
  "OfpFlowMod_Serialize m =
     (let packet = make_bytes (OfpFlowMod_Size m);
          header = (FHeader m)\<lparr>HLength := of_nat (OfpFlowMod_Size m)\<rparr> in
      bind_outcome (OfpHeader_Serialize header) (\<lambda>h_packet.
      bind_outcome (copy_at packet 0 h_packet) (\<lambda>packet.
      bind_outcome (PutUint64 packet 8 (Cookie m)) (\<lambda>packet.
      bind_outcome (PutUint64 packet 16 (CookieMask m)) (\<lambda>packet.
      bind_outcome (set_at packet 24 (TableId m)) (\<lambda>packet.
      bind_outcome (set_at packet 25 (Command m)) (\<lambda>packet.
      bind_outcome (PutUint16 packet 26 (IdleTimeout m)) (\<lambda>packet.
      bind_outcome (PutUint16 packet 28 (HardTimeout m)) (\<lambda>packet.
      bind_outcome (PutUint16 packet 30 (Priority m)) (\<lambda>packet.
      bind_outcome (PutUint32 packet 32 (BufferId m)) (\<lambda>packet.
      bind_outcome (PutUint32 packet 36 (OutPort m)) (\<lambda>packet.
      bind_outcome (PutUint32 packet 40 (OutGroup m)) (\<lambda>packet.
      bind_outcome (PutUint16 packet 44 (FlowFlags m)) (\<lambda>packet.
      bind_outcome (set_at packet 46 0) (\<lambda>packet.
      bind_outcome (set_at packet 47 0) (\<lambda>packet.
      bind_outcome (OfpMatch_Serialize (FMatch m)) (\<lambda>m_packet.
      bind_outcome (copy_at packet 48 m_packet) (\<lambda>packet.
      copy_loop OfpInstruction_Serialize OfpInstruction_Size packet (48 + length m_packet)
        (Instructions m)))))))))))))))))))"

end
