(* ===== verification/Ofp_Wire.thy ===== *)
theory Ofp_Wire
  imports Ofp_Flow_Mod
begin

text \<open>
  What the \<open>FLOW_MOD\<close> messages mean to a switch. \<open>dec_flow_mod\<close> reads a message by the
  OpenFlow 1.3 wire format (header, fixed part, OXM match padded to eight bytes,
  instructions, actions) and refuses what the protocol refuses: wrong lengths, fields
  without their prerequisite, value bits outside a mask, padding that is not zero. The
  serialisers are proved to return, without panic, the bytes of \<open>enc_flow_mod\<close>, and
  decoding these gives back the flow entry the message describes.
\<close>

subsection \<open>Numbers of the header constants\<close>

lemma oxm_consts:
  "OXM_OF_ETH_DST = 0x80000606" "OXM_OF_ETH_TYPE = 0x80000A02" "OXM_OF_IPV4_DST = 0x80001804"
  "OXM_OF_IPV4_DST_W = 0x80001908" "OXM_OF_ARP_TPA = 0x80002E04" "OXM_OF_ARP_TPA_W = 0x80002F08"
  "OXM_OF_TUNNEL_ID = 0x80004C08"
  by (simp_all add: OXM_OF_ETH_DST_def OXM_OF_ETH_TYPE_def OXM_OF_IPV4_DST_def OXM_OF_IPV4_DST_W_def
    OXM_OF_ARP_TPA_def OXM_OF_ARP_TPA_W_def OXM_OF_TUNNEL_ID_def oxmHeader_def oxmHeaderW_def
    oxmHeader_raw_def)

lemma oxm_lengths [simp]:
  "oxmLength OXM_OF_ETH_DST = 6" "oxmLength OXM_OF_ETH_TYPE = 2" "oxmLength OXM_OF_IPV4_DST = 4"
  "oxmLength OXM_OF_IPV4_DST_W = 8" "oxmLength OXM_OF_ARP_TPA = 4" "oxmLength OXM_OF_ARP_TPA_W = 8"
  "oxmLength OXM_OF_TUNNEL_ID = 8"
  by (simp_all add: oxm_consts oxmLength_def)

lemma oxm_masks [simp]:
  "oxmHasMask OXM_OF_ETH_DST = 0" "oxmHasMask OXM_OF_ETH_TYPE = 0" "oxmHasMask OXM_OF_IPV4_DST = 0"
  "oxmHasMask OXM_OF_IPV4_DST_W = 1" "oxmHasMask OXM_OF_ARP_TPA = 0" "oxmHasMask OXM_OF_ARP_TPA_W = 1"
  "oxmHasMask OXM_OF_TUNNEL_ID = 0"
  by (simp_all add: oxm_consts oxmHasMask_def)

lemma oxm_fields [simp]:
  "oxmField OXM_OF_ETH_DST = 3" "oxmField OXM_OF_ETH_TYPE = 5" "oxmField OXM_OF_IPV4_DST = 12"
  "oxmField OXM_OF_IPV4_DST_W = 12" "oxmField OXM_OF_ARP_TPA = 23" "oxmField OXM_OF_ARP_TPA_W = 23"
  "oxmField OXM_OF_TUNNEL_ID = 38"
  by (simp_all add: oxm_consts oxmField_def)

lemma oxm_classes [simp]:
  "oxmClass OXM_OF_ETH_DST = 0x8000" "oxmClass OXM_OF_ETH_TYPE = 0x8000" "oxmClass OXM_OF_IPV4_DST = 0x8000"
  "oxmClass OXM_OF_IPV4_DST_W = 0x8000" "oxmClass OXM_OF_ARP_TPA = 0x8000" "oxmClass OXM_OF_ARP_TPA_W = 0x8000"
  "oxmClass OXM_OF_TUNNEL_ID = 0x8000"
  by (simp_all add: oxm_consts oxmClass_def)

lemma oxm_distinct [simp]:
  "OXM_OF_IPV4_DST \<noteq> OXM_OF_IPV4_DST_W" "OXM_OF_ARP_TPA \<noteq> OXM_OF_ARP_TPA_W"
  "OXM_OF_IPV4_DST_W \<noteq> OXM_OF_IPV4_DST" "OXM_OF_ARP_TPA_W \<noteq> OXM_OF_ARP_TPA"
  by (simp_all add: oxm_consts)

subsection \<open>Bytes of a message\<close>

text \<open>The fields kube-ovs builds: the headers of the constructors, values of the right size.\<close>

fun oxm_ok :: "OxmField \<Rightarrow> bool" where
  "oxm_ok (OxmEth h v m) \<longleftrightarrow> h = OXM_OF_ETH_DST \<and> 6 \<le> length v"
| "oxm_ok (OxmEthType h v) \<longleftrightarrow> h = OXM_OF_ETH_TYPE"
| "oxm_ok (OxmIpv4 h v m) \<longleftrightarrow> length v = 16 \<and> (h = OXM_OF_IPV4_DST \<or> h = OXM_OF_IPV4_DST_W \<and> length m = 4)"
| "oxm_ok (OxmArpPa h v m) \<longleftrightarrow> length v = 16 \<and> (h = OXM_OF_ARP_TPA \<or> h = OXM_OF_ARP_TPA_W \<and> length m = 4)"
| "oxm_ok (OxmTunnelId h v m) \<longleftrightarrow> h = OXM_OF_TUNNEL_ID"

fun enc_oxm :: "OxmField \<Rightarrow> bytes" where
  "enc_oxm (OxmEth h v m) = be32 h @ take 6 v"
| "enc_oxm (OxmEthType h v) = be32 h @ be16 v"
| "enc_oxm (OxmIpv4 h v m) = (be32 h @ drop 12 v) @ (if h = OXM_OF_IPV4_DST_W then m else [])"
| "enc_oxm (OxmArpPa h v m) = (be32 h @ drop 12 v) @ (if h = OXM_OF_ARP_TPA_W then m else [])"
| "enc_oxm (OxmTunnelId h v m) = be32 h @ be64 v"

lemma OxmField_Serialize_ok:
  assumes "oxm_ok f"
  shows "OxmField_Serialize f = Returns (enc_oxm f)" and "length (enc_oxm f) = OxmField_Size f"
  using assms
  by (cases f; auto simp: OxmEth_Serialize_def OxmEthType_Serialize_def OxmIpv4_Serialize_def
    OxmArpPa_Serialize_def OxmTunnelId_Serialize_def make_bytes_def pad_simps OxmField_Size_def
    simp del: append_assoc)+

lemma foldl_size: "foldl (\<lambda>sz e. sz + f e) (a :: nat) xs = a + sum_list (map f xs)"
  by (induction xs arbitrary: a) auto

lemma foldl_of_nat:
  "foldl (\<lambda>len e. len + (of_nat (f e) :: uint16)) (of_nat a) xs = of_nat (a + sum_list (map f xs))"
proof (induction xs arbitrary: a)
  case (Cons x xs)
  then show ?case using Cons [of "a + f x"] by (simp add: add.assoc)
qed simp

definition match_ok :: "OfpMatch \<Rightarrow> bool" where
  "match_ok m \<longleftrightarrow> list_all oxm_ok (OxmFields m)"

abbreviation match_fields_size :: "OfpMatch \<Rightarrow> nat" where
  "match_fields_size m \<equiv> sum_list (map OxmField_Size (OxmFields m))"

definition enc_match :: "OfpMatch \<Rightarrow> bytes" where
  "enc_match m = ((be16 (MatchType m) @ be16 (of_nat (4 + match_fields_size m))) @
     concat (map enc_oxm (OxmFields m))) @ replicate (8 - (4 + match_fields_size m) mod 8) 0"

lemma OfpMatch_Size_eq:
  "OfpMatch_Size m = 4 + match_fields_size m + (8 - (4 + match_fields_size m) mod 8)"
  by (simp add: OfpMatch_Size_def foldl_size)

lemma OfpMatch_Serialize_ok:
  assumes "match_ok m"
  shows "OfpMatch_Serialize m = Returns (enc_match m)" and "length (enc_match m) = OfpMatch_Size m"
proof -
  have fields: "\<forall>f\<in>set (OxmFields m). OxmField_Serialize f = Returns (enc_oxm f) \<and> length (enc_oxm f) = OxmField_Size f"
    using assms OxmField_Serialize_ok by (auto simp: match_ok_def list_all_iff)
  let ?z = "8 - (4 + match_fields_size m) mod 8"
  have size: "2 \<le> OfpMatch_Size m" "2 \<le> OfpMatch_Size m - 2" "OfpMatch_Size m - 2 - 2 = match_fields_size m + ?z"
    by (simp_all add: OfpMatch_Size_eq)
  have len: "foldl (\<lambda>len e. len + (of_nat (OxmField_Size e) :: uint16)) 4 (OxmFields m) =
      of_nat (4 + match_fields_size m)"
    using foldl_of_nat [of OxmField_Size 4] by simp
  have loop: "copy_loop OxmField_Serialize OxmField_Size
      ((be16 (MatchType m) @ be16 (of_nat (4 + match_fields_size m))) @ replicate (match_fields_size m + ?z) 0)
      4 (OxmFields m) = Returns (enc_match m)"
    using copy_loop_pad [OF _ fields, of "be16 (MatchType m) @ be16 (of_nat (4 + match_fields_size m))" 4
        "match_fields_size m + ?z"]
    by (simp add: enc_match_def)
  show "OfpMatch_Serialize m = Returns (enc_match m)"
    unfolding OfpMatch_Serialize_def Let_def len make_bytes_def
    using loop size by (simp add: pad_simps del: append_assoc diff_diff_left)
  have "length (concat (map enc_oxm (OxmFields m))) = match_fields_size m"
    using fields by (auto simp: length_concat comp_def intro!: arg_cong [where f = sum_list])
  then show "length (enc_match m) = OfpMatch_Size m" by (simp add: enc_match_def OfpMatch_Size_eq)
qed

subsection \<open>Bytes of actions, instructions and flow modifications\<close>

fun action_ok :: "OfpAction \<Rightarrow> bool" where
  "action_ok (OfpActionOutput h p l) \<longleftrightarrow> h = \<lparr>ActType = OFPAT_OUTPUT, ActLength = 16\<rparr>"
| "action_ok (OfpActionSetField h f) \<longleftrightarrow> oxm_ok f \<and>
     h = \<lparr>ActType = OFPAT_SET_FIELD, ActLength = of_nat ((OxmField_Size f + 11) div 8 * 8)\<rparr>"

fun enc_action :: "OfpAction \<Rightarrow> bytes" where
  "enc_action (OfpActionOutput h p l) =
     (((be16 (ActType h) @ be16 (ActLength h)) @ be32 p) @ be16 l) @ replicate 6 0"
| "enc_action (OfpActionSetField h f) =
     ((be16 (ActType h) @ be16 (ActLength h)) @ enc_oxm f) @
       replicate ((OxmField_Size f + 11) div 8 * 8 - (4 + OxmField_Size f)) 0"

lemma OfpActionHeader_Serialize_eq:
  "OfpActionHeader_Serialize h = Returns ((be16 (ActType h) @ be16 (ActLength h)) @ replicate 4 0)"
  by (simp add: OfpActionHeader_Serialize_def make_bytes_def pad_simps del: append_assoc)

lemma action_header_at:
  assumes "8 \<le> k"
  shows "copy_at (replicate k 0) 0 ((be16 t @ be16 l) @ replicate 4 0) =
    Returns ((be16 t @ be16 l) @ replicate (k - 4) 0)"
proof -
  have "copy_at (replicate k 0) 0 ((be16 t @ be16 l) @ replicate 4 0) =
      Returns (((be16 t @ be16 l) @ replicate 4 0) @ replicate (k - 8) 0)"
    using assms copy_at_zeros [of "(be16 t @ be16 l) @ replicate 4 0" k] by simp
  also have "\<dots> = Returns ((be16 t @ be16 l) @ replicate (k - 4) 0)"
    using assms by (simp add: replicate_add [symmetric])
  finally show ?thesis .
qed

lemma oxm_action_size: "oxm_ok f \<Longrightarrow> 4 + OxmField_Size f \<le> (OxmField_Size f + 11) div 8 * 8 \<and> 8 \<le> (OxmField_Size f + 11) div 8 * 8"
  by (cases f) (auto simp: OxmField_Size_def)

lemma OfpAction_Serialize_ok:
  assumes "action_ok a"
  shows "OfpAction_Serialize a = Returns (enc_action a)" and "length (enc_action a) = OfpAction_Size a"
proof -
  have "OfpAction_Serialize a = Returns (enc_action a) \<and> length (enc_action a) = OfpAction_Size a"
  proof (cases a)
    case (OfpActionOutput h p l)
    then show ?thesis
      by (simp add: OfpActionOutput_Serialize_def OfpActionHeader_Serialize_eq make_bytes_def
        action_header_at put_at_pad del: append_assoc)
  next
    case (OfpActionSetField h f)
    then have f: "oxm_ok f" using assms by simp
    note size = oxm_action_size [OF f]
    show ?thesis
      using OfpActionSetField size OxmField_Serialize_ok [OF f]
      by (simp add: OfpActionSetField_Serialize_def OfpActionHeader_Serialize_eq make_bytes_def
        action_header_at copy_at_pad del: append_assoc)
  qed
  then show "OfpAction_Serialize a = Returns (enc_action a)" "length (enc_action a) = OfpAction_Size a" by auto
qed

fun instr_ok :: "OfpInstruction \<Rightarrow> bool" where
  "instr_ok (OfpInstructionGotoTable h t) \<longleftrightarrow> h = \<lparr>InstType = OFPIT_GOTO_TABLE, InstLength = 8\<rparr>"
| "instr_ok (OfpInstructionActions h as) \<longleftrightarrow> InstType h = OFPIT_APPLY_ACTIONS \<and> list_all action_ok as"

fun enc_instr :: "OfpInstruction \<Rightarrow> bytes" where
  "enc_instr (OfpInstructionGotoTable h t) =
     ((be16 (InstType h) @ be16 (InstLength h)) @ [t]) @ replicate 3 0"
| "enc_instr (OfpInstructionActions h as) =
     ((be16 (InstType h) @ be16 (of_nat (8 + sum_list (map OfpAction_Size as)))) @ replicate 4 0) @
       concat (map enc_action as)"

lemma OfpInstructionHeader_Serialize_eq:
  "OfpInstructionHeader_Serialize h = Returns (be16 (InstType h) @ be16 (InstLength h))"
  by (simp add: OfpInstructionHeader_Serialize_def make_bytes_def pad_simps)

lemma OfpInstruction_Size_actions:
  "OfpInstruction_Size (OfpInstructionActions h as) = 8 + sum_list (map OfpAction_Size as)"
  by (simp add: foldl_size)

lemma enc_actions_length:
  "list_all action_ok as \<Longrightarrow> length (concat (map enc_action as)) = sum_list (map OfpAction_Size as)"
  using OfpAction_Serialize_ok(2) by (auto simp: length_concat comp_def list_all_iff intro!: arg_cong [where f = sum_list])

lemma Actions_Serialize_ok:
  assumes "list_all action_ok as"
  shows "Actions_Serialize h as = Returns (enc_instr (OfpInstructionActions h as))"
proof -
  let ?s = "sum_list (map OfpAction_Size as)"
  let ?h = "be16 (InstType h) @ be16 (of_nat (8 + ?s))"
  have acts: "\<forall>a\<in>set as. OfpAction_Serialize a = Returns (enc_action a) \<and> length (enc_action a) = OfpAction_Size a"
    using assms OfpAction_Serialize_ok by (auto simp: list_all_iff)
  have "copy_at (replicate (8 + ?s) 0) 0 ?h = Returns ((?h @ replicate 4 0) @ replicate ?s 0)"
    using copy_at_zeros [of ?h "8 + ?s"] by (simp add: replicate_add [symmetric])
  moreover have "copy_loop OfpAction_Serialize OfpAction_Size ((?h @ replicate 4 0) @ replicate ?s 0) 8 as =
      Returns (enc_instr (OfpInstructionActions h as))"
    using copy_loop_pad [OF _ acts, of "?h @ replicate 4 0" 8 ?s] by simp
  ultimately show ?thesis
    unfolding Actions_Serialize_def Let_def OfpInstruction_Size_actions make_bytes_def
      OfpInstructionHeader_Serialize_eq
    by (simp del: append_assoc)
qed

lemma OfpInstruction_Serialize_ok:
  assumes "instr_ok i"
  shows "OfpInstruction_Serialize i = Returns (enc_instr i)" and "length (enc_instr i) = OfpInstruction_Size i"
proof -
  have "OfpInstruction_Serialize i = Returns (enc_instr i) \<and> length (enc_instr i) = OfpInstruction_Size i"
  proof (cases i)
    case (OfpInstructionGotoTable h t)
    then show ?thesis
      by (simp add: GotoTable_Serialize_def OfpInstructionHeader_Serialize_eq make_bytes_def pad_simps
        del: append_assoc)
  next
    case (OfpInstructionActions h as)
    then show ?thesis
      using assms Actions_Serialize_ok [of as h] enc_actions_length [of as]
      by (simp add: foldl_size)
  qed
  then show "OfpInstruction_Serialize i = Returns (enc_instr i)" "length (enc_instr i) = OfpInstruction_Size i"
    by auto
qed

definition enc_header :: "OfpHeader \<Rightarrow> bytes" where
  "enc_header h = [HVersion h, HType h] @ be16 (HLength h) @ be32 (HXid h)"

lemma enc_header_length [simp]: "length (enc_header h) = 8"
  by (simp add: enc_header_def)

lemma OfpHeader_Serialize_eq: "OfpHeader_Serialize h = Returns (enc_header h)"
proof -
  have "OfpHeader_Serialize h = Returns ((([HVersion h] @ [HType h]) @ be16 (HLength h)) @ be32 (HXid h))"
    by (simp add: OfpHeader_Serialize_def make_bytes_def pad_simps del: append_assoc append_Cons)
  then show ?thesis by (simp add: enc_header_def)
qed

definition flow_mod_ok :: "OfpFlowMod \<Rightarrow> bool" where
  "flow_mod_ok m \<longleftrightarrow> match_ok (FMatch m) \<and> list_all instr_ok (Instructions m)"

definition enc_fixed :: "OfpFlowMod \<Rightarrow> bytes" where
  "enc_fixed m = be64 (Cookie m) @ be64 (CookieMask m) @ [TableId m, Command m] @
     be16 (IdleTimeout m) @ be16 (HardTimeout m) @ be16 (Priority m) @ be32 (BufferId m) @
     be32 (OutPort m) @ be32 (OutGroup m) @ be16 (FlowFlags m) @ [0, 0]"

definition enc_flow_mod :: "OfpFlowMod \<Rightarrow> bytes" where
  "enc_flow_mod m = enc_header ((FHeader m)\<lparr>HLength := of_nat (OfpFlowMod_Size m)\<rparr>) @ enc_fixed m @
     enc_match (FMatch m) @ concat (map enc_instr (Instructions m))"

lemma OfpFlowMod_Size_eq:
  "OfpFlowMod_Size m = 48 + OfpMatch_Size (FMatch m) + sum_list (map OfpInstruction_Size (Instructions m))"
  by (simp add: OfpFlowMod_Size_def foldl_size)

lemma enc_flow_mod_length:
  assumes "flow_mod_ok m"
  shows "length (enc_flow_mod m) = OfpFlowMod_Size m"
proof -
  have "length (concat (map enc_instr (Instructions m))) = sum_list (map OfpInstruction_Size (Instructions m))"
    using assms OfpInstruction_Serialize_ok(2)
    by (auto simp: flow_mod_ok_def length_concat comp_def list_all_iff intro!: arg_cong [where f = sum_list])
  then show ?thesis
    using assms OfpMatch_Serialize_ok(2) by (simp add: enc_flow_mod_def enc_fixed_def OfpFlowMod_Size_eq flow_mod_ok_def)
qed

lemma OfpFlowMod_Serialize_ok:
  assumes "flow_mod_ok m"
  shows "OfpFlowMod_Serialize m = Returns (enc_flow_mod m)"
proof -
  let ?M = "enc_match (FMatch m)"
  let ?s = "sum_list (map OfpInstruction_Size (Instructions m))"
  let ?H = "enc_header ((FHeader m)\<lparr>HLength := of_nat (OfpFlowMod_Size m)\<rparr>)"
  let ?pre = "((((((((((((((?H @ be64 (Cookie m)) @ be64 (CookieMask m)) @ [TableId m]) @ [Command m]) @
     be16 (IdleTimeout m)) @ be16 (HardTimeout m)) @ be16 (Priority m)) @ be32 (BufferId m)) @
     be32 (OutPort m)) @ be32 (OutGroup m)) @ be16 (FlowFlags m)) @ [0]) @ [0]) @ ?M)"
  have M: "match_ok (FMatch m)" "length ?M = OfpMatch_Size (FMatch m)"
    using assms OfpMatch_Serialize_ok by (auto simp: flow_mod_ok_def)
  have ins: "\<forall>i\<in>set (Instructions m). OfpInstruction_Serialize i = Returns (enc_instr i) \<and>
      length (enc_instr i) = OfpInstruction_Size i"
    using assms OfpInstruction_Serialize_ok by (auto simp: flow_mod_ok_def list_all_iff)
  obtain K where K: "OfpFlowMod_Size m = K" by simp
  have size: "48 + length ?M \<le> K" "K - (48 + length ?M) = ?s" using K by (simp_all add: OfpFlowMod_Size_eq M(2))
  have pre_len: "length ?pre = 48 + length ?M" by simp
  have loop: "copy_loop OfpInstruction_Serialize OfpInstruction_Size (?pre @ replicate ?s 0) (48 + length ?M)
      (Instructions m) = Returns (?pre @ concat (map enc_instr (Instructions m)))"
    using copy_loop_pad [OF pre_len ins, of ?s] by simp
  have "OfpFlowMod_Serialize m = Returns (?pre @ concat (map enc_instr (Instructions m)))"
    unfolding OfpFlowMod_Serialize_def Let_def make_bytes_def OfpHeader_Serialize_eq
    using OfpMatch_Serialize_ok(1) [OF M(1)] size loop unfolding K
    by (simp add: pad_simps del: append_assoc append_Cons)
  then show ?thesis by (simp add: enc_flow_mod_def enc_fixed_def)
qed

subsection \<open>Reading a message by the wire format\<close>

datatype wire_field =
    WEthDst bytes
  | WEthType uint16
  | WIpv4Dst bytes bytes
  | WArpTpa bytes bytes
  | WTunnelId uint64

datatype wire_action = WOutput uint32 uint16 | WSetField wire_field

datatype wire_instr = WGotoTable uint8 | WApplyActions "wire_action list"

record flow_entry =
  fe_table :: uint8
  fe_command :: uint8
  fe_priority :: uint16
  fe_cookie :: uint64
  fe_idle :: uint16
  fe_hard :: uint16
  fe_match :: "wire_field list"
  fe_instrs :: "wire_instr list"

abbreviation zeros :: "bytes \<Rightarrow> bool" where
  "zeros bs \<equiv> list_all (\<lambda>b. b = 0) bs"

abbreviation ones4 :: bytes where
  "ones4 \<equiv> replicate 4 0xff"

definition dec_masked :: "(bytes \<Rightarrow> bytes \<Rightarrow> wire_field) \<Rightarrow> uint32 \<Rightarrow> bytes \<Rightarrow> wire_field option" where
  "dec_masked mk h p =
     (if oxmHasMask h = 0 then (if length p = 4 then Some (mk p ones4) else None)
      else if length p = 8 \<and> and_bytes (take 4 p) (drop 4 p) = take 4 p
      then Some (mk (take 4 p) (drop 4 p)) else None)"

definition dec_payload :: "uint32 \<Rightarrow> bytes \<Rightarrow> wire_field option" where
  "dec_payload h p =
     (if oxmClass h \<noteq> 0x8000 then None
      else if oxmField h = OFPXMT_OFB_IPV4_DST then dec_masked WIpv4Dst h p
      else if oxmField h = OFPXMT_OFB_ARP_TPA then dec_masked WArpTpa h p
      else if oxmHasMask h \<noteq> 0 then None
      else if oxmField h = OFPXMT_OFB_ETH_DST \<and> length p = 6 then Some (WEthDst p)
      else if oxmField h = OFPXMT_OFB_ETH_TYPE \<and> length p = 2 then Some (WEthType (of_be16 p))
      else if oxmField h = OFPXMT_OFB_TUNNEL_ID \<and> length p = 8 then Some (WTunnelId (of_be64 p))
      else None)"

definition dec_oxm :: "bytes \<Rightarrow> (wire_field \<times> bytes) option" where
  "dec_oxm bs =
     (let h = of_be32 bs; l = unat (oxmLength h)
      in if length bs < 4 + l then None
         else map_option (\<lambda>f. (f, drop (4 + l) bs)) (dec_payload h (take l (drop 4 bs))))"

text \<open>A sequence of items that fills the input; every item takes at least one byte.\<close>

fun dec_many :: "(bytes \<Rightarrow> ('a \<times> bytes) option) \<Rightarrow> nat \<Rightarrow> bytes \<Rightarrow> 'a list option" where
  "dec_many dec 0 bs = (if bs = [] then Some [] else None)"
| "dec_many dec (Suc n) bs =
     (if bs = [] then Some []
      else case dec bs of
             None \<Rightarrow> None
           | Some (x, rest) \<Rightarrow> map_option ((#) x) (dec_many dec n rest))"

fun prereqs_ok :: "uint16 option \<Rightarrow> wire_field list \<Rightarrow> bool" where
  "prereqs_ok et [] = True"
| "prereqs_ok et (WEthType t # fs) = (et = None \<and> prereqs_ok (Some t) fs)"
| "prereqs_ok et (WIpv4Dst v m # fs) = (et = Some 0x0800 \<and> prereqs_ok et fs)"
| "prereqs_ok et (WArpTpa v m # fs) = (et = Some 0x0806 \<and> prereqs_ok et fs)"
| "prereqs_ok et (WEthDst v # fs) = prereqs_ok et fs"
| "prereqs_ok et (WTunnelId v # fs) = prereqs_ok et fs"

definition dec_match :: "bytes \<Rightarrow> (wire_field list \<times> bytes) option" where
  "dec_match bs =
     (let l = unat (of_be16 (drop 2 bs)); p = (l + 7) div 8 * 8
      in if length bs < 4 \<or> of_be16 bs \<noteq> OFPMT_OXM \<or> l < 4 \<or> length bs < p \<or> \<not> zeros (drop l (take p bs))
         then None
         else case dec_many dec_oxm l (take (l - 4) (drop 4 bs)) of
                None \<Rightarrow> None
              | Some fs \<Rightarrow> if prereqs_ok None fs then Some (fs, drop p bs) else None)"

definition dec_action :: "bytes \<Rightarrow> (wire_action \<times> bytes) option" where
  "dec_action bs =
     (let t = of_be16 bs; l = unat (of_be16 (drop 2 bs)); body = take (l - 4) (drop 4 bs)
      in if length bs < 8 \<or> l < 8 \<or> l mod 8 \<noteq> 0 \<or> length bs < l then None
         else if t = OFPAT_OUTPUT \<and> l = 16 \<and> zeros (drop 6 body)
         then Some (WOutput (of_be32 body) (of_be16 (drop 4 body)), drop l bs)
         else if t = OFPAT_SET_FIELD \<and> oxmHasMask (of_be32 body) = 0 then
           (case dec_oxm body of
              None \<Rightarrow> None
            | Some (f, pad) \<Rightarrow> if zeros pad then Some (WSetField f, drop l bs) else None)
         else None)"

definition dec_instr :: "bytes \<Rightarrow> (wire_instr \<times> bytes) option" where
  "dec_instr bs =
     (let t = of_be16 bs; l = unat (of_be16 (drop 2 bs))
      in if length bs < 8 \<or> l < 8 \<or> length bs < l then None
         else if t = OFPIT_GOTO_TABLE \<and> l = 8 \<and> zeros (take 3 (drop 5 bs))
         then Some (WGotoTable (bs ! 4), drop 8 bs)
         else if t = OFPIT_APPLY_ACTIONS \<and> zeros (take 4 (drop 4 bs)) then
           (case dec_many dec_action l (take (l - 8) (drop 8 bs)) of
              None \<Rightarrow> None
            | Some as \<Rightarrow> Some (WApplyActions as, drop l bs))
         else None)"

definition dec_flow_mod :: "bytes \<Rightarrow> flow_entry option" where
  "dec_flow_mod bs =
     (if length bs < 56 \<or> bs ! 0 \<noteq> 4 \<or> bs ! 1 \<noteq> OFPT_FLOW_MOD \<or> unat (of_be16 (drop 2 bs)) \<noteq> length bs
      then None
      else case dec_match (drop 48 bs) of
             None \<Rightarrow> None
           | Some (fs, rest) \<Rightarrow>
               (case dec_many dec_instr (length rest) rest of
                  None \<Rightarrow> None
                | Some ins \<Rightarrow> Some
                    \<lparr>fe_table = bs ! 24, fe_command = bs ! 25, fe_priority = of_be16 (drop 30 bs),
                     fe_cookie = of_be64 (drop 8 bs), fe_idle = of_be16 (drop 26 bs),
                     fe_hard = of_be16 (drop 28 bs), fe_match = fs, fe_instrs = ins\<rparr>))"

subsection \<open>The flow entry a message describes\<close>

fun abs_oxm :: "OxmField \<Rightarrow> wire_field" where
  "abs_oxm (OxmEth h v m) = WEthDst (take 6 v)"
| "abs_oxm (OxmEthType h v) = WEthType v"
| "abs_oxm (OxmIpv4 h v m) = WIpv4Dst (drop 12 v) (if h = OXM_OF_IPV4_DST_W then m else ones4)"
| "abs_oxm (OxmArpPa h v m) = WArpTpa (drop 12 v) (if h = OXM_OF_ARP_TPA_W then m else ones4)"
| "abs_oxm (OxmTunnelId h v m) = WTunnelId v"

fun abs_action :: "OfpAction \<Rightarrow> wire_action" where
  "abs_action (OfpActionOutput h p l) = WOutput p l"
| "abs_action (OfpActionSetField h f) = WSetField (abs_oxm f)"

fun abs_instr :: "OfpInstruction \<Rightarrow> wire_instr" where
  "abs_instr (OfpInstructionGotoTable h t) = WGotoTable t"
| "abs_instr (OfpInstructionActions h as) = WApplyActions (map abs_action as)"

definition abs_flow :: "OfpFlowMod \<Rightarrow> flow_entry" where
  "abs_flow m =
     \<lparr>fe_table = TableId m, fe_command = Command m, fe_priority = Priority m, fe_cookie = Cookie m,
      fe_idle = IdleTimeout m, fe_hard = HardTimeout m,
      fe_match = map abs_oxm (OxmFields (FMatch m)), fe_instrs = map abs_instr (Instructions m)\<rparr>"

text \<open>
  The further conditions under which a switch accepts the message: no value bits outside a
  mask, only unmasked fields in set-field actions, prerequisites in order, a match whose
  fields do not already end on a multiple of eight bytes (\<open>OfpMatch.Size\<close> then adds eight
  bytes of padding too many), and sizes that fit the 16-bit length fields.
\<close>

fun oxm_clean :: "OxmField \<Rightarrow> bool" where
  "oxm_clean (OxmIpv4 h v m) \<longleftrightarrow> (h = OXM_OF_IPV4_DST_W \<longrightarrow> and_bytes (drop 12 v) m = drop 12 v)"
| "oxm_clean (OxmArpPa h v m) \<longleftrightarrow> (h = OXM_OF_ARP_TPA_W \<longrightarrow> and_bytes (drop 12 v) m = drop 12 v)"
| "oxm_clean f \<longleftrightarrow> True"

fun action_clean :: "OfpAction \<Rightarrow> bool" where
  "action_clean (OfpActionSetField h f) \<longleftrightarrow> oxm_clean f \<and> oxmHasMask (TlvHeader f) = 0"
| "action_clean a \<longleftrightarrow> True"

fun instr_clean :: "OfpInstruction \<Rightarrow> bool" where
  "instr_clean (OfpInstructionActions h as) \<longleftrightarrow> list_all action_clean as"
| "instr_clean i \<longleftrightarrow> True"

definition flow_mod_clean :: "OfpFlowMod \<Rightarrow> bool" where
  "flow_mod_clean m \<longleftrightarrow>
     HVersion (FHeader m) = 4 \<and> HType (FHeader m) = OFPT_FLOW_MOD \<and> MatchType (FMatch m) = OFPMT_OXM \<and>
     list_all oxm_clean (OxmFields (FMatch m)) \<and> (4 + match_fields_size (FMatch m)) mod 8 \<noteq> 0 \<and>
     prereqs_ok None (map abs_oxm (OxmFields (FMatch m))) \<and>
     list_all instr_clean (Instructions m) \<and> OfpFlowMod_Size m < 2 ^ 16"

subsection \<open>Decoding what was serialised\<close>

lemma dec_many_concat:
  assumes "\<forall>x\<in>set xs. enc x \<noteq> [] \<and> (\<forall>rest. dec (enc x @ rest) = Some (ab x, rest))"
    and "length (concat (map enc xs)) \<le> n"
  shows "dec_many dec n (concat (map enc xs)) = Some (map ab xs)"
  using assms
proof (induction xs arbitrary: n)
  case Nil
  then show ?case by (cases n) auto
next
  case (Cons x xs)
  then have "enc x \<noteq> []" by simp
  then have "1 \<le> length (enc x)" by (cases "enc x") auto
  then obtain n' where n: "n = Suc n'" "length (concat (map enc xs)) \<le> n'"
    using Cons.prems(2) by (cases n) auto
  then show ?case using Cons by simp
qed

lemma dec_oxm_payload:
  assumes "length p = unat (oxmLength h)"
  shows "dec_oxm (be32 h @ p @ rest) = map_option (\<lambda>f. (f, rest)) (dec_payload h p)"
  using assms by (simp add: dec_oxm_def Let_def)

lemma dec_masked_enc:
  assumes "length v = 4"
  shows "oxmHasMask h = 0 \<Longrightarrow> dec_masked mk h v = Some (mk v ones4)"
    and "oxmHasMask h = 1 \<Longrightarrow> length m = 4 \<Longrightarrow> and_bytes v m = v \<Longrightarrow> dec_masked mk h (v @ m) = Some (mk v m)"
  using assms by (simp_all add: dec_masked_def)

lemma dec_oxm_enc:
  assumes "oxm_ok f" and "oxm_clean f"
  shows "dec_oxm (enc_oxm f @ rest) = Some (abs_oxm f, rest)"
proof (cases f)
  case (OxmIpv4 h v m)
  then consider "h = OXM_OF_IPV4_DST" | "h = OXM_OF_IPV4_DST_W" "length m = 4" "and_bytes (drop 12 v) m = drop 12 v"
    using assms by auto
  then show ?thesis
  proof cases
    case 1
    then show ?thesis using OxmIpv4 assms
      by (simp add: dec_oxm_payload dec_payload_def dec_masked_enc)
  next
    case 2
    then show ?thesis using OxmIpv4 assms dec_oxm_payload [of "drop 12 v @ m" h rest]
      by (simp add: dec_payload_def dec_masked_enc)
  qed
next
  case (OxmArpPa h v m)
  then consider "h = OXM_OF_ARP_TPA" | "h = OXM_OF_ARP_TPA_W" "length m = 4" "and_bytes (drop 12 v) m = drop 12 v"
    using assms by auto
  then show ?thesis
  proof cases
    case 1
    then show ?thesis using OxmArpPa assms
      by (simp add: dec_oxm_payload dec_payload_def dec_masked_enc)
  next
    case 2
    then show ?thesis using OxmArpPa assms dec_oxm_payload [of "drop 12 v @ m" h rest]
      by (simp add: dec_payload_def dec_masked_enc)
  qed
qed (use assms in \<open>simp_all add: dec_oxm_payload dec_payload_def\<close>)

lemma enc_oxm_ne: "oxm_ok f \<Longrightarrow> enc_oxm f \<noteq> []"
  by (cases f) (auto simp: be32_def)

lemma of_be16_second: "of_be16 (drop 2 (be16 t @ be16 l @ r)) = l"
  by simp

lemma unat_of_nat_16: "n < 2 ^ 16 \<Longrightarrow> unat (of_nat n :: uint16) = n"
  by (simp add: unat_of_nat)

lemma zeros_replicate [simp]: "zeros (replicate n 0)"
  by (induction n) auto

lemma OxmField_Size_le: "oxm_ok f \<Longrightarrow> OxmField_Size f \<le> 12"
  by (cases f) (auto simp: OxmField_Size_def)

lemma dec_action_enc:
  assumes "action_ok a" and "action_clean a"
  shows "dec_action (enc_action a @ rest) = Some (abs_action a, rest)"
proof (cases a)
  case (OfpActionOutput h p l)
  then show ?thesis using assms by (simp add: dec_action_def Let_def)
next
  case (OfpActionSetField h f)
  then have f: "oxm_ok f" "oxm_clean f" "oxmHasMask (TlvHeader f) = 0" using assms by auto
  obtain l where l: "(OxmField_Size f + 11) div 8 * 8 = l" by simp
  let ?pad = "replicate (l - (4 + OxmField_Size f)) 0 :: bytes"
  have size: "4 + OxmField_Size f \<le> l" "8 \<le> l" "l \<le> 23" "l mod 8 = 0"
    "length (enc_oxm f) = OxmField_Size f"
    using oxm_action_size [OF f(1)] OxmField_Size_le [OF f(1)] OxmField_Serialize_ok(2) [OF f(1)]
    by (auto simp: l [symmetric])
  have len: "unat (of_nat l :: uint16) = l" using size by (intro unat_of_nat_16) simp
  have hd: "of_be32 (enc_oxm f @ r) = TlvHeader f" for r by (cases f) simp_all
  have body: "take (l - 4) (enc_oxm f @ ?pad @ rest) = enc_oxm f @ ?pad"
    using size by simp
  have enc: "enc_action a @ rest = be16 OFPAT_SET_FIELD @ be16 (of_nat l) @ (enc_oxm f @ ?pad @ rest)"
    using OfpActionSetField assms l by simp
  have rest: "drop l (be16 OFPAT_SET_FIELD @ be16 (of_nat l) @ (enc_oxm f @ ?pad @ rest)) = rest"
    using size by simp
  have parts: "of_be16 (be16 OFPAT_SET_FIELD @ be16 (of_nat l) @ r) = OFPAT_SET_FIELD"
    "of_be16 (drop 2 (be16 OFPAT_SET_FIELD @ be16 (of_nat l) @ r)) = of_nat l"
    "drop 4 (be16 OFPAT_SET_FIELD @ be16 (of_nat l) @ r) = r" for r by simp_all
  have long: "l \<le> length (be16 OFPAT_SET_FIELD @ be16 (of_nat l) @ (enc_oxm f @ ?pad @ rest))"
    using size by simp
  show ?thesis
    unfolding dec_action_def Let_def enc parts len body rest
    using size long f(3) dec_oxm_enc [OF f(1,2), of ?pad] hd [of ?pad] OfpActionSetField
    by (simp add: not_less)
qed

lemma enc_action_ne: "enc_action a \<noteq> []"
  by (cases a) (simp_all add: be16_def)

lemma dec_actions_enc:
  assumes "list_all action_ok as" and "list_all action_clean as" and "sum_list (map OfpAction_Size as) \<le> n"
  shows "dec_many dec_action n (concat (map enc_action as)) = Some (map abs_action as)"
  using assms enc_actions_length [of as]
  by (intro dec_many_concat) (auto simp: list_all_iff enc_action_ne dec_action_enc)

lemma enc_instr_ne: "enc_instr i \<noteq> []"
  by (cases i) (simp_all add: be16_def)

lemma dec_instr_enc:
  assumes "instr_ok i" and "instr_clean i" and "OfpInstruction_Size i < 2 ^ 16"
  shows "dec_instr (enc_instr i @ rest) = Some (abs_instr i, rest)"
proof (cases i)
  case (OfpInstructionGotoTable h t)
  have nth4: "(be16 a @ be16 b @ t # r) ! 4 = t" for a b r by (simp add: nth_append)
  show ?thesis using OfpInstructionGotoTable assms nth4
    by (simp add: dec_instr_def Let_def)
next
  case (OfpInstructionActions h as)
  obtain l where l: "8 + sum_list (map OfpAction_Size as) = l" by simp
  let ?A = "concat (map enc_action as)"
  have ok: "list_all action_ok as" "list_all action_clean as" "InstType h = OFPIT_APPLY_ACTIONS"
    using OfpInstructionActions assms by auto
  have size: "8 \<le> l" "length ?A = l - 8" "l < 2 ^ 16"
    using OfpInstructionActions assms(3) l enc_actions_length [OF ok(1)] by (auto simp: foldl_size)
  have len: "unat (of_nat l :: uint16) = l" using size by (intro unat_of_nat_16)
  let ?bs = "be16 OFPIT_APPLY_ACTIONS @ be16 (of_nat l) @ replicate 4 0 @ ?A @ rest"
  have enc: "enc_instr i @ rest = ?bs" using OfpInstructionActions ok(3) l by simp
  have parts: "of_be16 ?bs = OFPIT_APPLY_ACTIONS" "of_be16 (drop 2 ?bs) = of_nat l"
    "take 4 (drop 4 ?bs) = replicate 4 0" "drop 8 ?bs = ?A @ rest" "take (l - 8) (?A @ rest) = ?A"
    "drop l ?bs = rest" "length ?bs = l + length rest"
    using size by simp_all
  have acts: "dec_many dec_action l ?A = Some (map abs_action as)"
    using ok l by (intro dec_actions_enc) auto
  show ?thesis
    unfolding dec_instr_def Let_def enc parts len
    using size acts OfpInstructionActions by simp
qed

lemma dec_match_enc:
  assumes "match_ok m" and "MatchType m = OFPMT_OXM" and "list_all oxm_clean (OxmFields m)"
    and "(4 + match_fields_size m) mod 8 \<noteq> 0" and "prereqs_ok None (map abs_oxm (OxmFields m))"
    and "OfpMatch_Size m < 2 ^ 16"
  shows "dec_match (enc_match m @ rest) = Some (map abs_oxm (OxmFields m), rest)"
proof -
  obtain l where l: "4 + match_fields_size m = l" by simp
  let ?F = "concat (map enc_oxm (OxmFields m))"
  let ?pad = "replicate (8 - l mod 8) 0 :: bytes"
  let ?bs = "be16 OFPMT_OXM @ be16 (of_nat l) @ ?F @ ?pad @ rest"
  have p: "(l + 7) div 8 * 8 = l + (8 - l mod 8)" using assms(4) unfolding l by presburger
  have F: "length ?F = l - 4" "4 \<le> l"
    using OfpMatch_Serialize_ok(2) [OF assms(1)] l by (auto simp: enc_match_def OfpMatch_Size_eq)
  have small: "l < 2 ^ 16" using assms(6) l by (simp add: OfpMatch_Size_eq)
  have len: "unat (of_nat l :: uint16) = l" using small by (rule unat_of_nat_16)
  have enc: "enc_match m @ rest = ?bs" using assms(2) l by (simp add: enc_match_def)
  have parts: "of_be16 ?bs = OFPMT_OXM" "of_be16 (drop 2 ?bs) = of_nat l"
    "take (l - 4) (drop 4 ?bs) = ?F" "drop l ?bs = ?pad @ rest" "drop (l + (8 - l mod 8)) ?bs = rest"
    "length ?bs = l + (8 - l mod 8) + length rest"
    using F by simp_all
  have pad: "drop l (take (l + (8 - l mod 8)) ?bs) = ?pad"
    unfolding drop_take parts by simp
  have fields: "dec_many dec_oxm l ?F = Some (map abs_oxm (OxmFields m))"
    using assms(1,3) F enc_oxm_ne dec_oxm_enc
    by (intro dec_many_concat) (auto simp: match_ok_def list_all_iff)
  show ?thesis
    unfolding dec_match_def Let_def enc parts len p pad fields
    using F assms(5) by (cases "8 - l mod 8") simp_all
qed

lemma drop_exact: "length a = n \<Longrightarrow> drop n (a @ b) = b"
  by simp

text \<open>Reading the fixed part: the bytes before and after a field.\<close>

lemma flow_mod_fixed:
  fixes tail :: bytes
  assumes "bs = enc_header h @ enc_fixed m @ tail"
  shows "drop 48 bs = tail" and "bs ! 0 = HVersion h" and "bs ! 1 = HType h"
    and "of_be16 (drop 2 bs) = HLength h" and "bs ! 24 = TableId m" and "bs ! 25 = Command m"
    and "of_be16 (drop 30 bs) = Priority m" and "of_be64 (drop 8 bs) = Cookie m"
    and "of_be16 (drop 26 bs) = IdleTimeout m" and "of_be16 (drop 28 bs) = HardTimeout m"
  unfolding assms by (simp_all add: enc_fixed_def enc_header_def nth_append)

lemma flow_mod_decodes:
  assumes ok: "flow_mod_ok m" and clean: "flow_mod_clean m"
  shows "dec_flow_mod (enc_flow_mod m) = Some (abs_flow m)"
proof -
  let ?h = "(FHeader m)\<lparr>HLength := of_nat (OfpFlowMod_Size m)\<rparr>"
  let ?I = "concat (map enc_instr (Instructions m))"
  let ?bs = "enc_flow_mod m"
  have bs: "?bs = enc_header ?h @ enc_fixed m @ (enc_match (FMatch m) @ ?I)"
    by (simp add: enc_flow_mod_def)
  note fixed = flow_mod_fixed [OF bs]
  have small: "OfpFlowMod_Size m < 2 ^ 16" using clean by (simp add: flow_mod_clean_def)
  then have len: "unat (of_nat (OfpFlowMod_Size m) :: uint16) = length ?bs"
    using enc_flow_mod_length [OF ok] by (simp add: unat_of_nat_16)
  have "8 \<le> OfpMatch_Size (FMatch m)" by (simp add: OfpMatch_Size_eq)
  then have long: "56 \<le> length ?bs"
    using enc_flow_mod_length [OF ok] by (simp add: OfpFlowMod_Size_eq)
  have m: "dec_match (enc_match (FMatch m) @ ?I) = Some (map abs_oxm (OxmFields (FMatch m)), ?I)"
    using ok clean small by (intro dec_match_enc) (auto simp: flow_mod_ok_def flow_mod_clean_def OfpFlowMod_Size_eq)
  have each: "OfpInstruction_Size i < 2 ^ 16" if "i \<in> set (Instructions m)" for i
    using small member_le_sum_list [of "OfpInstruction_Size i" "map OfpInstruction_Size (Instructions m)"] that
    by (simp add: OfpFlowMod_Size_eq)
  have ins: "dec_many dec_instr (length ?I) ?I = Some (map abs_instr (Instructions m))"
    using ok clean each
    by (intro dec_many_concat) (auto simp: flow_mod_ok_def flow_mod_clean_def list_all_iff enc_instr_ne dec_instr_enc)
  show ?thesis
    unfolding dec_flow_mod_def fixed m
    using clean len long ins by (simp add: abs_flow_def flow_mod_clean_def)
qed

end
