(* ===== verification/Ofp_Messages.thy ===== *)
theory Ofp_Messages
  imports Ofp_Wire
begin

text \<open>
  The other OpenFlow messages that pass between kube-ovs and the switch: hello, echo,
  features, errors and port status, with \<open>ofp13.Parse\<close>, which turns a received packet into
  a message, and the message-level functions of \<open>connection/openflow.go\<close>.

  Messages of a type that kube-ovs only discards (packet-in, flow-removed, multipart,
  queue, role and async replies) are parsed by code of the package that is not modelled: it
  is the parameter \<open>parse_other\<close>, which gives the outcome for a type and a packet. Every
  such parser, too, first draws a transaction identifier for the header it overwrites.
\<close>

subsection \<open>Hello, features, errors, port status\<close>

record OfpHelloElemHeader =
  ElemType :: uint16
  ElemLength :: uint16

record OfpHello =
  HelloHeader :: OfpHeader
  HelloElements :: "OfpHelloElemHeader list"

definition NewOfpHello :: "uint32 \<Rightarrow> OfpHello \<times> uint32" where
  "NewOfpHello xid =
     (let (header, xid) = NewOfpHeader OFPT_HELLO xid
      in (\<lparr>HelloHeader = header, HelloElements = []\<rparr>, xid))"

definition OfpHelloElemHeader_Serialize :: "OfpHelloElemHeader \<Rightarrow> bytes outcome" where
  "OfpHelloElemHeader_Serialize h =
     (let packet = make_bytes 8 in
      bind_outcome (PutUint16 packet 0 (ElemType h)) (\<lambda>packet.
      PutUint16 packet 2 (ElemLength h)))"

definition OfpHelloElemHeader_Parse :: "bytes \<Rightarrow> OfpHelloElemHeader outcome" where
  "OfpHelloElemHeader_Parse packet =
     bind_outcome (Uint16 packet 0) (\<lambda>t.
     bind_outcome (Uint16 packet 2) (\<lambda>l.
     Returns \<lparr>ElemType = t, ElemLength = l\<rparr>))"

definition OfpHello_Size :: "OfpHello \<Rightarrow> nat" where
  "OfpHello_Size m = foldl (\<lambda>sz e. sz + 8) 8 (HelloElements m)"

definition OfpHello_Serialize :: "OfpHello \<Rightarrow> bytes outcome" where
  "OfpHello_Serialize m =
     (let packet = make_bytes (OfpHello_Size m) in
      bind_outcome (OfpHeader_Serialize (HelloHeader m)) (\<lambda>h_packet.
      bind_outcome (copy_at packet 0 h_packet) (\<lambda>packet.
      copy_loop OfpHelloElemHeader_Serialize (\<lambda>_. 8) packet (length h_packet) (HelloElements m))))"

text \<open>
  The loop of \<open>OfpHello.Parse\<close> reads the elements and drops them; \<open>e.Size()\<close> is always 8.
\<close>

function OfpHello_elems :: "bytes \<Rightarrow> nat \<Rightarrow> unit outcome" where
  "OfpHello_elems packet index =
     (if index < length packet then
        bind_outcome (slice_from packet index) (\<lambda>p.
        bind_outcome (OfpHelloElemHeader_Parse p) (\<lambda>e.
        OfpHello_elems packet (index + 8)))
      else Returns ())"
  by pat_completeness auto
termination
  by (relation "measure (\<lambda>(packet, index). length packet - index)") auto

declare OfpHello_elems.simps [simp del]

definition OfpHello_Parse :: "bytes \<Rightarrow> OfpHello outcome" where
  "OfpHello_Parse packet =
     bind_outcome (OfpHeader_Parse packet) (\<lambda>header.
     bind_outcome (OfpHello_elems packet 8) (\<lambda>_.
     Returns \<lparr>HelloHeader = header, HelloElements = []\<rparr>))"

record OfpSwitchFeatures =
  FeatHeader :: OfpHeader
  DatapathId :: uint64
  NBuffers :: uint32
  NTables :: uint8
  AuxiliaryId :: uint8
  FeatPad :: "uint8 \<times> uint8"
  Capabilities :: uint32
  Reserved :: uint32

definition OfpSwitchFeatures_Parse :: "bytes \<Rightarrow> OfpSwitchFeatures outcome" where
  "OfpSwitchFeatures_Parse packet =
     bind_outcome (OfpHeader_Parse packet) (\<lambda>header.
     bind_outcome (Uint64 packet 8) (\<lambda>dpid.
     bind_outcome (Uint32 packet 16) (\<lambda>nbuf.
     bind_outcome (get_at packet 20) (\<lambda>ntab.
     bind_outcome (get_at packet 21) (\<lambda>aux.
     bind_outcome (get_at packet 22) (\<lambda>p0.
     bind_outcome (get_at packet 23) (\<lambda>p1.
     bind_outcome (Uint32 packet 24) (\<lambda>caps.
     bind_outcome (Uint32 packet 28) (\<lambda>res.
     Returns \<lparr>FeatHeader = header, DatapathId = dpid, NBuffers = nbuf, NTables = ntab,
       AuxiliaryId = aux, FeatPad = (p0, p1), Capabilities = caps, Reserved = res\<rparr>)))))))))"

record OfpErrorMsg =
  ErrHeader :: OfpHeader
  ErrType :: uint16
  ErrCode :: uint16
  ErrData :: bytes

definition OfpErrorMsg_Parse :: "bytes \<Rightarrow> OfpErrorMsg outcome" where
  "OfpErrorMsg_Parse packet =
     bind_outcome (OfpHeader_Parse packet) (\<lambda>header.
     bind_outcome (Uint16 packet 8) (\<lambda>t.
     bind_outcome (Uint16 packet 10) (\<lambda>c.
     Returns \<lparr>ErrHeader = header, ErrType = t, ErrCode = c, ErrData = drop 12 packet\<rparr>)))"

record OfpPort =
  PortNo :: uint32
  HwAddr :: HardwareAddr
  PortName :: bytes
  Config :: uint32
  PortState :: uint32
  Curr :: uint32
  Advertised :: uint32
  Supported :: uint32
  Peer :: uint32
  CurrSpeed :: uint32
  MaxSpeed :: uint32

fun get_bytes :: "bytes \<Rightarrow> nat \<Rightarrow> nat \<Rightarrow> bytes outcome" where
  "get_bytes packet i 0 = Returns []"
| "get_bytes packet i (Suc n) =
     bind_outcome (get_at packet i) (\<lambda>b. map_outcome ((#) b) (get_bytes packet (i + 1) n))"

definition OfpPort_Parse :: "bytes \<Rightarrow> OfpPort outcome" where
  "OfpPort_Parse packet =
     bind_outcome (Uint32 packet 0) (\<lambda>no.
     bind_outcome (get_bytes packet 8 6) (\<lambda>addr.
     bind_outcome (slice_from packet 16) (\<lambda>rest.
     bind_outcome (copy_at (make_bytes 16) 0 rest) (\<lambda>name.
     bind_outcome (Uint32 packet 32) (\<lambda>config.
     bind_outcome (Uint32 packet 36) (\<lambda>st.
     bind_outcome (Uint32 packet 40) (\<lambda>curr.
     bind_outcome (Uint32 packet 44) (\<lambda>adv.
     bind_outcome (Uint32 packet 48) (\<lambda>supp.
     bind_outcome (Uint32 packet 52) (\<lambda>peer.
     bind_outcome (Uint32 packet 56) (\<lambda>cs.
     bind_outcome (Uint32 packet 60) (\<lambda>ms.
     Returns \<lparr>PortNo = no, HwAddr = addr, PortName = name, Config = config, PortState = st,
       Curr = curr, Advertised = adv, Supported = supp, Peer = peer, CurrSpeed = cs,
       MaxSpeed = ms\<rparr>))))))))))))"

record OfpPortStatus =
  StatusHeader :: OfpHeader
  Reason :: uint8
  Desc :: OfpPort

definition OfpPortStatus_Parse :: "bytes \<Rightarrow> OfpPortStatus outcome" where
  "OfpPortStatus_Parse packet =
     bind_outcome (OfpHeader_Parse packet) (\<lambda>header.
     bind_outcome (get_at packet 8) (\<lambda>reason.
     bind_outcome (slice_from packet 16) (\<lambda>p.
     bind_outcome (OfpPort_Parse p) (\<lambda>desc.
     Returns \<lparr>StatusHeader = header, Reason = reason, Desc = desc\<rparr>))))"

subsection \<open>Messages\<close>

text \<open>
  The dynamic type of an \<open>OFMessage\<close>: \<open>NilMsg\<close> is the nil interface that \<open>Parse\<close> returns
  for a type it does not know, \<open>OtherMsg\<close> a message of a type kube-ovs does not look at,
  given by its type and the outcome of its \<open>Serialize\<close>.
\<close>

datatype OFMessage =
    HeaderMsg OfpHeader
  | HelloMsg OfpHello
  | SwitchFeaturesMsg OfpSwitchFeatures
  | FlowModMsg OfpFlowMod
  | ErrorMsg OfpErrorMsg
  | PortStatusMsg OfpPortStatus
  | OtherMsg uint8 "bytes outcome"
  | NilMsg

definition NewOfpEchoRequest :: "uint32 \<Rightarrow> OFMessage \<times> uint32" where
  "NewOfpEchoRequest xid = map_prod HeaderMsg id (NewOfpHeader OFPT_ECHO_REQUEST xid)"

definition NewOfpEchoReply :: "uint32 \<Rightarrow> OFMessage \<times> uint32" where
  "NewOfpEchoReply xid = map_prod HeaderMsg id (NewOfpHeader OFPT_ECHO_REPLY xid)"

definition NewOfpFeaturesRequest :: "uint32 \<Rightarrow> OFMessage \<times> uint32" where
  "NewOfpFeaturesRequest xid = map_prod HeaderMsg id (NewOfpHeader OFPT_FEATURES_REQUEST xid)"

type_synonym other_parser = "uint8 \<Rightarrow> bytes \<Rightarrow> OFMessage outcome"

abbreviation header_types :: "uint8 set" where
  "header_types \<equiv> {OFPT_ECHO_REQUEST, OFPT_ECHO_REPLY, 8, 21}"

abbreviation other_types :: "uint8 set" where
  "other_types \<equiv> {10, 11, 19, 23, 25, 27}"

definition Parse :: "other_parser \<Rightarrow> bytes \<Rightarrow> uint32 \<Rightarrow> (OFMessage \<times> uint32) outcome" where
  "Parse parse_other packet xid =
     bind_outcome (get_at packet 1) (\<lambda>t.
     if t = OFPT_HELLO then
       map_outcome (\<lambda>m. (HelloMsg m, xid)) (OfpHello_Parse packet)
     else if t = OFPT_ERROR then
       map_outcome (\<lambda>m. (ErrorMsg m, xid)) (OfpErrorMsg_Parse packet)
     else if t \<in> header_types then
       map_outcome (\<lambda>h. (HeaderMsg h, xid + 1)) (OfpHeader_Parse packet)
     else if t = OFPT_FEATURES_REPLY then
       map_outcome (\<lambda>m. (SwitchFeaturesMsg m, xid + 1)) (OfpSwitchFeatures_Parse packet)
     else if t = 12 then
       map_outcome (\<lambda>m. (PortStatusMsg m, xid + 1)) (OfpPortStatus_Parse packet)
     else if t \<in> other_types then
       map_outcome (\<lambda>m. (m, xid + 1)) (parse_other t packet)
     else Returns (NilMsg, xid))"

definition OfpErrorMsg_Serialize :: "OfpErrorMsg \<Rightarrow> bytes outcome" where
  "OfpErrorMsg_Serialize m =
     (let packet = make_bytes (8 + 8 + length (ErrData m)) in
      bind_outcome (OfpHeader_Serialize (ErrHeader m)) (\<lambda>h_packet.
      bind_outcome (copy_at packet 0 h_packet) (\<lambda>packet.
      bind_outcome (PutUint16 packet 8 (ErrType m)) (\<lambda>packet.
      bind_outcome (PutUint16 packet 10 (ErrCode m)) (\<lambda>packet.
      store_loop packet 12 (ErrData m) 0 (length (ErrData m)))))))"

text \<open>
  \<open>OfpSwitchFeatures.Serialize\<close> writes into \<open>packet[index:8]\<close> with \<open>index = 8\<close>: the slice is
  empty and the first write panics. \<open>OfpPortStatus.Serialize\<close> returns nil.
\<close>

definition OfpSwitchFeatures_Serialize :: "OfpSwitchFeatures \<Rightarrow> bytes outcome" where
  "OfpSwitchFeatures_Serialize m =
     (let packet = make_bytes (8 + 24) in
      bind_outcome (OfpHeader_Serialize (FeatHeader m)) (\<lambda>h_packet.
      bind_outcome (copy_at packet 0 h_packet) (\<lambda>packet.
      PutUint64 (take 0 (drop 8 packet)) 0 (DatapathId m))))"

fun Serialize :: "OFMessage \<Rightarrow> bytes outcome" where
  "Serialize (HeaderMsg h) = OfpHeader_Serialize h"
| "Serialize (HelloMsg m) = OfpHello_Serialize m"
| "Serialize (SwitchFeaturesMsg m) = OfpSwitchFeatures_Serialize m"
| "Serialize (FlowModMsg m) = OfpFlowMod_Serialize m"
| "Serialize (ErrorMsg m) = OfpErrorMsg_Serialize m"
| "Serialize (PortStatusMsg m) = Returns []"
| "Serialize (OtherMsg t ser) = ser"
| "Serialize NilMsg = Panics NilDereference"

definition SerializeMessage :: "OFMessage \<Rightarrow> bytes outcome" where
  "SerializeMessage msg = Serialize msg"

definition ParseMessage :: "other_parser \<Rightarrow> bytes \<Rightarrow> uint32 \<Rightarrow> (OFMessage \<times> uint32) outcome" where
  "ParseMessage parse_other buf xid = Parse parse_other buf xid"

definition MessageLength :: "bytes \<Rightarrow> nat outcome" where
  "MessageLength buf = map_outcome unat (Uint16 buf 2)"

subsection \<open>Round trips and totality\<close>

lemma OfpHeader_Parse_enc: "OfpHeader_Parse (enc_header h @ r) = Returns h"
  by (simp add: OfpHeader_Parse_def enc_header_def get_be_def)

lemma OfpHeader_Parse_total:
  assumes "8 \<le> length packet"
  shows "\<exists>h. OfpHeader_Parse packet = Returns h \<and> HType h = packet ! 1 \<and> HXid h = of_be32 (drop 4 packet)"
proof -
  have "packet \<noteq> []" using assms by auto
  then show ?thesis using assms by (simp add: OfpHeader_Parse_def get_be_def)
qed

lemma OfpHello_elems_total:
  assumes "length packet = index + 8 * k"
  shows "OfpHello_elems packet index = Returns ()"
  using assms
proof (induction k arbitrary: index)
  case 0
  then show ?case by (subst OfpHello_elems.simps) simp
next
  case (Suc k)
  then show ?case
    by (subst OfpHello_elems.simps)
      (simp add: slice_from_def OfpHelloElemHeader_Parse_def get_be_def)
qed

lemma OfpSwitchFeatures_Parse_total:
  assumes "32 \<le> length packet"
  shows "\<exists>m. OfpSwitchFeatures_Parse packet = Returns m \<and> DatapathId m = of_be64 (drop 8 packet)"
proof -
  have "8 \<le> length packet" using assms by simp
  then obtain h where "OfpHeader_Parse packet = Returns h" using OfpHeader_Parse_total by blast
  then show ?thesis using assms by (simp add: OfpSwitchFeatures_Parse_def get_be_def)
qed

lemma OfpHello_Serialize_new:
  "OfpHello_Serialize (fst (NewOfpHello xid)) = Returns (enc_header (HelloHeader (fst (NewOfpHello xid))))"
  by (simp add: OfpHello_Serialize_def OfpHello_Size_def NewOfpHello_def NewOfpHeader_def nextXid_def
    make_bytes_def OfpHeader_Serialize_eq pad_simps)

lemma NewOfpHeader_simps [simp]:
  "NewOfpHeader t xid = (\<lparr>HVersion = 4, HType = t, HLength = 8, HXid = xid\<rparr>, xid + 1)"
  by (simp add: NewOfpHeader_def nextXid_def)

definition enc_hello_elem :: "OfpHelloElemHeader \<Rightarrow> bytes" where
  "enc_hello_elem e = be16 (ElemType e) @ be16 (ElemLength e) @ replicate 4 0"

lemma OfpHelloElemHeader_Serialize_eq: "OfpHelloElemHeader_Serialize e = Returns (enc_hello_elem e)"
proof -
  have "OfpHelloElemHeader_Serialize e = Returns ((be16 (ElemType e) @ be16 (ElemLength e)) @ replicate 4 0)"
    by (simp add: OfpHelloElemHeader_Serialize_def make_bytes_def pad_simps del: append_assoc)
  then show ?thesis by (simp add: enc_hello_elem_def)
qed

lemma OfpHello_Size_eq: "OfpHello_Size m = 8 + 8 * length (HelloElements m)"
  by (simp add: OfpHello_Size_def foldl_size sum_list_triv)

lemma OfpHello_Serialize_eq:
  "OfpHello_Serialize m = Returns (enc_header (HelloHeader m) @ concat (map enc_hello_elem (HelloElements m)))"
proof -
  let ?n = "8 * length (HelloElements m)"
  have sz: "sum_list (map (\<lambda>_. 8 :: nat) (HelloElements m)) = ?n" by (simp add: sum_list_triv)
  have "copy_loop OfpHelloElemHeader_Serialize (\<lambda>_. 8) (enc_header (HelloHeader m) @ replicate ?n 0) 8 (HelloElements m) =
      Returns ((enc_header (HelloHeader m) @ concat (map enc_hello_elem (HelloElements m))) @ replicate (?n - ?n) 0)"
    unfolding sz [symmetric]
    by (rule copy_loop_pad) (simp_all add: OfpHelloElemHeader_Serialize_eq enc_hello_elem_def)
  then show ?thesis
    by (simp add: OfpHello_Serialize_def OfpHello_Size_eq make_bytes_def OfpHeader_Serialize_eq pad_simps)
qed

lemma OfpErrorMsg_Serialize_eq:
  "OfpErrorMsg_Serialize m = Returns (enc_header (ErrHeader m) @ be16 (ErrType m) @ be16 (ErrCode m) @ ErrData m @ replicate 4 0)"
proof -
  have "OfpErrorMsg_Serialize m =
      Returns ((((enc_header (ErrHeader m) @ be16 (ErrType m)) @ be16 (ErrCode m)) @ ErrData m) @ replicate 4 0)"
    by (simp add: OfpErrorMsg_Serialize_def make_bytes_def OfpHeader_Serialize_eq pad_simps del: append_assoc)
  then show ?thesis by simp
qed

lemma OfpHello_elems_enc: "OfpHello_elems (enc_header h @ concat (map enc_hello_elem es)) 8 = Returns ()"
  by (rule OfpHello_elems_total [where k = "length es"])
    (simp add: length_concat comp_def enc_hello_elem_def sum_list_triv)

lemma enc_header_type: "enc_header h ! Suc 0 = HType h" "(enc_header h @ r) ! Suc 0 = HType h"
  by (simp_all add: enc_header_def)

text \<open>
  The messages both ends of the connection exchange, and what \<open>ParseMessage\<close> makes of each: it
  drops the elements of a hello, gives an error four bytes of padding for data (\<open>Size\<close> counts 8
  bytes for type and code, which take 4), and does not know flow modifications.
\<close>

fun sendable :: "OFMessage \<Rightarrow> bool" where
  "sendable (HelloMsg h) \<longleftrightarrow> HType (HelloHeader h) = OFPT_HELLO"
| "sendable (HeaderMsg h) \<longleftrightarrow> HType h \<in> header_types"
| "sendable (ErrorMsg e) \<longleftrightarrow> HType (ErrHeader e) = OFPT_ERROR"
| "sendable (FlowModMsg f) \<longleftrightarrow> flow_mod_ok f \<and> flow_mod_clean f"
| "sendable _ \<longleftrightarrow> False"

fun received :: "OFMessage \<Rightarrow> OFMessage" where
  "received (HelloMsg h) = HelloMsg (h\<lparr>HelloElements := []\<rparr>)"
| "received (ErrorMsg e) = ErrorMsg (e\<lparr>ErrData := ErrData e @ [0, 0, 0, 0]\<rparr>)"
| "received (FlowModMsg f) = NilMsg"
| "received m = m"



end
