(* ===== verification/Go_Json.thy ===== *)
theory Go_Json
  imports Go_Net
begin

text \<open>
  The part of Go's \<open>encoding/json\<close> that kube-ovs uses: reading a document into a value and
  storing it into a struct by field name. Strings are byte sequences and are assumed to be
  valid UTF-8 (Go replaces invalid bytes by U+FFFD).

  The reader takes fuel; every call of \<open>json_value\<close>, \<open>json_array\<close> and \<open>json_object\<close>
  consumes a character before the next, so \<open>json_Parse\<close> starts them with more fuel than the
  document has characters.
\<close>

datatype json =
    JNull
  | JBool bool
  | JNum string
  | JStr string
  | JArr "json list"
  | JObj "(string \<times> json) list"

subsection \<open>Lexical structure\<close>

definition json_space :: "char \<Rightarrow> bool" where
  "json_space c \<longleftrightarrow> c \<in> {CHR '' '', CHR 0x09, CHR 0x0A, CHR 0x0D}"

definition skip_ws :: "string \<Rightarrow> string" where
  "skip_ws s = dropWhile json_space s"

abbreviation (input) quote_char :: char where "quote_char \<equiv> CHR 0x22"
abbreviation (input) backslash :: char where "backslash \<equiv> CHR 0x5C"

fun hex4 :: "string \<Rightarrow> (nat \<times> string) option" where
  "hex4 (a # b # c # d # r) =
     (case (hex_val a, hex_val b, hex_val c, hex_val d) of
        (Some w, Some x, Some y, Some z) \<Rightarrow> Some (((w * 16 + x) * 16 + y) * 16 + z, r)
      | _ \<Rightarrow> None)"
| "hex4 _ = None"

definition utf8 :: "nat \<Rightarrow> string" where
  "utf8 n =
     (if n < 0x80 then [char_of n]
      else if n < 0x800 then [char_of (0xC0 + n div 64), char_of (0x80 + n mod 64)]
      else if n < 0x10000
      then [char_of (0xE0 + n div 4096), char_of (0x80 + n div 64 mod 64), char_of (0x80 + n mod 64)]
      else [char_of (0xF0 + n div 262144), char_of (0x80 + n div 4096 mod 64),
            char_of (0x80 + n div 64 mod 64), char_of (0x80 + n mod 64)])"

definition surrogate :: "nat \<Rightarrow> bool" where
  "surrogate n \<longleftrightarrow> 0xD800 \<le> n \<and> n < 0xE000"

text \<open>The characters after \<open>\u\<close>: a code point, or a surrogate pair.\<close>

definition unicode_escape :: "string \<Rightarrow> (string \<times> string) option" where
  "unicode_escape s =
     (case hex4 s of
        None \<Rightarrow> None
      | Some (n, r) \<Rightarrow>
          if \<not> surrogate n then Some (utf8 n, r)
          else (case (if has_prefix r [backslash, CHR ''u''] then hex4 (drop 2 r) else None) of
                  Some (m, r') \<Rightarrow>
                    if n < 0xDC00 \<and> 0xDC00 \<le> m \<and> m < 0xE000
                    then Some (utf8 (0x10000 + (n - 0xD800) * 1024 + (m - 0xDC00)), r')
                    else Some (utf8 0xFFFD, r)
                | None \<Rightarrow> Some (utf8 0xFFFD, r)))"

definition simple_escape :: "char \<Rightarrow> char option" where
  "simple_escape e =
     (if e = quote_char \<or> e = backslash \<or> e = CHR ''/'' then Some e
      else if e = CHR ''b'' then Some (CHR 0x08)
      else if e = CHR ''f'' then Some (CHR 0x0C)
      else if e = CHR ''n'' then Some (CHR 0x0A)
      else if e = CHR ''r'' then Some (CHR 0x0D)
      else if e = CHR ''t'' then Some (CHR 0x09)
      else None)"

lemma hex4_length: "hex4 s = Some (n, r) \<Longrightarrow> length r < length s"
  by (induction s rule: hex4.induct) (auto split: option.splits)

lemma unicode_escape_length: "unicode_escape s = Some (v, r) \<Longrightarrow> length r < length s"
  unfolding unicode_escape_def
  by (fastforce split: option.splits if_splits prod.splits dest!: hex4_length)

text \<open>The rest of a string literal, after the opening quote.\<close>

function json_string :: "string \<Rightarrow> (string \<times> string) option" where
  "json_string [] = None"
| "json_string (c # cs) =
     (if c = quote_char then Some ([], cs)
      else if c = backslash then
        (case cs of
           [] \<Rightarrow> None
         | e # r \<Rightarrow>
             if e = CHR ''u'' then
               (case unicode_escape r of
                  None \<Rightarrow> None
                | Some (v, r') \<Rightarrow> map_option (map_prod ((@) v) id) (json_string r'))
             else
               (case simple_escape e of
                  None \<Rightarrow> None
                | Some d \<Rightarrow> map_option (map_prod ((#) d) id) (json_string r)))
      else if (of_char c :: nat) < 0x20 then None
      else map_option (map_prod ((#) c) id) (json_string cs))"
  by pat_completeness auto
termination
  by (relation "measure length") (auto dest!: unicode_escape_length)

text \<open>A number: optional minus, integer part without leading zero, fraction, exponent.\<close>

definition digits :: "string \<Rightarrow> string \<times> string" where
  "digits s = (takeWhile is_digit s, dropWhile is_digit s)"

definition json_number :: "string \<Rightarrow> (string \<times> string) option" where
  "json_number s =
     (let (sign, s1) = (if has_prefix s ''-'' then (''-'', tl s) else ([], s));
          (int, s2) = (if has_prefix s1 ''0'' then (''0'', tl s1) else digits s1);
          (frac, s3) = (if has_prefix s2 ''.'' then (let (d, r) = digits (tl s2) in (CHR ''.'' # d, r)) else ([], s2));
          (ex, s4) = (case s3 of
              c # r \<Rightarrow>
                if c = CHR ''e'' \<or> c = CHR ''E'' then
                  (let (sg, r') = (case r of x # xs \<Rightarrow> if x = CHR ''+'' \<or> x = CHR ''-'' then ([x], xs) else ([], r) | [] \<Rightarrow> ([], r));
                       (d, r'') = digits r'
                   in (c # sg @ d, r''))
                else ([], s3)
            | [] \<Rightarrow> ([], s3))
      in if int = [] \<or> frac = ''.'' \<or> (ex \<noteq> [] \<and> \<not> is_digit (last ex)) then None
         else Some (sign @ int @ frac @ ex, s4))"

subsection \<open>Values\<close>

fun json_value :: "nat \<Rightarrow> string \<Rightarrow> (json \<times> string) option"
and json_array :: "nat \<Rightarrow> string \<Rightarrow> (json list \<times> string) option"
and json_object :: "nat \<Rightarrow> string \<Rightarrow> ((string \<times> json) list \<times> string) option" where
  "json_value 0 s = None"
| "json_value (Suc n) s =
     (case skip_ws s of
        [] \<Rightarrow> None
      | c # cs \<Rightarrow>
          if c = quote_char then map_option (map_prod JStr id) (json_string cs)
          else if c = CHR ''['' then
            (if has_prefix (skip_ws cs) '']'' then Some (JArr [], tl (skip_ws cs))
             else map_option (map_prod JArr id) (json_array n cs))
          else if c = CHR 0x7B then
            (if has_prefix (skip_ws cs) [CHR 0x7D] then Some (JObj [], tl (skip_ws cs))
             else map_option (map_prod JObj id) (json_object n cs))
          else if has_prefix (c # cs) ''null'' then Some (JNull, drop 3 cs)
          else if has_prefix (c # cs) ''true'' then Some (JBool True, drop 3 cs)
          else if has_prefix (c # cs) ''false'' then Some (JBool False, drop 4 cs)
          else map_option (map_prod JNum id) (json_number (c # cs)))"
| "json_array 0 s = None"
| "json_array (Suc n) s =
     (case json_value n s of
        None \<Rightarrow> None
      | Some (v, r) \<Rightarrow>
          (case skip_ws r of
             [] \<Rightarrow> None
           | c # cs \<Rightarrow>
               if c = CHR '']'' then Some ([v], cs)
               else if c = CHR '','' then map_option (map_prod ((#) v) id) (json_array n cs)
               else None))"
| "json_object 0 s = None"
| "json_object (Suc n) s =
     (case skip_ws s of
        [] \<Rightarrow> None
      | q # k \<Rightarrow>
          if q \<noteq> quote_char then None
          else (case json_string k of
                  None \<Rightarrow> None
                | Some (key, r) \<Rightarrow>
                    if \<not> has_prefix (skip_ws r) '':'' then None
                    else (case json_value n (tl (skip_ws r)) of
                            None \<Rightarrow> None
                          | Some (v, r') \<Rightarrow>
                              (case skip_ws r' of
                                 [] \<Rightarrow> None
                               | c # cs \<Rightarrow>
                                   if c = CHR 0x7D then Some ([(key, v)], cs)
                                   else if c = CHR '','' then
                                     map_option (map_prod ((#) (key, v)) id) (json_object n cs)
                                   else None))))"

definition json_Parse :: "string \<Rightarrow> json option" where
  "json_Parse s =
     (case json_value (2 * length s + 2) s of
        None \<Rightarrow> None
      | Some (v, r) \<Rightarrow> if skip_ws r = [] then Some v else None)"

subsection \<open>Storing into Go values\<close>

text \<open>
  A field of a struct takes the value of the last key that equals its name, or its name in
  another case. A null leaves the field as it was; a value of the wrong kind is an error
  (\<open>Unmarshal\<close> stores what else it can, but its callers return on the error).
\<close>

definition lower :: "char \<Rightarrow> char" where
  "lower c = (let v = (of_char c :: nat) in if 65 \<le> v \<and> v \<le> 90 then char_of (v + 32) else c)"

definition EqualFold :: "string \<Rightarrow> string \<Rightarrow> bool" where
  "EqualFold a b \<longleftrightarrow> map lower a = map lower b"

definition json_fields :: "string \<Rightarrow> (string \<times> json) list \<Rightarrow> json list" where
  "json_fields name kvs = map snd (filter (\<lambda>(k, v). EqualFold k name) kvs)"

text \<open>Stores the values of the matching keys one after the other into a field.\<close>

fun store_field :: "(json \<Rightarrow> 'a \<Rightarrow> 'a result) \<Rightarrow> json list \<Rightarrow> 'a \<Rightarrow> 'a result" where
  "store_field dec [] x = Inr x"
| "store_field dec (v # vs) x = (case dec v x of Inl e \<Rightarrow> Inl e | Inr y \<Rightarrow> store_field dec vs y)"

definition unmarshal_type_error :: go_error where
  "unmarshal_type_error = OpaqueError ''json: cannot unmarshal''"

fun dec_string :: "json \<Rightarrow> string \<Rightarrow> string result" where
  "dec_string (JStr s) x = Inr s"
| "dec_string JNull x = Inr x"
| "dec_string _ x = Inl unmarshal_type_error"

fun dec_bool :: "json \<Rightarrow> bool \<Rightarrow> bool result" where
  "dec_bool (JBool b) x = Inr b"
| "dec_bool JNull x = Inr x"
| "dec_bool _ x = Inl unmarshal_type_error"

fun dec_int :: "json \<Rightarrow> int \<Rightarrow> int result" where
  "dec_int (JNum s) x = (case strconv_Atoi s of Inl e \<Rightarrow> Inl unmarshal_type_error | Inr i \<Rightarrow> Inr i)"
| "dec_int JNull x = Inr x"
| "dec_int _ x = Inl unmarshal_type_error"

fun dec_list :: "(json \<Rightarrow> 'a \<Rightarrow> 'a result) \<Rightarrow> 'a \<Rightarrow> json list \<Rightarrow> 'a list result" where
  "dec_list dec zero [] = Inr []"
| "dec_list dec zero (v # vs) =
     (case dec v zero of
        Inl e \<Rightarrow> Inl e
      | Inr x \<Rightarrow> (case dec_list dec zero vs of Inl e \<Rightarrow> Inl e | Inr xs \<Rightarrow> Inr (x # xs)))"

fun dec_slice :: "(json \<Rightarrow> 'a \<Rightarrow> 'a result) \<Rightarrow> 'a \<Rightarrow> json \<Rightarrow> 'a list \<Rightarrow> 'a list result" where
  "dec_slice dec zero (JArr vs) x = dec_list dec zero vs"
| "dec_slice dec zero JNull x = Inr []"
| "dec_slice dec zero _ x = Inl unmarshal_type_error"

text \<open>\<open>json.Unmarshal(out, &dbData)\<close> for \<open>struct { Data [][]string }\<close>.\<close>

definition unmarshal_Data :: "string \<Rightarrow> string list list result" where
  "unmarshal_Data out =
     (case json_Parse out of
        None \<Rightarrow> Inl (OpaqueError ''json: syntax error'')
      | Some (JObj kvs) \<Rightarrow> store_field (dec_slice (dec_slice dec_string []) []) (json_fields ''Data'' kvs) []
      | Some JNull \<Rightarrow> Inr []
      | Some _ \<Rightarrow> Inl unmarshal_type_error)"

end
