(* ===== verification/Go_Exec.thy ===== *)
theory Go_Exec
  imports Kube_Prelude
begin

text \<open>
  Calls into the operating system: the commands kube-ovs runs (\<open>os/exec\<close>) act on a host
  state of which the program sees only outputs and errors. \<open>Exec\<close> is the record of these
  operations; every definition that runs a command takes it as a parameter.

  A function that runs commands and can also panic has type \<open>('s, 'a) gop\<close>: its outcome is a
  panic, or a return of an error or a value. \<open>gop_bind\<close> stops at either.
\<close>

record 'e Exec =
  CombinedOutput :: "string \<Rightarrow> string list \<Rightarrow> ('e, string) go"
  Output :: "string \<Rightarrow> string list \<Rightarrow> ('e, string) go"

type_synonym ('s, 'a) gop = "('s, 'a result outcome) state"

definition gop_return :: "'a \<Rightarrow> ('s, 'a) gop" where
  "gop_return x = State_Monad.return (Returns (Inr x))"

definition gop_fail :: "go_error \<Rightarrow> ('s, 'a) gop" where
  "gop_fail e = State_Monad.return (Returns (Inl e))"

definition gop_panic :: "go_panic \<Rightarrow> ('s, 'a) gop" where
  "gop_panic p = State_Monad.return (Panics p)"

definition gop_of :: "('s, 'a) go \<Rightarrow> ('s, 'a) gop" where
  "gop_of m = State_Monad.bind m (\<lambda>r. State_Monad.return (Returns r))"

definition gop_lift :: "'a result \<Rightarrow> ('s, 'a) gop" where
  "gop_lift r = State_Monad.return (Returns r)"

definition gop_bind :: "('s, 'a) gop \<Rightarrow> ('a \<Rightarrow> ('s, 'b) gop) \<Rightarrow> ('s, 'b) gop" where
  "gop_bind m f = State_Monad.bind m
     (\<lambda>r. case r of Panics p \<Rightarrow> gop_panic p
            | Returns x \<Rightarrow> (case x of Inl e \<Rightarrow> gop_fail e | Inr v \<Rightarrow> f v))"

definition gop_wrap :: "(go_error \<Rightarrow> go_error) \<Rightarrow> ('s, 'a) gop \<Rightarrow> ('s, 'a) gop" where
  "gop_wrap w m = State_Monad.bind m
     (\<lambda>r. case r of Panics p \<Rightarrow> gop_panic p
            | Returns x \<Rightarrow> (case x of Inl e \<Rightarrow> gop_fail (w e) | Inr v \<Rightarrow> gop_return v))"

text \<open>
  A handler logs the error of its body and returns: \<open>if err := f(); err != nil { klog... }\<close>.
\<close>

definition log_error :: "('s, 'a) gop \<Rightarrow> ('s, unit outcome) state" where
  "log_error m = State_Monad.bind m
     (\<lambda>r. State_Monad.return (map_outcome (\<lambda>_. ()) r))"

lemma run_gop [run_simps]:
  "run_state (gop_return x) s = (Returns (Inr x), s)"
  "run_state (gop_fail e) s = (Returns (Inl e), s)"
  "run_state (gop_panic p) s = (Panics p, s)"
  "run_state (gop_lift r) s = (Returns r, s)"
  "run_state (gop_of m) s = (case run_state m s of (r, s') \<Rightarrow> (Returns r, s'))"
  by (simp_all add: gop_return_def gop_fail_def gop_panic_def gop_lift_def gop_of_def run_state_bind
    split: prod.split)

lemma run_gop_bind [run_simps]:
  "run_state (gop_bind m f) s =
     (case run_state m s of
        (Panics p, s') \<Rightarrow> (Panics p, s')
      | (Returns (Inl e), s') \<Rightarrow> (Returns (Inl e), s')
      | (Returns (Inr x), s') \<Rightarrow> run_state (f x) s')"
  by (simp add: gop_bind_def run_state_bind gop_panic_def gop_fail_def
    split: prod.split outcome.split sum.split)

lemma run_gop_wrap [run_simps]:
  "run_state (gop_wrap w m) s =
     (case run_state m s of
        (Panics p, s') \<Rightarrow> (Panics p, s')
      | (Returns (Inl e), s') \<Rightarrow> (Returns (Inl (w e)), s')
      | (Returns (Inr x), s') \<Rightarrow> (Returns (Inr x), s'))"
  by (simp add: gop_wrap_def run_state_bind gop_panic_def gop_fail_def gop_return_def
    split: prod.split outcome.split sum.split)

lemma run_log_error [run_simps]:
  "run_state (log_error m) s = (case run_state m s of (r, s') \<Rightarrow> (map_outcome (\<lambda>_. ()) r, s'))"
  by (simp add: log_error_def run_state_bind split: prod.split)

end
