(* ===== verification/Of_Controller.thy ===== *)
theory Of_Controller
  imports Ofp_Messages Go_Json Go_Exec Kube_Api
begin

text \<open>
  The OpenFlow controller of a node: \<open>controllers/openflow/controller.go\<close>,
  \<open>flows.go\<close> and \<open>datalink.go\<close>.

  The controller writes to three places: the queue of the connection manager
  (\<open>connManager.Send\<close>), the transaction counter of the OpenFlow package, and the host, through
  \<open>ovs-vsctl\<close> and \<open>ovs-ofctl\<close>. They make up \<open>of_world\<close>; \<open>sent\<close> holds the messages in the order
  in which they were handed to \<open>Send\<close>. The fields of the Go struct \<open>controller\<close> are prefixed
  with \<open>ctl_\<close>.
\<close>

subsection \<open>State\<close>

record 'e of_world =
  xid_ctr :: uint32
  sent :: "OFMessage list"
  host :: 'e

record controller =
  ctl_datapathID :: uint64
  ctl_nodeName :: string
  ctl_gatewayIP :: string
  ctl_gatewayMAC :: string
  ctl_podCIDR :: string
  ctl_clusterCIDR :: string

definition on_host :: "('e, 'a) go \<Rightarrow> ('e of_world, 'a) go" where
  "on_host m = State (\<lambda>w. case run_state m (host w) of (r, e) \<Rightarrow> (r, w\<lparr>host := e\<rparr>))"

definition Send :: "OFMessage \<Rightarrow> ('e of_world, unit) state" where
  "Send msg = State (\<lambda>w. ((), w\<lparr>sent := sent w @ [msg]\<rparr>))"

fun Send_flows :: "OfpFlowMod list \<Rightarrow> ('e of_world, unit) state" where
  "Send_flows [] = State_Monad.return ()"
| "Send_flows (flow # flows) = State_Monad.bind (Send (FlowModMsg flow)) (\<lambda>_. Send_flows flows)"

text \<open>\<open>ofp13.NewOfpFlowModAdd(0, 0, table, priority, 0, match, instructions)\<close>\<close>

definition new_flow :: "uint8 \<Rightarrow> uint16 \<Rightarrow> OfpMatch \<Rightarrow> OfpInstruction list \<Rightarrow> ('e of_world, OfpFlowMod) go" where
  "new_flow tab prio match is =
     State (\<lambda>w. case NewOfpFlowModAdd 0 0 tab prio 0 match is (xid_ctr w) of
                  (m, x) \<Rightarrow> (Inr m, w\<lparr>xid_ctr := x\<rparr>))"

abbreviation (input) tableClassification :: uint8 where "tableClassification \<equiv> 0"
abbreviation (input) tableLocalARP :: uint8 where "tableLocalARP \<equiv> 10"
abbreviation (input) tableOverlay :: uint8 where "tableOverlay \<equiv> 20"
abbreviation (input) tableL3Forwarding :: uint8 where "tableL3Forwarding \<equiv> 40"
abbreviation (input) tableL2Rewrites :: uint8 where "tableL2Rewrites \<equiv> 50"

abbreviation (input) vxlanPortName :: string where "vxlanPortName \<equiv> ''vxlan0''"
abbreviation (input) hostLocalPort :: string where "hostLocalPort \<equiv> ''host-local''"

subsection \<open>Building blocks\<close>

definition ofPortFromName :: "'e Exec \<Rightarrow> string \<Rightarrow> ('e of_world, uint32) go" where
  "ofPortFromName ex portName =
     go_bind (go_wrap (Wrapf ''failed to get ofport for port %q, err: %v, out: %q'' [portName])
                (on_host (CombinedOutput ex ''ovs-vsctl'' [''get'', ''Interface'', portName, ''ofport''])))
     (\<lambda>out. case strconv_Atoi (strings_TrimSpace out) of
              Inl err \<Rightarrow> go_fail (Wrapf ''error converting ofport output %q to int: %v'' [out] err)
            | Inr ofport \<Rightarrow> go_return (of_int ofport))"

definition newOxmIpv4SubnetDst :: "string \<Rightarrow> OxmField result" where
  "newOxmIpv4SubnetDst dst =
     (case strings_Split dst (CHR ''/'') of
        [addr, m] \<Rightarrow>
          (case strconv_Atoi m of
             Inl err \<Rightarrow> Inl (Wrapf ''invalid mask from cidr: %v'' [] err)
           | Inr msk \<Rightarrow> wrap_err (Wrapf ''error getting IPv4DstW match: %v'' []) (NewOxmIpv4DstW addr msk))
      | _ \<Rightarrow> Inl (Errorf ''invalid destination: %q'' [dst]))"

definition newOxmArpDst :: "string \<Rightarrow> OxmField result" where
  "newOxmArpDst dst =
     (case strings_Split dst (CHR ''/'') of
        [addr, m] \<Rightarrow>
          (case strconv_Atoi m of
             Inl err \<Rightarrow> Inl (Wrapf ''invalid mask from cidr: %v'' [] err)
           | Inr msk \<Rightarrow> wrap_err (Wrapf ''error getting IPv4DstW match: %v'' []) (NewOxmArpTpaW addr msk))
      | _ \<Rightarrow> Inl (Errorf ''invalid destination: %q'' [dst]))"

text \<open>\<open>match := NewOfpMatch(); match.Append(f1); match.Append(f2) ...\<close>\<close>

definition match_of :: "OxmField list \<Rightarrow> OfpMatch" where
  "match_of fs = foldl OfpMatch_Append NewOfpMatch fs"

definition apply_actions :: "OfpAction list \<Rightarrow> OfpInstruction" where
  "apply_actions as = foldl OfpInstructionActions_Append (NewOfpInstructionActions OFPIT_APPLY_ACTIONS) as"

text \<open>\<open>uint64(vswitch.Spec.OverlayTunnelID)\<close>: the \<open>int32\<close> is sign-extended.\<close>

definition tunnel_field :: "VSwitchConfig \<Rightarrow> OxmField" where
  "tunnel_field vswitch = NewOxmTunnelId (scast (tunnelID vswitch))"

subsection \<open>Flows for a virtual switch\<close>

definition tunnel_flow_text :: "string \<Rightarrow> VSwitchConfig \<Rightarrow> string \<Rightarrow> int \<Rightarrow> string" where
  "tunnel_flow_text proto vswitch podCIDR ofport =
     ''table='' @ strconv_Itoa 40 @ '', priority=150,'' @ proto @ '',tun_id='' @
     strconv_Itoa (sint (tunnelID vswitch)) @ '',nw_dst='' @ podCIDR @ '',actions=set_field:'' @
     OverlayIP (Spec vswitch) @ ''->tun_dst,'' @ strconv_Itoa ofport"

definition addTunnelDstFlows :: "'e Exec \<Rightarrow> VSwitchConfig \<Rightarrow> string \<Rightarrow> int \<Rightarrow> ('e of_world, unit) go" where
  "addTunnelDstFlows ex vswitch podCIDR ofport =
     go_bind (go_wrap (Wrapf ''failed to add flows, err: %v, out: %q'' [])
                (on_host (CombinedOutput ex ''ovs-ofctl''
                   [''add-flow'', ''kube-ovs0'', tunnel_flow_text ''ip'' vswitch podCIDR ofport])))
     (\<lambda>out.
     go_bind (go_wrap (Wrapf ''failed to add flows, err: %v, out: %q'' [])
                (on_host (CombinedOutput ex ''ovs-ofctl''
                   [''add-flow'', ''kube-ovs0'', tunnel_flow_text ''arp'' vswitch podCIDR ofport])))
     (\<lambda>out. go_return ()))"

text \<open>Table 0: the local pod CIDR goes to table 50, the cluster CIDR to table 20.\<close>

definition classification_flows :: "controller \<Rightarrow> ('e of_world, OfpFlowMod list) go" where
  "classification_flows c =
     go_bind (go_lift (newOxmIpv4SubnetDst (ctl_podCIDR c))) (\<lambda>ipv4Match.
     go_bind (new_flow tableClassification 300 (match_of [NewOxmEthType 0x0800, ipv4Match])
                [NewOfpInstructionGotoTable tableL2Rewrites]) (\<lambda>flow1.
     go_bind (go_lift (newOxmIpv4SubnetDst (ctl_clusterCIDR c))) (\<lambda>ipv4Match.
     go_bind (new_flow tableClassification 100 (match_of [NewOxmEthType 0x0800, ipv4Match])
                [NewOfpInstructionGotoTable tableOverlay]) (\<lambda>flow2.
     go_return [flow1, flow2]))))"

text \<open>Table 20, for another node: set the tunnel identifier and go to table 40.\<close>

definition overlay_flows :: "VSwitchConfig \<Rightarrow> ('e of_world, OfpFlowMod list) go" where
  "overlay_flows vswitch =
     (let applyInstruction = apply_actions [NewOfpActionSetField (tunnel_field vswitch)];
          gotoInstruction = NewOfpInstructionGotoTable tableL3Forwarding
      in
     go_bind (go_lift (newOxmIpv4SubnetDst (PodCIDR (Spec vswitch)))) (\<lambda>ipv4Match.
     go_bind (new_flow tableOverlay 100 (match_of [NewOxmEthType 0x0800, ipv4Match])
                [applyInstruction, gotoInstruction]) (\<lambda>flow1.
     go_bind (go_lift (newOxmArpDst (PodCIDR (Spec vswitch)))) (\<lambda>arpMatch.
     go_bind (new_flow tableOverlay 100 (match_of [NewOxmEthType 0x0806, arpMatch])
                [applyInstruction, gotoInstruction]) (\<lambda>flow2.
     go_return [flow1, flow2])))))"

text \<open>Table 40, for this node: packets with the node's tunnel identifier go to table 50.\<close>

definition local_l3_flows :: "VSwitchConfig \<Rightarrow> ('e of_world, OfpFlowMod list) go" where
  "local_l3_flows vswitch =
     (let gotoInstruction = NewOfpInstructionGotoTable tableL2Rewrites
      in
     go_bind (go_lift (newOxmIpv4SubnetDst (PodCIDR (Spec vswitch)))) (\<lambda>ipv4Match.
     go_bind (new_flow tableL3Forwarding 100
                (match_of [NewOxmEthType 0x0800, ipv4Match, tunnel_field vswitch]) [gotoInstruction]) (\<lambda>flow1.
     go_bind (go_lift (newOxmArpDst (PodCIDR (Spec vswitch)))) (\<lambda>arpMatch.
     go_bind (new_flow tableL3Forwarding 100
                (match_of [NewOxmEthType 0x0806, arpMatch, tunnel_field vswitch]) [gotoInstruction]) (\<lambda>flow2.
     go_return [flow1, flow2])))))"

definition flowsForVSwitch :: "'e Exec \<Rightarrow> controller \<Rightarrow> VSwitchConfig \<Rightarrow> ('e of_world, OfpFlowMod list) go" where
  "flowsForVSwitch ex c vswitch =
     (let isCurrentNode = (vname vswitch = ctl_nodeName c);
          podCIDR = PodCIDR (Spec vswitch)
      in
     go_bind (go_wrap (Wrapf ''error getting ofport for %q: %v'' [vxlanPortName])
                (ofPortFromName ex vxlanPortName)) (\<lambda>vxlanOFPort.
     go_bind (classification_flows c) (\<lambda>flows.
     if \<not> isCurrentNode then
       go_bind (overlay_flows vswitch) (\<lambda>overlay.
       go_bind (go_wrap (Wrapf ''error adding tunnel forwarding flows: %v'' [])
                  (addTunnelDstFlows ex vswitch podCIDR (uint vxlanOFPort))) (\<lambda>_.
       go_return (flows @ overlay)))
     else
       go_bind (local_l3_flows vswitch) (\<lambda>local. go_return (flows @ local)))))"

definition sync_vswitch :: "'e Exec \<Rightarrow> controller \<Rightarrow> VSwitchConfig \<Rightarrow> ('e of_world, unit) state" where
  "sync_vswitch ex c vswitch =
     State_Monad.bind (flowsForVSwitch ex c vswitch)
       (\<lambda>r. case r of Inl err \<Rightarrow> State_Monad.return () | Inr flows \<Rightarrow> Send_flows flows)"

definition OnAddVSwitch :: "'e Exec \<Rightarrow> controller \<Rightarrow> runtime_object \<Rightarrow> ('e of_world, unit) state" where
  "OnAddVSwitch ex c obj =
     (case obj of VSwitchConfigObj vswitch \<Rightarrow> sync_vswitch ex c vswitch | _ \<Rightarrow> State_Monad.return ())"

definition OnUpdateVSwitch ::
    "'e Exec \<Rightarrow> controller \<Rightarrow> runtime_object \<Rightarrow> runtime_object \<Rightarrow> ('e of_world, unit) state" where
  "OnUpdateVSwitch ex c oldObj newObj =
     (case newObj of VSwitchConfigObj vswitch \<Rightarrow> sync_vswitch ex c vswitch | _ \<Rightarrow> State_Monad.return ())"

definition OnDeleteVSwitch :: "'e Exec \<Rightarrow> controller \<Rightarrow> runtime_object \<Rightarrow> ('e of_world, unit) state" where
  "OnDeleteVSwitch ex c obj = State_Monad.return ()"

subsection \<open>Flows for pods and the gateway\<close>

definition isLocalIP :: "controller \<Rightarrow> string \<Rightarrow> bool result" where
  "isLocalIP c ip =
     (case ParseCIDR (ctl_podCIDR c) of
        Inl err \<Rightarrow> Inl err
      | Inr (_, ipnet) \<Rightarrow> Inr (IPNet_Contains ipnet (nil_or (ParseIP ip))))"

definition findPort :: "'e Exec \<Rightarrow> string \<Rightarrow> string \<Rightarrow> ('e of_world, string) gop" where
  "findPort ex podNamespace podName =
     gop_bind (gop_wrap (Wrapf ''failed to get OVS port for %s/%s, err: %v'' [podNamespace, podName])
                 (gop_of (on_host (Output ex ''ovs-vsctl''
                    [''--format=json'', ''--column=name'', ''find'', ''port'',
                     ''external-ids:k8s_pod_namespace='' @ podNamespace,
                     ''external-ids:k8s_pod_name='' @ podName]))))
     (\<lambda>out.
     gop_bind (gop_lift (unmarshal_Data out)) (\<lambda>data.
     case data of
       [] \<Rightarrow> gop_fail (Errorf ''OVS port for %s/%s was not found, OVS DB data: %v, output: %q''
               [podNamespace, podName, out])
     | row # _ \<Rightarrow> (case row of [] \<Rightarrow> gop_panic IndexOutOfRange | portName # _ \<Rightarrow> gop_return portName)))"

definition strip_quotes :: "string \<Rightarrow> string" where
  "strip_quotes macAddr =
     (let macAddr = (if 0 < length macAddr \<and> macAddr ! 0 = CHR 0x22 then drop 1 macAddr else macAddr)
      in if 0 < length macAddr \<and> macAddr ! (length macAddr - 1) = CHR 0x22
         then take (length macAddr - 1) macAddr else macAddr)"

definition macAddrFromPort :: "'e Exec \<Rightarrow> string \<Rightarrow> ('e of_world, string) go" where
  "macAddrFromPort ex portName =
     go_bind (go_wrap (Wrapf ''failed to get MAC address from OVS port for %q, err: %v, out: %q'' [portName])
                (on_host (Output ex ''ovs-vsctl'' [''get'', ''port'', portName, ''mac''])))
     (\<lambda>out. go_return (strip_quotes (strings_TrimSpace out)))"

definition addDataLinkFlowsForLocalIP :: "'e Exec \<Rightarrow> Pod \<Rightarrow> ('e of_world, OfpFlowMod list) gop" where
  "addDataLinkFlowsForLocalIP ex pod =
     gop_bind (gop_wrap (Wrapf ''error finding port for pod %q, err: %v'' [Name (PodMeta pod)])
                 (findPort ex (Namespace (PodMeta pod)) (Name (PodMeta pod)))) (\<lambda>portName.
     gop_of (
     go_bind (go_wrap (Wrapf ''error getting mac address for pod %q, err: %v'' [Name (PodMeta pod)])
                (macAddrFromPort ex portName)) (\<lambda>podMacAddr.
     go_bind (go_wrap (Wrapf ''error getting ofport for port %q, err: %v'' [portName])
                (ofPortFromName ex portName)) (\<lambda>ofport.
     go_bind (go_lift (wrap_err (Wrapf ''error getting IPv4Dst match: %v'' []) (NewOxmIpv4Dst (PodIP pod)))) (\<lambda>ipv4Match.
     go_bind (go_lift (NewOxmEthDst podMacAddr)) (\<lambda>ethDst.
     go_bind (new_flow tableL2Rewrites 100 (match_of [NewOxmEthType 0x0800, ipv4Match])
                [apply_actions [NewOfpActionSetField ethDst, NewOfpActionOutput ofport 0]]) (\<lambda>flow1.
     go_bind (go_lift (wrap_err (Wrapf ''error getting IPv4Dst match: %v'' []) (NewOxmArpTpa (PodIP pod)))) (\<lambda>arpMatch.
     go_bind (new_flow tableL2Rewrites 100 (match_of [NewOxmEthType 0x0806, arpMatch])
                [apply_actions [NewOfpActionOutput ofport 0]]) (\<lambda>flow2.
     go_return [flow1, flow2])))))))))"

definition syncPod :: "'e Exec \<Rightarrow> controller \<Rightarrow> Pod \<Rightarrow> ('e of_world, unit) gop" where
  "syncPod ex c pod =
     (if PodIP pod = [] then gop_return ()
      else
        gop_bind (gop_lift (wrap_err (Wrapf ''error checking if IP %q is local: %v'' []) (isLocalIP c (PodIP pod))))
        (\<lambda>local.
          if \<not> local then gop_return ()
          else
            gop_bind (gop_wrap (Wrapf ''error getting data link flows for IP %q, err: %v'' [PodIP pod])
                        (addDataLinkFlowsForLocalIP ex pod))
            (\<lambda>flows. gop_of (State_Monad.bind (Send_flows flows) (\<lambda>_. go_return ())))))"

definition OnAddPod :: "'e Exec \<Rightarrow> controller \<Rightarrow> runtime_object \<Rightarrow> ('e of_world, unit outcome) state" where
  "OnAddPod ex c obj =
     (case obj of PodObj pod \<Rightarrow> log_error (syncPod ex c pod) | _ \<Rightarrow> State_Monad.return (Returns ()))"

definition OnUpdatePod ::
    "'e Exec \<Rightarrow> controller \<Rightarrow> runtime_object \<Rightarrow> runtime_object \<Rightarrow> ('e of_world, unit outcome) state" where
  "OnUpdatePod ex c oldObj newObj =
     (case newObj of PodObj pod \<Rightarrow> log_error (syncPod ex c pod) | _ \<Rightarrow> State_Monad.return (Returns ()))"

definition OnDeletePod :: "'e Exec \<Rightarrow> controller \<Rightarrow> runtime_object \<Rightarrow> ('e of_world, unit outcome) state" where
  "OnDeletePod ex c obj = State_Monad.return (Returns ())"

definition addDataLinkFlowForGateway :: "'e Exec \<Rightarrow> controller \<Rightarrow> ('e of_world, OfpFlowMod list) go" where
  "addDataLinkFlowForGateway ex c =
     go_bind (go_wrap (Wrapf ''error getting ofport for port %q, err: %v'' [hostLocalPort])
                (ofPortFromName ex hostLocalPort)) (\<lambda>ofport.
     go_bind (go_lift (wrap_err (Wrapf ''error getting IPv4Dst match: %v'' []) (NewOxmIpv4Dst (ctl_gatewayIP c)))) (\<lambda>ipv4Match.
     go_bind (go_lift (NewOxmEthDst (ctl_gatewayMAC c))) (\<lambda>ethDst.
     go_bind (new_flow tableClassification 500 (match_of [NewOxmEthType 0x0800, ipv4Match])
                [apply_actions [NewOfpActionSetField ethDst, NewOfpActionOutput ofport 0]]) (\<lambda>flow1.
     go_bind (go_lift (wrap_err (Wrapf ''error getting IPv4Dst match: %v'' []) (NewOxmArpTpa (ctl_gatewayIP c)))) (\<lambda>arpMatch.
     go_bind (new_flow tableLocalARP 500 (match_of [NewOxmEthType 0x0806, arpMatch])
                [apply_actions [NewOfpActionOutput ofport 0]]) (\<lambda>flow2.
     go_return [flow1, flow2]))))))"

definition defaultARPFlows :: "controller \<Rightarrow> ('e of_world, OfpFlowMod list) go" where
  "defaultARPFlows c =
     go_bind (new_flow tableClassification 200 (match_of [NewOxmEthType 0x0806])
                [NewOfpInstructionGotoTable tableLocalARP]) (\<lambda>flow1.
     go_bind (go_lift (newOxmArpDst (ctl_podCIDR c))) (\<lambda>arpMatch.
     go_bind (new_flow tableLocalARP 100 (match_of [NewOxmEthType 0x0806, arpMatch])
                [NewOfpInstructionGotoTable tableL2Rewrites]) (\<lambda>flow2.
     go_bind (go_lift (newOxmArpDst (ctl_clusterCIDR c))) (\<lambda>arpMatch.
     go_bind (new_flow tableLocalARP 50 (match_of [NewOxmEthType 0x0806, arpMatch])
                [NewOfpInstructionGotoTable tableOverlay]) (\<lambda>flow3.
     go_return [flow1, flow2, flow3])))))"

definition AddDefaultFlows :: "'e Exec \<Rightarrow> controller \<Rightarrow> string \<Rightarrow> ('e of_world, unit) go" where
  "AddDefaultFlows ex c bridgeName =
     go_bind (go_wrap (Wrapf ''getting host local port number: %v'' []) (ofPortFromName ex hostLocalPort)) (\<lambda>ofport.
     go_bind (new_flow tableClassification 0 NewOfpMatch [apply_actions [NewOfpActionOutput ofport 0]]) (\<lambda>defaultLocalFlow.
     State_Monad.bind (Send (FlowModMsg defaultLocalFlow)) (\<lambda>_.
     go_bind (go_wrap (\<lambda>err. Errorf ''error getting datalink flow for gateway IP %q, err: %v'' [ctl_gatewayIP c])
                (addDataLinkFlowForGateway ex c)) (\<lambda>gatewayFlows.
     State_Monad.bind (Send_flows gatewayFlows) (\<lambda>_.
     go_bind (go_wrap (Wrapf ''error adding arp responder flows: %v'' []) (defaultARPFlows c)) (\<lambda>arpFlows.
     State_Monad.bind (Send_flows arpFlows) (\<lambda>_. go_return ())))))))"

subsection \<open>Start-up and the receive loop\<close>

text \<open>\<open>ParseCIDR\<close>'s error is dropped; then \<open>podIPNet\<close> is nil and reading \<open>podIPNet.IP\<close> panics.\<close>

definition NewController :: "string \<Rightarrow> string \<Rightarrow> string \<Rightarrow> string \<Rightarrow> controller outcome" where
  "NewController gatewayMAC nodeName podCIDR clusterCIDR =
     (case ParseCIDR podCIDR of
        Inl _ \<Rightarrow> Panics NilDereference
      | Inr (_, podIPNet) \<Rightarrow>
          (let gatewayIP = IP_String (NextIP (IP_Mask (NetIP podIPNet) (NetMask podIPNet)))
           in Returns \<lparr>ctl_datapathID = 0, ctl_nodeName = nodeName, ctl_gatewayIP = gatewayIP,
                ctl_gatewayMAC = gatewayMAC, ctl_podCIDR = podCIDR, ctl_clusterCIDR = clusterCIDR\<rparr>))"

definition Initialize :: "('e of_world, unit) go" where
  "Initialize =
     State (\<lambda>w. case NewOfpHello (xid_ctr w) of
       (hello, x) \<Rightarrow> (Inr (), w\<lparr>xid_ctr := x, sent := sent w @ [HelloMsg hello]\<rparr>))"

definition send_new :: "(uint32 \<Rightarrow> OFMessage \<times> uint32) \<Rightarrow> 'e of_world \<Rightarrow> 'e of_world" where
  "send_new mk w = (case mk (xid_ctr w) of (m, x) \<Rightarrow> w\<lparr>xid_ctr := x, sent := sent w @ [m]\<rparr>)"

text \<open>One turn of the loop of \<open>Run\<close>, on the message \<open>Receive\<close> returned.\<close>

definition Run_step :: "OFMessage \<Rightarrow> controller \<times> 'e of_world \<Rightarrow> controller \<times> 'e of_world" where
  "Run_step msg st =
     (case st of (c, w) \<Rightarrow>
       (case msg of
          HeaderMsg h \<Rightarrow>
            (c, if HType h = OFPT_ECHO_REQUEST then send_new NewOfpEchoReply w else w)
        | HelloMsg _ \<Rightarrow> (c, send_new NewOfpFeaturesRequest w)
        | SwitchFeaturesMsg m \<Rightarrow> (c\<lparr>ctl_datapathID := DatapathId m\<rparr>, w)
        | _ \<Rightarrow> (c, w)))"

definition Run :: "OFMessage list \<Rightarrow> controller \<times> 'e of_world \<Rightarrow> controller \<times> 'e of_world" where
  "Run msgs st = fold Run_step msgs st"

end
