(* ===== verification/Of_Flows.thy ===== *)
theory Of_Flows
  imports Of_Controller
begin

text \<open>
  What the OpenFlow controller sends. Every flow it builds from well-formed CIDRs is a message
  that serialises without a panic and that a switch decodes to the intended entry; the lemmas
  collect, for each group of flows, the entries in the order in which they are sent.
\<close>

subsection \<open>Reasoning about calls\<close>

text \<open>
  \<open>go_ensures P m\<close>: whatever the host does, \<open>m\<close> sends nothing, and if it returns a value
  then one that satisfies \<open>P\<close>.
\<close>

definition go_ensures :: "('a \<Rightarrow> bool) \<Rightarrow> ('e of_world, 'a) go \<Rightarrow> bool" where
  "go_ensures P m \<longleftrightarrow>
     (\<forall>w r w'. run_state m w = (r, w') \<longrightarrow> sent w' = sent w \<and> (\<forall>x. r = Inr x \<longrightarrow> P x))"

named_theorems ensures_intros \<open>rules for go_ensures\<close>

lemma go_ensuresD:
  assumes "go_ensures P m" and "run_state m w = (r, w')"
  shows "sent w' = sent w" and "r = Inr x \<Longrightarrow> P x"
  using assms by (auto simp: go_ensures_def)

lemma go_ensures_bind [ensures_intros]:
  assumes "go_ensures Q m" and "\<And>x. Q x \<Longrightarrow> go_ensures P (f x)"
  shows "go_ensures P (go_bind m f)"
  unfolding go_ensures_def
proof (intro allI impI)
  fix w r w'
  assume "run_state (go_bind m f) w = (r, w')"
  then show "sent w' = sent w \<and> (\<forall>x. r = Inr x \<longrightarrow> P x)"
  proof (cases rule: go_bind_cases)
    case (fails e)
    then show ?thesis using go_ensuresD(1) [OF assms(1)] by auto
  next
    case (runs x s')
    then show ?thesis
      using go_ensuresD [OF assms(1) runs(1)] go_ensuresD [OF assms(2) runs(2)] by auto
  qed
qed

lemma go_ensures_wrap [ensures_intros]: "go_ensures P m \<Longrightarrow> go_ensures P (go_wrap w m)"
  by (auto simp: go_ensures_def run_simps split: prod.splits sum.splits)

lemma go_ensures_return [ensures_intros]: "P x \<Longrightarrow> go_ensures P (go_return x)"
  by (simp add: go_ensures_def run_simps)

lemma go_ensures_fail [ensures_intros]: "go_ensures P (go_fail e)"
  by (simp add: go_ensures_def run_simps)

lemma go_ensures_lift: "(\<And>x. r = Inr x \<Longrightarrow> P x) \<Longrightarrow> go_ensures P (go_lift r)"
  by (simp add: go_ensures_def run_simps)

lemma go_ensures_lift_eq [ensures_intros]: "go_ensures (\<lambda>x. r = Inr x) (go_lift r)"
  by (rule go_ensures_lift)

lemma go_ensures_host [ensures_intros]: "go_ensures (\<lambda>_. True) (on_host m)"
  by (auto simp: go_ensures_def on_host_def split: prod.splits)

lemma go_ensures_ofPort: "go_ensures (\<lambda>_. True) (ofPortFromName ex n)"
  unfolding ofPortFromName_def
  by (rule go_ensures_bind [OF go_ensures_wrap [OF go_ensures_host]])
    (simp add: ensures_intros split: sum.split)

subsection \<open>Valid flows\<close>

definition flow_valid :: "OfpFlowMod \<Rightarrow> bool" where
  "flow_valid m \<longleftrightarrow> flow_mod_ok m \<and> flow_mod_clean m"

definition flow_add :: "uint8 \<Rightarrow> uint16 \<Rightarrow> OxmField list \<Rightarrow> OfpInstruction list \<Rightarrow> uint32 \<Rightarrow> OfpFlowMod" where
  "flow_add tab prio fs is x = fst (NewOfpFlowModAdd 0 0 tab prio 0 (match_of fs) is x)"

lemma match_of_eq: "match_of fs = \<lparr>MatchType = OFPMT_OXM, OxmFields = fs\<rparr>"
proof -
  have "foldl OfpMatch_Append \<lparr>MatchType = t, OxmFields = gs\<rparr> fs = \<lparr>MatchType = t, OxmFields = gs @ fs\<rparr>" for t gs
    by (induction fs arbitrary: gs) (simp_all add: OfpMatch_Append_def)
  then show ?thesis by (simp add: match_of_def NewOfpMatch_def)
qed

lemma NewOfpMatch_match_of: "NewOfpMatch = match_of []"
  by (simp add: match_of_def)

lemma apply_actions_eq:
  "apply_actions as = OfpInstructionActions \<lparr>InstType = OFPIT_APPLY_ACTIONS, InstLength = 4\<rparr> as"
proof -
  have "foldl OfpInstructionActions_Append (OfpInstructionActions h bs) as = OfpInstructionActions h (bs @ as)" for h bs
    by (induction as arbitrary: bs) simp_all
  then show ?thesis by (simp add: apply_actions_def NewOfpInstructionActions_def)
qed

lemma run_new_flow [run_simps]:
  "run_state (new_flow tab prio (match_of fs) is) w =
     (Inr (flow_add tab prio fs is (xid_ctr w)), w\<lparr>xid_ctr := xid_ctr w + 1\<rparr>)"
  by (simp add: new_flow_def flow_add_def NewOfpFlowModAdd_def newOfpFlowMod_def)

lemma go_ensures_new_flow:
  assumes "\<And>x. P (flow_add tab prio fs is x)"
  shows "go_ensures P (new_flow tab prio (match_of fs) is)"
  using assms by (auto simp: go_ensures_def run_simps)

lemma flow_add_simps [simp]:
  "FHeader (flow_add tab prio fs is x) = \<lparr>HVersion = 4, HType = OFPT_FLOW_MOD, HLength = 8, HXid = x\<rparr>"
  "FMatch (flow_add tab prio fs is x) = \<lparr>MatchType = OFPMT_OXM, OxmFields = fs\<rparr>"
  "Instructions (flow_add tab prio fs is x) = is"
  "TableId (flow_add tab prio fs is x) = tab"
  "Command (flow_add tab prio fs is x) = OFPFC_ADD"
  "Priority (flow_add tab prio fs is x) = prio"
  "Cookie (flow_add tab prio fs is x) = 0"
  "IdleTimeout (flow_add tab prio fs is x) = 0"
  "HardTimeout (flow_add tab prio fs is x) = 0"
  by (simp_all add: flow_add_def NewOfpFlowModAdd_def newOfpFlowMod_def match_of_eq)

text \<open>The entry a switch makes of a flow the controller adds.\<close>

definition entry :: "uint8 \<Rightarrow> uint16 \<Rightarrow> wire_field list \<Rightarrow> wire_instr list \<Rightarrow> flow_entry" where
  "entry tab prio fs is =
     \<lparr>fe_table = tab, fe_command = OFPFC_ADD, fe_priority = prio, fe_cookie = 0, fe_idle = 0,
      fe_hard = 0, fe_match = fs, fe_instrs = is\<rparr>"

lemma abs_flow_add: "abs_flow (flow_add tab prio fs is x) = entry tab prio (map abs_oxm fs) (map abs_instr is)"
  by (simp add: abs_flow_def entry_def)

lemma abs_apply_actions [simp]: "abs_instr (apply_actions as) = WApplyActions (map abs_action as)"
  by (simp add: apply_actions_eq)

lemma abs_goto [simp]: "abs_instr (NewOfpInstructionGotoTable t) = WGotoTable t"
  by (simp add: NewOfpInstructionGotoTable_def)

lemma abs_output [simp]: "abs_action (NewOfpActionOutput p l) = WOutput p l"
  by (simp add: NewOfpActionOutput_def)

lemma abs_set_field [simp]: "abs_action (NewOfpActionSetField f) = WSetField (abs_oxm f)"
  by (simp add: NewOfpActionSetField_def)

subsection \<open>Conditions under which a flow is valid\<close>

lemma set_field_length:
  assumes "oxm_ok f"
  shows "ucast (((of_nat (OxmField_Size f) + 11) div 8) * 8 :: uint32) = (of_nat ((OxmField_Size f + 11) div 8 * 8) :: uint16)"
  using assms by (cases f) (auto simp: OxmField_Size_def)

lemma action_ok_new [simp]:
  "action_ok (NewOfpActionOutput p l)" "action_clean (NewOfpActionOutput p l)"
  "action_ok (NewOfpActionSetField f) \<longleftrightarrow> oxm_ok f"
  "action_clean (NewOfpActionSetField f) \<longleftrightarrow> oxm_clean f \<and> oxmHasMask (TlvHeader f) = 0"
  using set_field_length [of f] by (auto simp: NewOfpActionOutput_def NewOfpActionSetField_def Let_def)

lemma instr_ok_new [simp]:
  "instr_ok (NewOfpInstructionGotoTable t)" "instr_clean (NewOfpInstructionGotoTable t)"
  "instr_ok (apply_actions as) \<longleftrightarrow> list_all action_ok as"
  "instr_clean (apply_actions as) \<longleftrightarrow> list_all action_clean as"
  by (simp_all add: NewOfpInstructionGotoTable_def apply_actions_eq)

lemma flow_add_valid:
  assumes "list_all oxm_ok fs" and "list_all oxm_clean fs" and "prereqs_ok None (map abs_oxm fs)"
    and "(4 + sum_list (map OxmField_Size fs)) mod 8 \<noteq> 0"
    and "list_all instr_ok ins" and "list_all instr_clean ins"
    and "sum_list (map OxmField_Size fs) + sum_list (map OfpInstruction_Size ins) < 1000"
  shows "flow_valid (flow_add tab prio fs ins x)"
  using assms
  by (simp add: flow_valid_def flow_mod_ok_def flow_mod_clean_def match_ok_def OfpFlowMod_Size_eq
    OfpMatch_Size_eq)

subsection \<open>The fields of the controller's flows\<close>

definition subnet_ipv4 :: "IP \<Rightarrow> nat \<Rightarrow> OxmField" where
  "subnet_ipv4 ip n = OxmIpv4 OXM_OF_IPV4_DST_W (v4InV6Prefix @ ip) (mask4 n)"

definition subnet_arp :: "IP \<Rightarrow> nat \<Rightarrow> OxmField" where
  "subnet_arp ip n = OxmArpPa OXM_OF_ARP_TPA_W (v4InV6Prefix @ ip) (mask4 n)"

text \<open>A CIDR in the form Kubernetes assigns it: a network address and a prefix length.\<close>

definition cidr_of :: "string \<Rightarrow> IP \<Rightarrow> nat \<Rightarrow> bool" where
  "cidr_of s ip n \<longleftrightarrow> s = cidr_string ip n \<and> length ip = 4 \<and> n \<le> 32 \<and> and_bytes ip (mask4 n) = ip"

lemma Atoi_nat_string: "n < 2 ^ 63 \<Longrightarrow> strconv_Atoi (nat_string n) = Inr (int n)"
  using Atoi_Itoa [of "int n"] by (simp add: strconv_Itoa_def)

lemma cidr_split:
  assumes "length ip = 4"
  shows "strings_Split (cidr_string ip n) (CHR ''/'') = [dotted ip, nat_string n]"
  unfolding cidr_string_def
  using dotted_no_slash [OF assms] nat_string_no_sep by (intro strings_Split_two) auto

lemma subnet_dst:
  assumes "cidr_of s ip n"
  shows "newOxmIpv4SubnetDst s = Inr (subnet_ipv4 ip n)" and "newOxmArpDst s = Inr (subnet_arp ip n)"
proof -
  have s: "strings_Split s (CHR ''/'') = [dotted ip, nat_string n]" and ip: "length ip = 4" and n: "n \<le> 32"
    using assms cidr_split by (auto simp: cidr_of_def)
  have "strconv_Atoi (nat_string n) = Inr (int n)" using n by (intro Atoi_nat_string) simp
  then show "newOxmIpv4SubnetDst s = Inr (subnet_ipv4 ip n)" "newOxmArpDst s = Inr (subnet_arp ip n)"
    using s ip n
    by (simp_all add: newOxmIpv4SubnetDst_def newOxmArpDst_def NewOxmIpv4DstW_def NewOxmIpv4W_def
      NewOxmArpTpaW_def NewOxmArpPaW_def ParseIP_dotted CIDRMask_32 nil_or_def subnet_ipv4_def subnet_arp_def)
qed

text \<open>What each field contributes to the validity of a flow.\<close>

definition field_fits :: "OxmField \<Rightarrow> nat \<Rightarrow> bool" where
  "field_fits f n \<longleftrightarrow> oxm_ok f \<and> oxm_clean f \<and> OxmField_Size f = n"

lemma field_fitsD:
  assumes "field_fits f n"
  shows "oxm_ok f" and "oxm_clean f" and "OxmField_Size f = n"
  using assms by (simp_all add: field_fits_def)

lemma field_fits_type: "field_fits (NewOxmEthType t) 6" and abs_type [simp]: "abs_oxm (NewOxmEthType t) = WEthType t"
  by (simp_all add: field_fits_def NewOxmEthType_def OxmField_Size_def)

lemma field_fits_tunnel: "field_fits (tunnel_field v) 12"
  and abs_tunnel [simp]: "abs_oxm (tunnel_field v) = WTunnelId (scast (tunnelID v))"
    "oxmHasMask (TlvHeader (tunnel_field v)) = 0"
  by (simp_all add: field_fits_def tunnel_field_def NewOxmTunnelId_def OxmField_Size_def)

lemma field_fits_subnet:
  assumes "cidr_of s ip n"
  shows "field_fits (subnet_ipv4 ip n) 12" and "field_fits (subnet_arp ip n) 12"
  using assms by (auto simp: cidr_of_def field_fits_def subnet_ipv4_def subnet_arp_def OxmField_Size_def)

lemma abs_subnet [simp]:
  "abs_oxm (subnet_ipv4 ip n) = WIpv4Dst ip (mask4 n)" "abs_oxm (subnet_arp ip n) = WArpTpa ip (mask4 n)"
  by (simp_all add: subnet_ipv4_def subnet_arp_def)

lemma host_fields:
  "NewOxmIpv4Dst s = Inr f \<Longrightarrow> field_fits f 8 \<and> (\<exists>v. abs_oxm f = WIpv4Dst v ones4)"
  "NewOxmArpTpa s = Inr f \<Longrightarrow> field_fits f 8 \<and> (\<exists>v. abs_oxm f = WArpTpa v ones4)"
  "NewOxmEthDst s = Inr f \<Longrightarrow> field_fits f 10 \<and> oxmHasMask (TlvHeader f) = 0"
  using ParseIP_length ParseMAC_length
  by (auto simp: NewOxmIpv4Dst_def NewOxmIpv4_def NewOxmArpTpa_def NewOxmArpPa_def NewOxmEthDst_def NewOxmEth_def
    field_fits_def OxmField_Size_def split: option.splits sum.splits)

lemma set_field_size:
  "field_fits f 10 \<or> field_fits f 12 \<Longrightarrow> OfpAction_Size (NewOfpActionSetField f) = 16"
  by (auto simp: field_fits_def NewOfpActionSetField_def Let_def)

lemma instr_sizes [simp]:
  "OfpInstruction_Size (NewOfpInstructionGotoTable t) = 8"
  "OfpInstruction_Size (apply_actions as) = 8 + sum_list (map OfpAction_Size as)"
  "OfpAction_Size (NewOfpActionOutput p l) = 16"
  by (simp_all add: NewOfpInstructionGotoTable_def apply_actions_eq foldl_size NewOfpActionOutput_def)

definition instrs_fit :: "OfpInstruction list \<Rightarrow> bool" where
  "instrs_fit is \<longleftrightarrow> list_all instr_ok is \<and> list_all instr_clean is \<and>
     sum_list (map OfpInstruction_Size is) \<le> 100"

lemma instrs_fit_goto [simp]: "instrs_fit [NewOfpInstructionGotoTable t]"
  by (simp add: instrs_fit_def)

lemma instrs_fit_output [simp]: "instrs_fit [apply_actions [NewOfpActionOutput p l]]"
  by (simp add: instrs_fit_def)

lemma instrs_fit_eth:
  "field_fits f 10 \<Longrightarrow> oxmHasMask (TlvHeader f) = 0 \<Longrightarrow>
     instrs_fit [apply_actions [NewOfpActionSetField f, NewOfpActionOutput p l]]"
  by (simp add: instrs_fit_def set_field_size field_fitsD)

lemma instrs_fit_tunnel [simp]:
  "instrs_fit [apply_actions [NewOfpActionSetField (tunnel_field v)], NewOfpInstructionGotoTable t]"
  using field_fits_tunnel [of v]
  by (simp add: instrs_fit_def set_field_size field_fitsD)

text \<open>The shapes of the controller's matches.\<close>

lemma flow_valid_shapes:
  assumes "instrs_fit ins"
  shows "flow_valid (flow_add tab prio [] ins x)"
    and "flow_valid (flow_add tab prio [NewOxmEthType t] ins x)"
    and "field_fits f k \<Longrightarrow> k \<in> {8, 12} \<Longrightarrow> abs_oxm f = WIpv4Dst v m \<Longrightarrow>
      flow_valid (flow_add tab prio [NewOxmEthType 0x0800, f] ins x)"
    and "field_fits f k \<Longrightarrow> k \<in> {8, 12} \<Longrightarrow> abs_oxm f = WArpTpa v m \<Longrightarrow>
      flow_valid (flow_add tab prio [NewOxmEthType 0x0806, f] ins x)"
    and "field_fits f 12 \<Longrightarrow> abs_oxm f = WIpv4Dst v m \<Longrightarrow>
      flow_valid (flow_add tab prio [NewOxmEthType 0x0800, f, tunnel_field vs] ins x)"
    and "field_fits f 12 \<Longrightarrow> abs_oxm f = WArpTpa v m \<Longrightarrow>
      flow_valid (flow_add tab prio [NewOxmEthType 0x0806, f, tunnel_field vs] ins x)"
proof -
  note et = field_fitsD [OF field_fits_type] and tu = field_fitsD [OF field_fits_tunnel]
  note rule = flow_add_valid [where tab = tab and prio = prio and ins = ins and x = x]
  note facts = assms [unfolded instrs_fit_def] et tu
  show "flow_valid (flow_add tab prio [] ins x)"
    by (rule rule) (use facts in \<open>auto simp: field_fits_def\<close>)
  show "flow_valid (flow_add tab prio [NewOxmEthType t] ins x)"
    by (rule rule) (use facts in \<open>auto simp: field_fits_def\<close>)
  show "field_fits f k \<Longrightarrow> k \<in> {8, 12} \<Longrightarrow> abs_oxm f = WIpv4Dst v m \<Longrightarrow>
      flow_valid (flow_add tab prio [NewOxmEthType 0x0800, f] ins x)"
    by (rule rule) (use facts in \<open>auto simp: field_fits_def\<close>)
  show "field_fits f k \<Longrightarrow> k \<in> {8, 12} \<Longrightarrow> abs_oxm f = WArpTpa v m \<Longrightarrow>
      flow_valid (flow_add tab prio [NewOxmEthType 0x0806, f] ins x)"
    by (rule rule) (use facts in \<open>auto simp: field_fits_def\<close>)
  show "field_fits f 12 \<Longrightarrow> abs_oxm f = WIpv4Dst v m \<Longrightarrow>
      flow_valid (flow_add tab prio [NewOxmEthType 0x0800, f, tunnel_field vs] ins x)"
    by (rule rule) (use facts in \<open>auto simp: field_fits_def\<close>)
  show "field_fits f 12 \<Longrightarrow> abs_oxm f = WArpTpa v m \<Longrightarrow>
      flow_valid (flow_add tab prio [NewOxmEthType 0x0806, f, tunnel_field vs] ins x)"
    by (rule rule) (use facts in \<open>auto simp: field_fits_def\<close>)
qed

subsection \<open>Every flow is valid\<close>

definition good_cidr :: "string \<Rightarrow> bool" where
  "good_cidr s \<longleftrightarrow> (\<exists>ip n. cidr_of s ip n)"

lemma good_cidr_fields:
  assumes "good_cidr s"
  shows "newOxmIpv4SubnetDst s = Inr f \<Longrightarrow> field_fits f 12 \<and> (\<exists>v m. abs_oxm f = WIpv4Dst v m)"
    and "newOxmArpDst s = Inr f \<Longrightarrow> field_fits f 12 \<and> (\<exists>v m. abs_oxm f = WArpTpa v m)"
proof -
  obtain ip n where c: "cidr_of s ip n" using assms by (auto simp: good_cidr_def)
  show "newOxmIpv4SubnetDst s = Inr f \<Longrightarrow> field_fits f 12 \<and> (\<exists>v m. abs_oxm f = WIpv4Dst v m)"
    "newOxmArpDst s = Inr f \<Longrightarrow> field_fits f 12 \<and> (\<exists>v m. abs_oxm f = WArpTpa v m)"
    using field_fits_subnet [OF c] by (auto simp: subnet_dst [OF c])
qed

abbreviation flows_valid :: "OfpFlowMod list \<Rightarrow> bool" where
  "flows_valid \<equiv> list_all flow_valid"

lemma ensures_valid_flow:
  assumes "\<And>x. flow_valid (flow_add tab prio fs ins x)"
  shows "go_ensures flow_valid (new_flow tab prio (match_of fs) ins)"
  using assms by (rule go_ensures_new_flow)

lemma valid_ip_flow:
  assumes "newOxmIpv4SubnetDst s = Inr f" and "good_cidr s" and "instrs_fit ins"
  shows "go_ensures flow_valid (new_flow tab prio (match_of [NewOxmEthType 0x0800, f]) ins)"
    and "go_ensures flow_valid (new_flow tab prio (match_of [NewOxmEthType 0x0800, f, tunnel_field vs]) ins)"
  using good_cidr_fields(1) [OF assms(2,1)] flow_valid_shapes [OF assms(3)]
  by (auto intro!: ensures_valid_flow)

lemma valid_arp_flow:
  assumes "newOxmArpDst s = Inr f" and "good_cidr s" and "instrs_fit ins"
  shows "go_ensures flow_valid (new_flow tab prio (match_of [NewOxmEthType 0x0806, f]) ins)"
    and "go_ensures flow_valid (new_flow tab prio (match_of [NewOxmEthType 0x0806, f, tunnel_field vs]) ins)"
  using good_cidr_fields(2) [OF assms(2,1)] flow_valid_shapes [OF assms(3)]
  by (auto intro!: ensures_valid_flow)

lemma valid_host_flow:
  assumes "instrs_fit ins"
  shows "NewOxmIpv4Dst s = Inr f \<Longrightarrow>
      go_ensures flow_valid (new_flow tab prio (match_of [NewOxmEthType 0x0800, f]) ins)"
    and "NewOxmArpTpa s = Inr f \<Longrightarrow>
      go_ensures flow_valid (new_flow tab prio (match_of [NewOxmEthType 0x0806, f]) ins)"
  using host_fields [of s f] flow_valid_shapes [OF assms]
  by (auto intro!: ensures_valid_flow)

lemma classification_flows_valid:
  assumes "good_cidr (ctl_podCIDR c)" and "good_cidr (ctl_clusterCIDR c)"
  shows "go_ensures flows_valid (classification_flows c)"
  unfolding classification_flows_def
  by (rule go_ensures_bind [OF go_ensures_lift_eq]
      go_ensures_bind [OF valid_ip_flow(1)] go_ensures_return | simp add: assms)+

lemma overlay_flows_valid:
  assumes "good_cidr (PodCIDR (Spec v))"
  shows "go_ensures flows_valid (overlay_flows v)"
  unfolding overlay_flows_def Let_def
  by (rule go_ensures_bind [OF go_ensures_lift_eq]
      go_ensures_bind [OF valid_ip_flow(1)] go_ensures_bind [OF valid_arp_flow(1)] go_ensures_return
      | assumption | simp add: assms)+

lemma local_l3_flows_valid:
  assumes "good_cidr (PodCIDR (Spec v))"
  shows "go_ensures flows_valid (local_l3_flows v)"
  unfolding local_l3_flows_def Let_def
  by (rule go_ensures_bind [OF go_ensures_lift_eq]
      go_ensures_bind [OF valid_ip_flow(2)] go_ensures_bind [OF valid_arp_flow(2)] go_ensures_return
      | assumption | simp add: assms)+

lemma addTunnelDstFlows_ensures: "go_ensures (\<lambda>_. True) (addTunnelDstFlows ex v cidr p)"
  unfolding addTunnelDstFlows_def
  by (rule go_ensures_bind [OF go_ensures_wrap [OF go_ensures_host]] go_ensures_return | simp)+

lemma flowsForVSwitch_valid:
  assumes "good_cidr (ctl_podCIDR c)" and "good_cidr (ctl_clusterCIDR c)" and "good_cidr (PodCIDR (Spec v))"
  shows "go_ensures flows_valid (flowsForVSwitch ex c v)"
proof -
  note cl = classification_flows_valid [OF assms(1,2)]
  have remote: "go_ensures flows_valid (go_bind (overlay_flows v) (\<lambda>overlay.
      go_bind (go_wrap W (addTunnelDstFlows ex v cidr p)) (\<lambda>_. go_return (flows @ overlay))))"
    if "flows_valid flows" for flows W cidr p
    using that
    by (intro go_ensures_bind [OF overlay_flows_valid [OF assms(3)]]
      go_ensures_bind [OF go_ensures_wrap [OF addTunnelDstFlows_ensures]] go_ensures_return) simp
  have local: "go_ensures flows_valid (go_bind (local_l3_flows v) (\<lambda>local. go_return (flows @ local)))"
    if "flows_valid flows" for flows
    using that by (intro go_ensures_bind [OF local_l3_flows_valid [OF assms(3)]] go_ensures_return) simp
  show ?thesis
    unfolding flowsForVSwitch_def Let_def
    by (rule go_ensures_bind [OF go_ensures_wrap [OF go_ensures_ofPort]], rule go_ensures_bind [OF cl])
      (simp add: remote local)
qed

text \<open>The same for calls that can panic.\<close>

definition gop_ensures :: "('a \<Rightarrow> bool) \<Rightarrow> ('e of_world, 'a) gop \<Rightarrow> bool" where
  "gop_ensures P m \<longleftrightarrow>
     (\<forall>w r w'. run_state m w = (r, w') \<longrightarrow> sent w' = sent w \<and> (\<forall>x. r = Returns (Inr x) \<longrightarrow> P x))"

lemma gop_ensures_bind:
  assumes "gop_ensures Q m" and "\<And>x. Q x \<Longrightarrow> gop_ensures P (f x)"
  shows "gop_ensures P (gop_bind m f)"
  unfolding gop_ensures_def
proof (intro allI impI)
  fix w r w'
  assume run: "run_state (gop_bind m f) w = (r, w')"
  obtain r1 w1 where m: "run_state m w = (r1, w1)" by fastforce
  have *: "sent w1 = sent w" "r1 = Returns (Inr x) \<Longrightarrow> Q x" for x
    using assms(1) m by (auto simp: gop_ensures_def)
  show "sent w' = sent w \<and> (\<forall>x. r = Returns (Inr x) \<longrightarrow> P x)"
    using run m * assms(2) unfolding run_simps gop_ensures_def
    by (fastforce split: outcome.splits sum.splits)
qed

lemma gop_ensures_wrap: "gop_ensures P m \<Longrightarrow> gop_ensures P (gop_wrap w m)"
  unfolding gop_ensures_def by (fastforce simp: run_simps split: prod.splits outcome.splits sum.splits)

lemma gop_ensures_of: "go_ensures P m \<Longrightarrow> gop_ensures P (gop_of m)"
  unfolding gop_ensures_def go_ensures_def by (fastforce simp: run_simps split: prod.splits)

lemma gop_ensures_simple [simp]:
  "gop_ensures P (gop_fail e)" "gop_ensures P (gop_panic p)" "gop_ensures P (gop_return x) \<longleftrightarrow> P x"
  "gop_ensures (\<lambda>x. r = Inr x) (gop_lift r)"
  by (auto simp: gop_ensures_def run_simps)

lemma findPort_ensures: "gop_ensures (\<lambda>_. True) (findPort ex ns n)"
  unfolding findPort_def
  by (intro gop_ensures_bind [OF gop_ensures_wrap [OF gop_ensures_of [OF go_ensures_host]]]
      gop_ensures_bind [OF gop_ensures_simple(4)])
    (simp split: list.split)

lemma macAddrFromPort_ensures: "go_ensures (\<lambda>_. True) (macAddrFromPort ex n)"
  unfolding macAddrFromPort_def
  by (rule go_ensures_bind [OF go_ensures_wrap [OF go_ensures_host]]) (rule go_ensures_return, simp)

lemma pod_flows_valid: "gop_ensures flows_valid (addDataLinkFlowsForLocalIP ex pod)"
  unfolding addDataLinkFlowsForLocalIP_def
  apply (rule gop_ensures_bind [OF gop_ensures_wrap [OF findPort_ensures]])
  apply (rule gop_ensures_of)
  apply (rule go_ensures_bind [OF go_ensures_wrap [OF macAddrFromPort_ensures]])
  apply (rule go_ensures_bind [OF go_ensures_wrap [OF go_ensures_ofPort]])
  apply (rule go_ensures_bind [OF go_ensures_lift_eq])+
  apply (rule go_ensures_bind [OF valid_host_flow(1)])
    apply (simp add: instrs_fit_eth host_fields)
   apply simp
  apply (rule go_ensures_bind [OF go_ensures_lift_eq])
  apply (rule go_ensures_bind [OF valid_host_flow(2)])
    apply simp_all
  apply (rule go_ensures_return)
  apply simp
  done

lemma gateway_flows_valid: "go_ensures flows_valid (addDataLinkFlowForGateway ex c)"
  unfolding addDataLinkFlowForGateway_def
  apply (rule go_ensures_bind [OF go_ensures_wrap [OF go_ensures_ofPort]])
  apply (rule go_ensures_bind [OF go_ensures_lift_eq])+
  apply (rule go_ensures_bind [OF valid_host_flow(1)])
    apply (simp add: instrs_fit_eth host_fields)
   apply simp
  apply (rule go_ensures_bind [OF go_ensures_lift_eq])
  apply (rule go_ensures_bind [OF valid_host_flow(2)])
    apply simp_all
  apply (rule go_ensures_return)
  apply simp
  done

lemma arp_flows_valid:
  assumes "good_cidr (ctl_podCIDR c)" and "good_cidr (ctl_clusterCIDR c)"
  shows "go_ensures flows_valid (defaultARPFlows c)"
  unfolding defaultARPFlows_def
  by (rule go_ensures_bind [OF ensures_valid_flow [OF flow_valid_shapes(2)]] go_ensures_bind [OF go_ensures_lift_eq]
      go_ensures_bind [OF valid_arp_flow(1)] go_ensures_return | assumption | simp add: assms)+

subsection \<open>Handlers\<close>

datatype of_event = VSwitchEvent informer_event | PodEvent informer_event

fun of_handle :: "'e Exec \<Rightarrow> controller \<Rightarrow> of_event \<Rightarrow> ('e of_world, unit outcome) state" where
  "of_handle ex c (VSwitchEvent (AddEvent obj)) = State_Monad.bind (OnAddVSwitch ex c obj) (\<lambda>_. State_Monad.return (Returns ()))"
| "of_handle ex c (VSwitchEvent (UpdateEvent old new)) = State_Monad.bind (OnUpdateVSwitch ex c old new) (\<lambda>_. State_Monad.return (Returns ()))"
| "of_handle ex c (VSwitchEvent (DeleteEvent obj)) = State_Monad.bind (OnDeleteVSwitch ex c obj) (\<lambda>_. State_Monad.return (Returns ()))"
| "of_handle ex c (PodEvent (AddEvent obj)) = OnAddPod ex c obj"
| "of_handle ex c (PodEvent (UpdateEvent old new)) = OnUpdatePod ex c old new"
| "of_handle ex c (PodEvent (DeleteEvent obj)) = OnDeletePod ex c obj"

text \<open>A run over a sequence of events; a panic ends the process and with it the run.\<close>

fun of_run :: "'e Exec \<Rightarrow> controller \<Rightarrow> of_event list \<Rightarrow> 'e of_world \<Rightarrow> 'e of_world" where
  "of_run ex c [] w = w"
| "of_run ex c (ev # evs) w =
     (case run_state (of_handle ex c ev) w of
        (Returns _, w') \<Rightarrow> of_run ex c evs w'
      | (Panics _, w') \<Rightarrow> w')"

fun event_object :: "informer_event \<Rightarrow> runtime_object" where
  "event_object (AddEvent obj) = obj"
| "event_object (UpdateEvent old new) = new"
| "event_object (DeleteEvent obj) = obj"

fun of_event_ok :: "of_event \<Rightarrow> bool" where
  "of_event_ok (VSwitchEvent ev) =
     (case event_object ev of VSwitchConfigObj v \<Rightarrow> good_cidr (PodCIDR (Spec v)) | _ \<Rightarrow> True)"
| "of_event_ok (PodEvent ev) = True"

text \<open>The messages the controller sends: valid flows and messages with a fresh header.\<close>

fun msg_valid :: "OFMessage \<Rightarrow> bool" where
  "msg_valid (FlowModMsg m) = flow_valid m"
| "msg_valid (HeaderMsg h) = (HVersion h = 4 \<and> HLength h = 8)"
| "msg_valid (HelloMsg m) = (HVersion (HelloHeader m) = 4 \<and> HLength (HelloHeader m) = 8 \<and> HelloElements m = [])"
| "msg_valid _ = False"

lemma run_Send_flows [run_simps]:
  "run_state (Send_flows flows) w = ((), w\<lparr>sent := sent w @ map FlowModMsg flows\<rparr>)"
  by (induction flows arbitrary: w) (simp_all add: Send_def run_state_bind)

lemma sync_vswitch_valid:
  assumes "good_cidr (ctl_podCIDR c)" and "good_cidr (ctl_clusterCIDR c)" and "good_cidr (PodCIDR (Spec v))"
    and "run_state (sync_vswitch ex c v) w = (u, w')" and "list_all msg_valid (sent w)"
  shows "list_all msg_valid (sent w')"
proof -
  obtain r w1 where r: "run_state (flowsForVSwitch ex c v) w = (r, w1)" by fastforce
  note v = go_ensuresD [OF flowsForVSwitch_valid [OF assms(1-3)] r]
  show ?thesis
    using assms(4,5) r v
    by (cases r) (auto simp: sync_vswitch_def run_state_bind run_simps list_all_iff)
qed

lemma syncPod_valid:
  assumes "run_state (syncPod ex c pod) w = (r, w')" and "list_all msg_valid (sent w)"
  shows "list_all msg_valid (sent w')"
proof -
  obtain r1 w1 where r: "run_state (addDataLinkFlowsForLocalIP ex pod) w = (r1, w1)" by fastforce
  have v: "sent w1 = sent w" "\<And>x. r1 = Returns (Inr x) \<Longrightarrow> flows_valid x"
    using pod_flows_valid [of ex pod] r by (auto simp: gop_ensures_def)
  show ?thesis
    using assms v r
    by (auto simp: syncPod_def run_simps run_state_bind list_all_iff split: if_splits sum.splits outcome.splits)
qed

lemma of_handle_valid:
  assumes "good_cidr (ctl_podCIDR c)" and "good_cidr (ctl_clusterCIDR c)" and "of_event_ok ev"
    and "run_state (of_handle ex c ev) w = (r, w')" and "list_all msg_valid (sent w)"
  shows "list_all msg_valid (sent w')"
proof (cases ev)
  case (VSwitchEvent e)
  have "list_all msg_valid (sent w')" if "run_state (sync_vswitch ex c v) w = (u, w')" "good_cidr (PodCIDR (Spec v))" for v u
    using sync_vswitch_valid [OF assms(1,2) that(2,1) assms(5)] .
  then show ?thesis
    using assms VSwitchEvent
    by (cases e) (auto simp: OnAddVSwitch_def OnUpdateVSwitch_def OnDeleteVSwitch_def run_state_bind
      split: runtime_object.splits prod.splits)
next
  case (PodEvent e)
  have "list_all msg_valid (sent w')" if "run_state (syncPod ex c pod) w = (r', w')" for pod r'
    using syncPod_valid [OF that assms(5)] .
  then show ?thesis
    using assms PodEvent
    by (cases e) (auto simp: OnAddPod_def OnUpdatePod_def OnDeletePod_def run_simps
      split: runtime_object.splits prod.splits)
qed

lemma of_run_valid:
  assumes "good_cidr (ctl_podCIDR c)" and "good_cidr (ctl_clusterCIDR c)" and "list_all of_event_ok evs"
    and "list_all msg_valid (sent w)"
  shows "list_all msg_valid (sent (of_run ex c evs w))"
  using assms(3,4)
proof (induction evs arbitrary: w)
  case (Cons ev evs)
  obtain r w' where run: "run_state (of_handle ex c ev) w = (r, w')" by fastforce
  have "list_all msg_valid (sent w')"
    using of_handle_valid [OF assms(1,2) _ run] Cons.prems by simp
  then show ?case using run Cons by (cases r) auto
qed simp

lemma AddDefaultFlows_valid:
  assumes "good_cidr (ctl_podCIDR c)" and "good_cidr (ctl_clusterCIDR c)"
    and "run_state (AddDefaultFlows ex c br) w = (r, w')" and "list_all msg_valid (sent w)"
  shows "list_all msg_valid (sent w')"
proof -
  obtain r1 w1 where p: "run_state (ofPortFromName ex hostLocalPort) w = (r1, w1)" by fastforce
  note s1 = go_ensuresD(1) [OF go_ensures_ofPort p]
  show ?thesis
  proof (cases r1)
    case (Inl e)
    then show ?thesis using p s1 assms(3,4) by (auto simp: AddDefaultFlows_def run_simps)
  next
    case (Inr port)
    let ?f = "flow_add tableClassification 0 [] [apply_actions [NewOfpActionOutput port 0]] (xid_ctr w1)"
    let ?w2 = "w1\<lparr>xid_ctr := xid_ctr w1 + 1, sent := sent w1 @ [FlowModMsg ?f]\<rparr>"
    have f: "flow_valid ?f" by (rule flow_valid_shapes(1)) simp
    obtain r3 w3 where g: "run_state (addDataLinkFlowForGateway ex c) ?w2 = (r3, w3)" by fastforce
    note s3 = go_ensuresD [OF gateway_flows_valid g]
    have rest: "run_state (AddDefaultFlows ex c br) w = (r, w') \<Longrightarrow> ?thesis"
    proof (cases r3)
      case (Inl e)
      then show ?thesis using p g s1 s3 f Inr assms(3,4)
        by (auto simp: AddDefaultFlows_def run_simps run_state_bind Send_def NewOfpMatch_match_of)
    next
      case (Inr gflows)
      let ?w4 = "w3\<lparr>sent := sent w3 @ map FlowModMsg gflows\<rparr>"
      obtain r5 w5 where a: "run_state (defaultARPFlows c) ?w4 = (r5, w5)" by fastforce
      note s5 = go_ensuresD [OF arp_flows_valid [OF assms(1,2)] a]
      show ?thesis using p g a s1 s3 s5 f Inr \<open>r1 = Inr port\<close> assms(3,4)
        by (cases r5) (auto simp: AddDefaultFlows_def run_simps run_state_bind Send_def NewOfpMatch_match_of list_all_iff)
    qed
    then show ?thesis using assms(3) by simp
  qed
qed

lemma Initialize_valid:
  assumes "run_state Initialize w = (r, w')" and "list_all msg_valid (sent w)"
  shows "list_all msg_valid (sent w')"
  using assms by (auto simp: Initialize_def NewOfpHello_def)

lemma Run_step_valid:
  assumes "Run_step m (c, w) = (c', w')" and "list_all msg_valid (sent w)"
  shows "list_all msg_valid (sent w')"
  using assms
  by (auto simp: Run_step_def send_new_def NewOfpEchoReply_def NewOfpFeaturesRequest_def
    split: OFMessage.splits if_splits)

text \<open>A valid message has bytes, as many as its length field says.\<close>

lemma msg_valid_bytes:
  assumes "msg_valid m"
  shows "\<exists>bs. Serialize m = Returns bs \<and> 8 \<le> length bs \<and> bs ! 0 = 4 \<and> unat (of_be16 (drop 2 bs)) = length bs"
proof (cases m)
  case (HeaderMsg h)
  then show ?thesis using assms
    by (auto simp: OfpHeader_Serialize_eq enc_header_def)
next
  case (HelloMsg h)
  then have "OfpHello_Serialize h = Returns (enc_header (HelloHeader h))"
    using assms by (simp add: OfpHello_Serialize_def OfpHello_Size_def make_bytes_def OfpHeader_Serialize_eq pad_simps)
  then show ?thesis using HelloMsg assms by (auto simp: enc_header_def)
next
  case (FlowModMsg f)
  then have ok: "flow_mod_ok f" "flow_mod_clean f" using assms by (auto simp: flow_valid_def)
  let ?bs = "enc_flow_mod f"
  note fixed = flow_mod_fixed [of ?bs "(FHeader f)\<lparr>HLength := of_nat (OfpFlowMod_Size f)\<rparr>" f
      "enc_match (FMatch f) @ concat (map enc_instr (Instructions f))"]
  have "OfpFlowMod_Size f < 2 ^ 16" using ok(2) by (simp add: flow_mod_clean_def)
  then have "unat (of_nat (OfpFlowMod_Size f) :: uint16) = length ?bs"
    using enc_flow_mod_length [OF ok(1)] by (simp add: unat_of_nat_16)
  moreover have "8 \<le> length ?bs" using enc_flow_mod_length [OF ok(1)] by (simp add: OfpFlowMod_Size_eq)
  ultimately show ?thesis
    using FlowModMsg OfpFlowMod_Serialize_ok [OF ok(1)] fixed ok(2)
    by (auto simp: enc_flow_mod_def flow_mod_clean_def)
qed (use assms in auto)

end
