(* ===== verification/Of_Entries.thy ===== *)
theory Of_Entries
  imports Of_Flows
begin

text \<open>
  The flow entries the controller installs, handler by handler, and the properties of the
  controller that its messages carry: they are well formed, they describe exactly the
  intended entries, and the handshake with the switch is answered.
\<close>

subsection \<open>Reading the Open vSwitch database\<close>

text \<open>
  \<open>reads_port ex h name p\<close>: on host state \<open>h\<close>, \<open>ovs-vsctl get Interface <name> ofport\<close> prints
  the number \<open>p\<close> on a line and changes nothing.
\<close>

definition reads_port :: "'e Exec \<Rightarrow> 'e \<Rightarrow> string \<Rightarrow> nat \<Rightarrow> bool" where
  "reads_port ex h name p \<longleftrightarrow> p < 2 ^ 32 \<and>
     run_state (CombinedOutput ex ''ovs-vsctl'' [''get'', ''Interface'', name, ''ofport'']) h =
       (Inr (nat_string p @ [CHR 0x0A]), h)"

lemma on_host_frame:
  assumes "run_state m (host w) = (r, host w)"
  shows "run_state (on_host m) w = (r, w)"
  using assms by (simp add: on_host_def)

lemma TrimSpace_number: "strings_TrimSpace (nat_string n @ [CHR 0x0A]) = nat_string n"
proof -
  have "nat_string n \<noteq> []" using nat_string_digits by blast
  moreover have "is_space (CHR 0x0A)" by (simp add: is_space_def)
  moreover have "\<not> is_space (hd (nat_string n))" "\<not> is_space (last (nat_string n))"
    using calculation(1) nat_string_nospace hd_in_set last_in_set by blast+
  ultimately show ?thesis
    using strings_TrimSpace_padded [of "nat_string n" "[]" "[CHR 0x0A]"] by simp
qed

lemma run_ofPortFromName:
  assumes "reads_port ex (host w) name p"
  shows "run_state (ofPortFromName ex name) w = (Inr (of_nat p), w)"
proof -
  have p: "p < 2 ^ 63" and out: "run_state (on_host (CombinedOutput ex ''ovs-vsctl''
      [''get'', ''Interface'', name, ''ofport''])) w = (Inr (nat_string p @ [CHR 0x0A]), w)"
    using assms by (auto simp: reads_port_def intro!: on_host_frame)
  show ?thesis
    by (simp add: ofPortFromName_def run_simps out TrimSpace_number Atoi_nat_string [OF p])
qed

subsection \<open>Start-up flows\<close>

definition default_entries :: "IP \<Rightarrow> HardwareAddr \<Rightarrow> IP \<Rightarrow> nat \<Rightarrow> IP \<Rightarrow> nat \<Rightarrow> uint32 \<Rightarrow> flow_entry list" where
  "default_entries gw mac pip pn cip cn p =
     [entry 0 0 [] [WApplyActions [WOutput p 0]],
      entry 0 500 [WEthType 0x0800, WIpv4Dst gw ones4] [WApplyActions [WSetField (WEthDst mac), WOutput p 0]],
      entry 10 500 [WEthType 0x0806, WArpTpa gw ones4] [WApplyActions [WOutput p 0]],
      entry 0 200 [WEthType 0x0806] [WGotoTable 10],
      entry 10 100 [WEthType 0x0806, WArpTpa pip (mask4 pn)] [WGotoTable 50],
      entry 10 50 [WEthType 0x0806, WArpTpa cip (mask4 cn)] [WGotoTable 20]]"

lemma host_ip_fields:
  assumes "length ip = 4"
  shows "NewOxmIpv4Dst (dotted ip) = Inr (OxmIpv4 OXM_OF_IPV4_DST (v4InV6Prefix @ ip) [])"
    and "NewOxmArpTpa (dotted ip) = Inr (OxmArpPa OXM_OF_ARP_TPA (v4InV6Prefix @ ip) [])"
  using assms
  by (simp_all add: NewOxmIpv4Dst_def NewOxmIpv4_def NewOxmArpTpa_def NewOxmArpPa_def ParseIP_dotted)

lemma host_eth_field:
  assumes "length mac = 6"
  shows "NewOxmEthDst (hw_String mac) = Inr (OxmEth OXM_OF_ETH_DST mac [])"
  using assms by (simp add: NewOxmEthDst_def NewOxmEth_def ParseMAC_hw_String)

lemma AddDefaultFlows_entries:
  assumes "cidr_of (ctl_podCIDR c) pip pn" and "cidr_of (ctl_clusterCIDR c) cip cn"
    and "ctl_gatewayIP c = dotted gw" and "length gw = 4"
    and "ctl_gatewayMAC c = hw_String mac" and "length mac = 6"
    and "reads_port ex (host w) ''host-local'' p"
  shows "\<exists>w' flows. run_state (AddDefaultFlows ex c br) w = (Inr (), w') \<and> host w' = host w \<and>
    sent w' = sent w @ map FlowModMsg flows \<and>
    map abs_flow flows = default_entries gw mac pip pn cip cn (of_nat p)"
  unfolding AddDefaultFlows_def addDataLinkFlowForGateway_def defaultARPFlows_def
  using assms host_ip_fields [OF assms(4)] host_eth_field [OF assms(6)] run_ofPortFromName [of ex _ "''host-local''" p]
  by (auto simp: run_simps run_state_bind Send_def NewOfpMatch_match_of subnet_dst [OF assms(1)] subnet_dst [OF assms(2)]
    abs_flow_add default_entries_def intro!: exI [where x = "_ # _ # _ # _ # _ # [_]"])

subsection \<open>Flows for virtual switches\<close>

definition classification_entries :: "IP \<Rightarrow> nat \<Rightarrow> IP \<Rightarrow> nat \<Rightarrow> flow_entry list" where
  "classification_entries pip pn cip cn =
     [entry 0 300 [WEthType 0x0800, WIpv4Dst pip (mask4 pn)] [WGotoTable 50],
      entry 0 100 [WEthType 0x0800, WIpv4Dst cip (mask4 cn)] [WGotoTable 20]]"

definition overlay_entries :: "IP \<Rightarrow> nat \<Rightarrow> uint64 \<Rightarrow> flow_entry list" where
  "overlay_entries ip n tid =
     [entry 20 100 [WEthType 0x0800, WIpv4Dst ip (mask4 n)] [WApplyActions [WSetField (WTunnelId tid)], WGotoTable 40],
      entry 20 100 [WEthType 0x0806, WArpTpa ip (mask4 n)] [WApplyActions [WSetField (WTunnelId tid)], WGotoTable 40]]"

definition local_entries :: "IP \<Rightarrow> nat \<Rightarrow> uint64 \<Rightarrow> flow_entry list" where
  "local_entries ip n tid =
     [entry 40 100 [WEthType 0x0800, WIpv4Dst ip (mask4 n), WTunnelId tid] [WGotoTable 50],
      entry 40 100 [WEthType 0x0806, WArpTpa ip (mask4 n), WTunnelId tid] [WGotoTable 50]]"

lemma run_classification:
  assumes "cidr_of (ctl_podCIDR c) pip pn" and "cidr_of (ctl_clusterCIDR c) cip cn"
  shows "\<exists>w' flows. run_state (classification_flows c) w = (Inr flows, w') \<and> host w' = host w \<and>
    sent w' = sent w \<and> map abs_flow flows = classification_entries pip pn cip cn"
  unfolding classification_flows_def
  by (simp add: run_simps subnet_dst [OF assms(1)] subnet_dst [OF assms(2)] abs_flow_add classification_entries_def)

lemma run_overlay:
  assumes "cidr_of (PodCIDR (Spec v)) ip n"
  shows "\<exists>w' flows. run_state (overlay_flows v) w = (Inr flows, w') \<and> host w' = host w \<and>
    sent w' = sent w \<and> map abs_flow flows = overlay_entries ip n (scast (tunnelID v))"
  unfolding overlay_flows_def Let_def
  by (simp add: run_simps subnet_dst [OF assms] abs_flow_add overlay_entries_def)

lemma run_local_l3:
  assumes "cidr_of (PodCIDR (Spec v)) ip n"
  shows "\<exists>w' flows. run_state (local_l3_flows v) w = (Inr flows, w') \<and> host w' = host w \<and>
    sent w' = sent w \<and> map abs_flow flows = local_entries ip n (scast (tunnelID v))"
  unfolding local_l3_flows_def Let_def
  by (simp add: run_simps subnet_dst [OF assms] abs_flow_add local_entries_def)

text \<open>The two \<open>ovs-ofctl add-flow\<close> commands for another node's pods.\<close>

definition adds_tunnel_flows :: "'e Exec \<Rightarrow> 'e \<Rightarrow> VSwitchConfig \<Rightarrow> nat \<Rightarrow> 'e \<Rightarrow> bool" where
  "adds_tunnel_flows ex h v port h' \<longleftrightarrow>
     (\<exists>o1 o2 h1.
       run_state (CombinedOutput ex ''ovs-ofctl'' [''add-flow'', ''kube-ovs0'',
         tunnel_flow_text ''ip'' v (PodCIDR (Spec v)) (int port)]) h = (Inr o1, h1) \<and>
       run_state (CombinedOutput ex ''ovs-ofctl'' [''add-flow'', ''kube-ovs0'',
         tunnel_flow_text ''arp'' v (PodCIDR (Spec v)) (int port)]) h1 = (Inr o2, h'))"

lemma run_addTunnelDstFlows:
  assumes "adds_tunnel_flows ex (host w) v port h'"
  shows "run_state (addTunnelDstFlows ex v (PodCIDR (Spec v)) (int port)) w = (Inr (), w\<lparr>host := h'\<rparr>)"
  using assms by (auto simp: adds_tunnel_flows_def addTunnelDstFlows_def run_simps on_host_def)

lemma uint_of_nat_port: "p < 2 ^ 32 \<Longrightarrow> uint (of_nat p :: uint32) = int p"
  by (simp add: uint_nat unat_of_nat)

lemma OnAddVSwitch_remote:
  assumes "cidr_of (ctl_podCIDR c) pip pn" and "cidr_of (ctl_clusterCIDR c) cip cn"
    and "cidr_of (PodCIDR (Spec v)) ip n" and "vname v \<noteq> ctl_nodeName c"
    and port: "reads_port ex (host w) ''vxlan0'' p" and tun: "adds_tunnel_flows ex (host w) v p h'"
  shows "\<exists>w' flows. run_state (sync_vswitch ex c v) w = ((), w') \<and> host w' = h' \<and>
    sent w' = sent w @ map FlowModMsg flows \<and>
    map abs_flow flows = classification_entries pip pn cip cn @ overlay_entries ip n (scast (tunnelID v))"
proof -
  obtain w1 f1 where 1: "run_state (classification_flows c) w = (Inr f1, w1)" "host w1 = host w" "sent w1 = sent w"
    "map abs_flow f1 = classification_entries pip pn cip cn"
    using run_classification [OF assms(1,2)] by blast
  obtain w2 f2 where 2: "run_state (overlay_flows v) w1 = (Inr f2, w2)" "host w2 = host w1" "sent w2 = sent w1"
    "map abs_flow f2 = overlay_entries ip n (scast (tunnelID v))"
    using run_overlay [OF assms(3)] by blast
  have 3: "run_state (addTunnelDstFlows ex v (PodCIDR (Spec v)) (int p)) w2 = (Inr (), w2\<lparr>host := h'\<rparr>)"
    using tun 1 2 by (intro run_addTunnelDstFlows) simp
  have p: "uint (of_nat p :: uint32) = int p" using port by (simp add: reads_port_def uint_of_nat_port)
  have "run_state (flowsForVSwitch ex c v) w = (Inr (f1 @ f2), w2\<lparr>host := h'\<rparr>)"
    using assms(4) by (simp add: flowsForVSwitch_def run_simps run_ofPortFromName [OF port] 1 2 3 p)
  then show ?thesis
    using 1 2 by (simp add: sync_vswitch_def run_state_bind run_simps exI [where x = "f1 @ f2"])
qed

lemma OnAddVSwitch_local:
  assumes "cidr_of (ctl_podCIDR c) pip pn" and "cidr_of (ctl_clusterCIDR c) cip cn"
    and "cidr_of (PodCIDR (Spec v)) ip n" and "vname v = ctl_nodeName c"
    and port: "reads_port ex (host w) ''vxlan0'' p"
  shows "\<exists>w' flows. run_state (sync_vswitch ex c v) w = ((), w') \<and> host w' = host w \<and>
    sent w' = sent w @ map FlowModMsg flows \<and>
    map abs_flow flows = classification_entries pip pn cip cn @ local_entries ip n (scast (tunnelID v))"
proof -
  obtain w1 f1 where 1: "run_state (classification_flows c) w = (Inr f1, w1)" "host w1 = host w" "sent w1 = sent w"
    "map abs_flow f1 = classification_entries pip pn cip cn"
    using run_classification [OF assms(1,2)] by blast
  obtain w2 f2 where 2: "run_state (local_l3_flows v) w1 = (Inr f2, w2)" "host w2 = host w1" "sent w2 = sent w1"
    "map abs_flow f2 = local_entries ip n (scast (tunnelID v))"
    using run_local_l3 [OF assms(3)] by blast
  have "run_state (flowsForVSwitch ex c v) w = (Inr (f1 @ f2), w2)"
    using assms(4) by (simp add: flowsForVSwitch_def run_simps run_ofPortFromName [OF port] 1 2)
  then show ?thesis
    using 1 2 by (simp add: sync_vswitch_def run_state_bind run_simps exI [where x = "f1 @ f2"])
qed

subsection \<open>Flows for pods\<close>

definition pod_entries :: "IP \<Rightarrow> HardwareAddr \<Rightarrow> uint32 \<Rightarrow> flow_entry list" where
  "pod_entries ip mac p =
     [entry 50 100 [WEthType 0x0800, WIpv4Dst ip ones4] [WApplyActions [WSetField (WEthDst mac), WOutput p 0]],
      entry 50 100 [WEthType 0x0806, WArpTpa ip ones4] [WApplyActions [WOutput p 0]]]"

text \<open>
  The database holds a port for the pod: the \<open>find\<close> lists it first, \<open>get port mac\<close> prints its
  address in quotes, and it has an OpenFlow port number.
\<close>

definition reads_pod :: "'e Exec \<Rightarrow> 'e \<Rightarrow> Pod \<Rightarrow> HardwareAddr \<Rightarrow> nat \<Rightarrow> bool" where
  "reads_pod ex h pod mac p \<longleftrightarrow>
     (\<exists>out portName cols rows.
       run_state (Output ex ''ovs-vsctl'' [''--format=json'', ''--column=name'', ''find'', ''port'',
         ''external-ids:k8s_pod_namespace='' @ Namespace (PodMeta pod),
         ''external-ids:k8s_pod_name='' @ Name (PodMeta pod)]) h = (Inr out, h) \<and>
       unmarshal_Data out = Inr ((portName # cols) # rows) \<and>
       run_state (Output ex ''ovs-vsctl'' [''get'', ''port'', portName, ''mac'']) h =
         (Inr (CHR 0x22 # hw_String mac @ [CHR 0x22, CHR 0x0A]), h) \<and>
       reads_port ex h portName p)"

lemma strip_quoted: "s \<noteq> [] \<Longrightarrow> strip_quotes (strings_TrimSpace (CHR 0x22 # s @ [CHR 0x22, CHR 0x0A])) = s"
proof -
  assume "s \<noteq> []"
  have "strings_TrimSpace ([] @ (CHR 0x22 # s @ [CHR 0x22]) @ [CHR 0x0A]) = CHR 0x22 # s @ [CHR 0x22]"
    by (rule strings_TrimSpace_padded) (simp_all add: is_space_def)
  then show ?thesis by (simp add: strip_quotes_def nth_append)
qed

lemma syncPod_entries:
  assumes "isLocalIP c (PodIP pod) = Inr True" and "PodIP pod = dotted ip" and "length ip = 4"
    and "length mac = 6" and "reads_pod ex (host w) pod mac p"
  shows "\<exists>w' flows. run_state (syncPod ex c pod) w = (Returns (Inr ()), w') \<and> host w' = host w \<and>
    sent w' = sent w @ map FlowModMsg flows \<and> map abs_flow flows = pod_entries ip mac (of_nat p)"
proof -
  obtain out portName cols rows where
    find: "run_state (Output ex ''ovs-vsctl'' [''--format=json'', ''--column=name'', ''find'', ''port'',
         ''external-ids:k8s_pod_namespace='' @ Namespace (PodMeta pod),
         ''external-ids:k8s_pod_name='' @ Name (PodMeta pod)]) (host w) = (Inr out, host w)"
    and data: "unmarshal_Data out = Inr ((portName # cols) # rows)"
    and mac: "run_state (Output ex ''ovs-vsctl'' [''get'', ''port'', portName, ''mac'']) (host w) =
         (Inr (CHR 0x22 # hw_String mac @ [CHR 0x22, CHR 0x0A]), host w)"
    and port: "reads_port ex (host w) portName p"
    using assms(5) unfolding reads_pod_def by blast
  have hw: "hw_String mac \<noteq> []"
    using ParseMAC_hw_String [OF assms(4)] by (auto simp: ParseMAC_def)
  have f: "run_state (findPort ex (Namespace (PodMeta pod)) (Name (PodMeta pod))) w = (Returns (Inr portName), w)"
    using on_host_frame [OF find] by (simp add: findPort_def run_simps data)
  have m: "run_state (macAddrFromPort ex portName) w = (Inr (hw_String mac), w)"
    by (simp add: macAddrFromPort_def run_simps on_host_frame [OF mac] strip_quoted [OF hw])
  let ?F1 = "flow_add 50 100 [NewOxmEthType 0x0800, OxmIpv4 OXM_OF_IPV4_DST (v4InV6Prefix @ ip) []]
      [apply_actions [NewOfpActionSetField (OxmEth OXM_OF_ETH_DST mac []), NewOfpActionOutput (of_nat p) 0]] (xid_ctr w)"
  let ?F2 = "flow_add 50 100 [NewOxmEthType 0x0806, OxmArpPa OXM_OF_ARP_TPA (v4InV6Prefix @ ip) []]
      [apply_actions [NewOfpActionOutput (of_nat p) 0]] (xid_ctr w + 1)"
  have flows: "run_state (addDataLinkFlowsForLocalIP ex pod) w =
      (Returns (Inr [?F1, ?F2]), w\<lparr>xid_ctr := xid_ctr w + 1 + 1\<rparr>)"
    using assms(2-4) host_ip_fields [OF assms(3)] host_eth_field [OF assms(4)]
    by (simp add: addDataLinkFlowsForLocalIP_def run_simps f m run_ofPortFromName [OF port])
  have ne: "dotted ip \<noteq> []" using find_dotted [OF assms(3)] by auto
  have run: "run_state (syncPod ex c pod) w = (Returns (Inr ()),
      w\<lparr>xid_ctr := xid_ctr w + 1 + 1, sent := sent w @ map FlowModMsg [?F1, ?F2]\<rparr>)"
    using assms(1,2) ne by (simp add: syncPod_def run_simps run_state_bind flows Send_def)
  have "map abs_flow [?F1, ?F2] = pod_entries ip mac (of_nat p)"
    using assms(4) by (simp add: abs_flow_add pod_entries_def)
  then show ?thesis
    unfolding run by (intro exI [where x = "[?F1, ?F2]"] exI conjI) (rule refl | simp)+
qed

subsection \<open>Start-up\<close>

lemma IP_String_v4: "length ip = 4 \<Longrightarrow> IP_String ip = dotted ip"
  by (auto simp: IP_String_def)

text \<open>The gateway is the address after the network address of the pod CIDR.\<close>

lemma NewController_gateway:
  assumes "cidr_of podCIDR ip n" and "hd ip \<noteq> 0" and "SetBytes ip + 1 < 256 ^ 4"
  shows "\<exists>c gw. NewController mac node podCIDR clusterCIDR = Returns c \<and> ctl_gatewayIP c = dotted gw \<and>
    length gw = 4 \<and> SetBytes gw = SetBytes ip + 1 \<and> ctl_podCIDR c = podCIDR \<and>
    ctl_clusterCIDR c = clusterCIDR \<and> ctl_gatewayMAC c = mac \<and> ctl_nodeName c = node"
proof -
  have ip: "length ip = 4" "n \<le> 32" "and_bytes ip (mask4 n) = ip" "podCIDR = cidr_string ip n"
    using assms(1) by (auto simp: cidr_of_def)
  note next_ip = NextIP_v4 [OF ip(1) assms(2,3)]
  have "NewController mac node podCIDR clusterCIDR = Returns
      \<lparr>ctl_datapathID = 0, ctl_nodeName = node, ctl_gatewayIP = IP_String (NextIP ip), ctl_gatewayMAC = mac,
       ctl_podCIDR = podCIDR, ctl_clusterCIDR = clusterCIDR\<rparr>"
    using ParseCIDR_cidr_string [OF ip(1,2)] ip IP_Mask_v4(2) [OF ip(1) mask4_length]
    by (simp add: NewController_def Let_def)
  then show ?thesis using next_ip IP_String_v4 [OF next_ip(1)] by fastforce
qed

lemma isLocalIP_iff:
  assumes "cidr_of (ctl_podCIDR c) ip n" and "length x = 4"
  shows "isLocalIP c (dotted x) = Inr (in_prefix ip n x)"
proof -
  have ip: "length ip = 4" "n \<le> 32" "ctl_podCIDR c = cidr_string ip n" using assms(1) by (auto simp: cidr_of_def)
  show ?thesis
    using ParseCIDR_cidr_string [OF ip(1,2)] Contains_prefix [OF ip(1) assms(2) ip(2)] ParseIP_dotted [OF assms(2)]
    by (simp add: isLocalIP_def ip(3) nil_or_def)
qed

subsection \<open>What the switch receives\<close>

text \<open>The entries a switch reads off the bytes of a sequence of messages.\<close>

definition entry_of :: "OFMessage \<Rightarrow> flow_entry option" where
  "entry_of m = (case Serialize m of Returns bs \<Rightarrow> dec_flow_mod bs | Panics _ \<Rightarrow> None)"

definition entries_of :: "OFMessage list \<Rightarrow> flow_entry list" where
  "entries_of msgs = List.map_filter entry_of msgs"

lemma entries_of_append [simp]: "entries_of (a @ b) = entries_of a @ entries_of b"
  by (simp add: entries_of_def List.map_filter_def)

lemma entry_of_flow: "flow_valid f \<Longrightarrow> entry_of (FlowModMsg f) = Some (abs_flow f)"
  using OfpFlowMod_Serialize_ok flow_mod_decodes by (simp add: entry_of_def flow_valid_def)

lemma entries_of_flows: "flows_valid flows \<Longrightarrow> entries_of (map FlowModMsg flows) = map abs_flow flows"
  by (induction flows) (simp_all add: entries_of_def List.map_filter_simps entry_of_flow)

lemma sent_entries:
  assumes "sent w' = sent w @ map FlowModMsg flows" and "list_all msg_valid (sent w')"
    and "map abs_flow flows = es"
  shows "entries_of (sent w') = entries_of (sent w) @ es"
proof -
  have "list_all msg_valid (map FlowModMsg flows)" using assms(1,2) by simp
  then have "flows_valid flows" by (simp add: list.pred_map comp_def)
  then show ?thesis using assms(1,3) by (simp add: entries_of_flows)
qed

lemma cidr_of_good: "cidr_of s ip n \<Longrightarrow> good_cidr s"
  by (auto simp: good_cidr_def)

subsection \<open>A host for the examples\<close>

definition demo_exec :: "unit Exec" where
  "demo_exec =
     \<lparr>CombinedOutput = (\<lambda>cmd args. State (\<lambda>e. (Inr (if cmd = ''ovs-vsctl'' then ''5'' @ [CHR 0x0A] else []), e))),
      Output = (\<lambda>cmd args. State (\<lambda>e. (Inr (if hd args = ''get'' then CHR 0x22 # ''0a:00:00:00:00:07'' @ [CHR 0x22, CHR 0x0A]
         else [CHR 0x7B, CHR 0x22] @ ''data'' @ [CHR 0x22] @ '':[['' @ [CHR 0x22] @ ''veth1'' @ [CHR 0x22] @ '']]'' @ [CHR 0x7D]), e)))\<rparr>"

definition demo_ctl :: controller where
  "demo_ctl = \<lparr>ctl_datapathID = 0, ctl_nodeName = ''node1'', ctl_gatewayIP = ''10.244.1.1'',
     ctl_gatewayMAC = ''0a:00:00:00:00:01'', ctl_podCIDR = ''10.244.1.0/24'', ctl_clusterCIDR = ''10.244.0.0/16''\<rparr>"

definition demo_vswitch :: "string \<Rightarrow> string \<Rightarrow> VSwitchConfig" where
  "demo_vswitch n cidr =
     \<lparr>TypeMetaOf = \<lparr>Kind = [], APIVersion = []\<rparr>,
      Meta = \<lparr>Name = n, Namespace = [], ResourceVersion = [], Labels = []\<rparr>,
      Spec = \<lparr>PodCIDR = cidr, ClusterCIDR = ''10.244.0.0/16'', ServiceCIDR = ''10.96.0.0/12'',
        OverlayIP = ''192.168.0.2'', OverlayType = ''vxlan'', OverlayTunnelID = 100\<rparr>\<rparr>"

definition demo_pod :: Pod where
  "demo_pod = \<lparr>PodMeta = \<lparr>Name = ''web'', Namespace = ''default'', ResourceVersion = [], Labels = []\<rparr>,
     PodIP = ''10.244.1.7''\<rparr>"

abbreviation demo_world :: "unit of_world" where
  "demo_world \<equiv> \<lparr>xid_ctr = 0, sent = [], host = ()\<rparr>"

lemma demo_numbers: "nat_string 5 = ''5''" "nat_string 24 = ''24''" "nat_string 16 = ''16''" "nat_string 10 = ''10''"
  "nat_string 244 = ''244''" "nat_string 1 = ''1''" "nat_string 0 = ''0''" "nat_string 2 = ''2''" "nat_string 7 = ''7''"
  "nat_string 33 = ''33''"
  by code_simp+

lemma demo_reads: "reads_port demo_exec () name 5"
  by (simp add: reads_port_def demo_exec_def demo_numbers)

lemma demo_mask: "mask4 24 = [255, 255, 255, 0]" "mask4 16 = [255, 255, 0, 0]"
  by code_simp+

lemma demo_cidrs:
  "cidr_of ''10.244.1.0/24'' [10, 244, 1, 0] 24" "cidr_of ''10.244.0.0/16'' [10, 244, 0, 0] 16"
  "cidr_of ''10.244.2.0/24'' [10, 244, 2, 0] 24"
  by code_simp+

lemma demo_strings:
  "''10.244.1.1'' = dotted [10, 244, 1, 1]" "''10.244.1.7'' = dotted [10, 244, 1, 7]"
  "''0a:00:00:00:00:01'' = hw_String [10, 0, 0, 0, 0, 1]" "''0a:00:00:00:00:07'' = hw_String [10, 0, 0, 0, 0, 7]"
  by code_simp+

lemma demo_data:
  "unmarshal_Data ([CHR 0x7B, CHR 0x22] @ ''data'' @ [CHR 0x22] @ '':[['' @ [CHR 0x22] @ ''veth1'' @ [CHR 0x22] @ '']]'' @ [CHR 0x7D])
     = Inr [[''veth1'']]"
  by code_simp

lemma demo_reads_pod: "reads_pod demo_exec () demo_pod [10, 0, 0, 0, 0, 7] 5"
proof -
  note out = demo_data [simplified append.simps]
  have "run_state (Output demo_exec ''ovs-vsctl'' [''get'', ''port'', ''veth1'', ''mac'']) () =
      (Inr (CHR 0x22 # hw_String [10, 0, 0, 0, 0, 7] @ [CHR 0x22, CHR 0x0A]), ())"
    unfolding demo_strings [symmetric] by (simp add: demo_exec_def)
  then show ?thesis
    unfolding reads_pod_def
    by (intro exI [where x = "''veth1''"] exI conjI demo_reads)
      (auto simp: demo_exec_def out)
qed

lemma demo_good: "good_cidr (ctl_podCIDR demo_ctl)" "good_cidr (ctl_clusterCIDR demo_ctl)"
  using demo_cidrs by (auto simp: demo_ctl_def good_cidr_def)

lemma demo_tunnel: "adds_tunnel_flows demo_exec () v 5 ()"
  by (simp add: adds_tunnel_flows_def demo_exec_def)

subsection \<open>Properties\<close>



text \<open>
  The flows of start-up. When the host reports the port of \<open>host-local\<close>, \<open>AddDefaultFlows\<close>
  succeeds and the switch receives exactly the six default entries, in order: everything else to
  the host, the gateway's traffic to the host with the gateway's MAC, the gateway's ARP, and ARP
  for the pod CIDR and the cluster CIDR.
\<close>

theorem default_flows_installed:
  assumes "cidr_of (ctl_podCIDR c) pip pn" and "cidr_of (ctl_clusterCIDR c) cip cn"
    and "ctl_gatewayIP c = dotted gw" and "length gw = 4"
    and "ctl_gatewayMAC c = hw_String mac" and "length mac = 6"
    and "reads_port ex (host w) ''host-local'' p" and "list_all msg_valid (sent w)"
  shows "\<exists>w'. run_state (AddDefaultFlows ex c br) w = (Inr (), w') \<and> host w' = host w \<and>
    entries_of (sent w') = entries_of (sent w) @ default_entries gw mac pip pn cip cn (of_nat p)"
proof -
  obtain w' flows where run: "run_state (AddDefaultFlows ex c br) w = (Inr (), w')" "host w' = host w"
    and flows: "sent w' = sent w @ map FlowModMsg flows"
      "map abs_flow flows = default_entries gw mac pip pn cip cn (of_nat p)"
    using AddDefaultFlows_entries [OF assms(1-7)] by blast
  have "list_all msg_valid (sent w')"
    using AddDefaultFlows_valid [OF cidr_of_good [OF assms(1)] cidr_of_good [OF assms(2)] run(1) assms(8)] .
  then show ?thesis using run sent_entries [OF flows(1) _ flows(2)] by blast
qed

theorem default_flows_installed_witness:
  "\<exists>w'. run_state (AddDefaultFlows demo_exec demo_ctl ''kube-ovs0'') demo_world = (Inr (), w') \<and>
     entries_of (sent w') = default_entries [10, 244, 1, 1] [10, 0, 0, 0, 0, 1] [10, 244, 1, 0] 24 [10, 244, 0, 0] 16 5"
  using default_flows_installed [of demo_ctl "[10, 244, 1, 0]" 24 "[10, 244, 0, 0]" 16 "[10, 244, 1, 1]"
      "[10, 0, 0, 0, 0, 1]" demo_exec demo_world 5 "''kube-ovs0''"]
    demo_cidrs demo_strings demo_reads
  by (auto simp: demo_ctl_def entries_of_def List.map_filter_simps)

text \<open>
  C11: the flows for a virtual switch. On an add or update, the switch receives the two
  classification entries and, for another node, the two overlay entries that set that node's
  tunnel identifier, while \<open>ovs-ofctl\<close> adds the tunnel flows; for this node, the two entries
  that accept its tunnel identifier, with no command run.
\<close>

theorem vswitch_flows_installed:
  assumes "cidr_of (ctl_podCIDR c) pip pn" and "cidr_of (ctl_clusterCIDR c) cip cn"
    and "cidr_of (PodCIDR (Spec v)) ip n" and "reads_port ex (host w) ''vxlan0'' p"
    and "vname v \<noteq> ctl_nodeName c \<longrightarrow> adds_tunnel_flows ex (host w) v p h'"
    and "vname v = ctl_nodeName c \<longrightarrow> h' = host w" and "list_all msg_valid (sent w)"
    and "h \<in> {OnAddVSwitch ex c (VSwitchConfigObj v), OnUpdateVSwitch ex c old (VSwitchConfigObj v)}"
  shows "\<exists>w'. run_state h w = ((), w') \<and> host w' = h' \<and>
    entries_of (sent w') = entries_of (sent w) @ classification_entries pip pn cip cn @
      (if vname v = ctl_nodeName c then local_entries ip n (scast (tunnelID v))
       else overlay_entries ip n (scast (tunnelID v)))"
proof -
  obtain w' flows where run: "run_state (sync_vswitch ex c v) w = ((), w')" "host w' = h'"
    and flows: "sent w' = sent w @ map FlowModMsg flows"
      "map abs_flow flows = classification_entries pip pn cip cn @
        (if vname v = ctl_nodeName c then local_entries ip n (scast (tunnelID v))
         else overlay_entries ip n (scast (tunnelID v)))"
    using OnAddVSwitch_remote [OF assms(1-3) _ assms(4), of h'] OnAddVSwitch_local [OF assms(1-3) _ assms(4)] assms(5,6)
    by (cases "vname v = ctl_nodeName c") fastforce+
  have "list_all msg_valid (sent w')"
    using sync_vswitch_valid [OF cidr_of_good [OF assms(1)] cidr_of_good [OF assms(2)] cidr_of_good [OF assms(3)] run(1) assms(7)] .
  then show ?thesis using run assms(8) sent_entries [OF flows(1) _ flows(2)]
    by (auto simp: OnAddVSwitch_def OnUpdateVSwitch_def)
qed

theorem vswitch_flows_installed_witness:
  "\<exists>w'. run_state (OnAddVSwitch demo_exec demo_ctl (VSwitchConfigObj (demo_vswitch ''node2'' ''10.244.2.0/24'')))
       demo_world = ((), w') \<and>
     entries_of (sent w') = classification_entries [10, 244, 1, 0] 24 [10, 244, 0, 0] 16 @ overlay_entries [10, 244, 2, 0] 24 100"
  using vswitch_flows_installed [of demo_ctl "[10, 244, 1, 0]" 24 "[10, 244, 0, 0]" 16 "demo_vswitch ''node2'' ''10.244.2.0/24''"
      "[10, 244, 2, 0]" 24 demo_exec demo_world 5 "()"
      "OnAddVSwitch demo_exec demo_ctl (VSwitchConfigObj (demo_vswitch ''node2'' ''10.244.2.0/24''))"]
    demo_cidrs demo_reads demo_tunnel
  by (auto simp: demo_ctl_def demo_vswitch_def entries_of_def List.map_filter_simps)

text \<open>
  The flows for a pod. When a pod's address lies in the node's pod CIDR and the database
  has a port for it, the switch receives the pod's IPv4 entry (rewrite the destination MAC, output to
  the port) and its ARP entry; a pod of another node is left alone.
\<close>

theorem pod_flows_installed:
  assumes "cidr_of (ctl_podCIDR c) pip pn" and "PodIP pod = dotted ip" and "length ip = 4"
    and "length mac = 6" and "reads_pod ex (host w) pod mac p" and "list_all msg_valid (sent w)"
    and "h \<in> {OnAddPod ex c (PodObj pod), OnUpdatePod ex c old (PodObj pod)}"
  shows "\<exists>w'. run_state h w = (Returns (), w') \<and> host w' = host w \<and>
    entries_of (sent w') = entries_of (sent w) @
      (if in_prefix pip pn ip then pod_entries ip mac (of_nat p) else [])"
proof (cases "in_prefix pip pn ip")
  case True
  then have "isLocalIP c (PodIP pod) = Inr True" using isLocalIP_iff [OF assms(1,3)] assms(2) by simp
  then obtain w' flows where run: "run_state (syncPod ex c pod) w = (Returns (Inr ()), w')" "host w' = host w"
    and flows: "sent w' = sent w @ map FlowModMsg flows" "map abs_flow flows = pod_entries ip mac (of_nat p)"
    using syncPod_entries [OF _ assms(2-5)] by blast
  have "list_all msg_valid (sent w')" using syncPod_valid [OF run(1) assms(6)] .
  then show ?thesis using run True assms(7) sent_entries [OF flows(1) _ flows(2)]
    by (auto simp: OnAddPod_def OnUpdatePod_def run_simps)
next
  case False
  then have "isLocalIP c (PodIP pod) = Inr False" using isLocalIP_iff [OF assms(1,3)] assms(2) by simp
  then have "run_state (syncPod ex c pod) w = (Returns (Inr ()), w)"
    by (simp add: syncPod_def run_simps)
  then show ?thesis using False assms(7) by (auto simp: OnAddPod_def OnUpdatePod_def run_simps)
qed

theorem pod_flows_installed_witness:
  "\<exists>w'. run_state (OnAddPod demo_exec demo_ctl (PodObj demo_pod)) demo_world = (Returns (), w') \<and>
     entries_of (sent w') = pod_entries [10, 244, 1, 7] [10, 0, 0, 0, 0, 7] 5"
proof -
  have loc: "in_prefix [10, 244, 1, 0] 24 [10, 244, 1, 7]" by (simp add: in_prefix_def SetBytes_def)
  have c: "cidr_of (ctl_podCIDR demo_ctl) [10, 244, 1, 0] 24" using demo_cidrs(1) by (simp add: demo_ctl_def)
  have ip: "PodIP demo_pod = dotted [10, 244, 1, 7]" unfolding demo_strings(2) [symmetric] by (simp add: demo_pod_def)
  have reads: "reads_pod demo_exec (host demo_world) demo_pod [10, 0, 0, 0, 0, 7] 5" using demo_reads_pod by simp
  have "\<exists>w'. run_state (OnAddPod demo_exec demo_ctl (PodObj demo_pod)) demo_world = (Returns (), w') \<and> host w' = host demo_world \<and>
      entries_of (sent w') = entries_of (sent demo_world) @
        (if in_prefix [10, 244, 1, 0] 24 [10, 244, 1, 7] then pod_entries [10, 244, 1, 7] [10, 0, 0, 0, 0, 7] (of_nat 5) else [])"
    by (rule pod_flows_installed [OF c ip _ _ reads]) simp_all
  then show ?thesis using loc by (auto simp: entries_of_def List.map_filter_simps)
qed

end
