(* ===== verification/Of_Pipeline.thy ===== *)
theory Of_Pipeline
  imports Of_Entries
begin

text \<open>
  What the installed flow entries do to packets: the table pipeline of an OpenFlow switch, and
  the equivalence of the controller's tables with a direct description of how a node routes.

  \<open>pipeline\<close> is the documented behaviour of the switch: in a table the matching entry of the
  highest priority applies its actions and continues in a later table; a packet that no entry
  matches is dropped (\<open>fail-mode=secure\<close>). Entries come from the OpenFlow messages of the
  controller (\<open>sw_of\<close>) and from the two \<open>ovs-ofctl add-flow\<close> commands of \<open>addTunnelDstFlows\<close>
  (\<open>tunnel_entries\<close>, the entries that the documented flow syntax denotes).
\<close>

subsection \<open>The switch\<close>

record packet =
  eth_dst :: bytes
  eth_type :: uint16
  net_dst :: bytes
  tun_id :: uint64
  tun_dst :: string

datatype sw_action = SetField wire_field | SetTunDst string | Output_port uint32

record sw_entry =
  sw_table :: uint8
  sw_priority :: nat
  sw_match :: "wire_field list"
  sw_actions :: "sw_action list"
  sw_goto :: "uint8 option"

fun matches_field :: "packet \<Rightarrow> wire_field \<Rightarrow> bool" where
  "matches_field p (WEthType t) = (eth_type p = t)"
| "matches_field p (WEthDst a) = (eth_dst p = a)"
| "matches_field p (WIpv4Dst a m) = (eth_type p = 0x0800 \<and> and_bytes (net_dst p) m = a)"
| "matches_field p (WArpTpa a m) = (eth_type p = 0x0806 \<and> and_bytes (net_dst p) m = a)"
| "matches_field p (WTunnelId t) = (tun_id p = t)"

abbreviation matches :: "packet \<Rightarrow> sw_entry \<Rightarrow> bool" where
  "matches p e \<equiv> list_all (matches_field p) (sw_match e)"

fun set_field :: "wire_field \<Rightarrow> packet \<Rightarrow> packet" where
  "set_field (WEthType t) p = p\<lparr>eth_type := t\<rparr>"
| "set_field (WEthDst a) p = p\<lparr>eth_dst := a\<rparr>"
| "set_field (WIpv4Dst a m) p = p\<lparr>net_dst := a\<rparr>"
| "set_field (WArpTpa a m) p = p\<lparr>net_dst := a\<rparr>"
| "set_field (WTunnelId t) p = p\<lparr>tun_id := t\<rparr>"

fun apply_acts :: "sw_action list \<Rightarrow> packet \<Rightarrow> (uint32 \<times> packet) list \<times> packet" where
  "apply_acts [] p = ([], p)"
| "apply_acts (SetField f # as) p = apply_acts as (set_field f p)"
| "apply_acts (SetTunDst a # as) p = apply_acts as (p\<lparr>tun_dst := a\<rparr>)"
| "apply_acts (Output_port n # as) p = map_prod ((#) (n, p)) id (apply_acts as p)"

fun sw_action_of :: "wire_action \<Rightarrow> sw_action" where
  "sw_action_of (WOutput n l) = Output_port n"
| "sw_action_of (WSetField f) = SetField f"

fun instr_actions :: "wire_instr \<Rightarrow> sw_action list" where
  "instr_actions (WApplyActions as) = map sw_action_of as"
| "instr_actions (WGotoTable t) = []"

fun instr_goto :: "wire_instr \<Rightarrow> uint8 option" where
  "instr_goto (WApplyActions as) = None"
| "instr_goto (WGotoTable t) = Some t"

definition sw_of :: "flow_entry \<Rightarrow> sw_entry" where
  "sw_of e = \<lparr>sw_table = fe_table e, sw_priority = unat (fe_priority e), sw_match = fe_match e,
     sw_actions = concat (map instr_actions (fe_instrs e)),
     sw_goto = (case List.map_filter instr_goto (fe_instrs e) of [] \<Rightarrow> None | t # _ \<Rightarrow> Some t)\<rparr>"

text \<open>The first entry of the highest priority among those of a table that match.\<close>

fun lookup :: "sw_entry list \<Rightarrow> uint8 \<Rightarrow> packet \<Rightarrow> sw_entry option" where
  "lookup [] t p = None"
| "lookup (e # es) t p =
     (if sw_table e = t \<and> matches p e then
        (case lookup es t p of
           None \<Rightarrow> Some e
         | Some e' \<Rightarrow> if sw_priority e < sw_priority e' then Some e' else Some e)
      else lookup es t p)"

lemma table_descends: "t < t' \<Longrightarrow> 256 - unat t' < 256 - unat (t :: uint8)"
  using unsigned_less [of t', where 'a = nat] by (simp add: word_less_nat_alt)

function pipeline :: "sw_entry list \<Rightarrow> uint8 \<Rightarrow> packet \<Rightarrow> (uint32 \<times> packet) list" where
  "pipeline es t p =
     (case lookup es t p of
        None \<Rightarrow> []
      | Some e \<Rightarrow>
          (case apply_acts (sw_actions e) p of
             (outs, p') \<Rightarrow> outs @
               (case sw_goto e of
                  None \<Rightarrow> []
                | Some t' \<Rightarrow> if t < t' then pipeline es t' p' else [])))"
  by pat_completeness auto
termination
  by (relation "measure (\<lambda>(es, t, p). 256 - unat t)") (auto dest: table_descends)

declare pipeline.simps [simp del]

lemma lookup_None: "lookup es t p = None \<longleftrightarrow> (\<forall>e\<in>set es. sw_table e = t \<longrightarrow> \<not> matches p e)"
  by (induction es) (auto split: option.splits)

lemma lookup_Some:
  "lookup es t p = Some e \<Longrightarrow> e \<in> set es \<and> sw_table e = t \<and> matches p e \<and>
     (\<forall>e'\<in>set es. sw_table e' = t \<longrightarrow> matches p e' \<longrightarrow> sw_priority e' \<le> sw_priority e)"
proof (induction es arbitrary: e)
  case (Cons a es)
  show ?case
  proof (cases "lookup es t p")
    case None
    then show ?thesis using Cons.prems lookup_None [of es t p] by (auto split: if_splits)
  next
    case (Some e')
    note ih = Cons.IH [OF Some]
    show ?thesis
      using Cons.prems Some ih by (auto split: if_splits)
  qed
qed simp

lemma lookup_eqI:
  assumes "e \<in> set es" and "sw_table e = t" and "matches p e"
    and "\<forall>e'\<in>set es. sw_table e' = t \<longrightarrow> matches p e' \<longrightarrow> e' = e \<or> sw_priority e' < sw_priority e"
  shows "lookup es t p = Some e"
proof (cases "lookup es t p")
  case None
  then show ?thesis using assms(1-3) lookup_None [of es t p] by auto
next
  case (Some e')
  then show ?thesis using lookup_Some [OF Some] assms by (metis leD)
qed

subsection \<open>The tables of a node\<close>

text \<open>Another node: its pod network, tunnel identifier and overlay address.\<close>

record remote =
  r_ip :: IP
  r_len :: nat
  r_tid :: uint64
  r_overlay :: string

text \<open>
  A node: gateway address and hardware address, pod network, cluster network, the ports of
  \<open>host-local\<close> and \<open>vxlan0\<close>, its own tunnel identifier, the other nodes, and its pods with
  address, hardware address and port.
\<close>

record node_net =
  n_gw :: IP
  n_mac :: HardwareAddr
  n_pip :: IP
  n_pn :: nat
  n_cip :: IP
  n_cn :: nat
  n_host :: uint32
  n_vxlan :: uint32
  n_tid :: uint64
  n_remotes :: "remote list"
  n_pods :: "(IP \<times> HardwareAddr \<times> uint32) list"

definition tunnel_entries :: "uint32 \<Rightarrow> remote \<Rightarrow> sw_entry list" where
  "tunnel_entries port r =
     [\<lparr>sw_table = 40, sw_priority = 150,
       sw_match = [WEthType 0x0800, WTunnelId (r_tid r), WIpv4Dst (r_ip r) (mask4 (r_len r))],
       sw_actions = [SetTunDst (r_overlay r), Output_port port], sw_goto = None\<rparr>,
      \<lparr>sw_table = 40, sw_priority = 150,
       sw_match = [WEthType 0x0806, WTunnelId (r_tid r), WArpTpa (r_ip r) (mask4 (r_len r))],
       sw_actions = [SetTunDst (r_overlay r), Output_port port], sw_goto = None\<rparr>]"

text \<open>The entries the controller sends, by component, and all entries of the switch.\<close>

definition sent_entries_of :: "node_net \<Rightarrow> flow_entry list" where
  "sent_entries_of net =
     default_entries (n_gw net) (n_mac net) (n_pip net) (n_pn net) (n_cip net) (n_cn net) (n_host net) @
     classification_entries (n_pip net) (n_pn net) (n_cip net) (n_cn net) @
     local_entries (n_pip net) (n_pn net) (n_tid net) @
     concat (map (\<lambda>r. overlay_entries (r_ip r) (r_len r) (r_tid r)) (n_remotes net)) @
     concat (map (\<lambda>(ip, mac, port). pod_entries ip mac port) (n_pods net))"

definition installed :: "node_net \<Rightarrow> sw_entry list" where
  "installed net = map sw_of (sent_entries_of net) @ concat (map (tunnel_entries (n_vxlan net)) (n_remotes net))"

abbreviation in_pods :: "node_net \<Rightarrow> IP \<Rightarrow> bool" where
  "in_pods net x \<equiv> in_prefix (n_pip net) (n_pn net) x"

abbreviation in_cluster :: "node_net \<Rightarrow> IP \<Rightarrow> bool" where
  "in_cluster net x \<equiv> in_prefix (n_cip net) (n_cn net) x"

abbreviation in_remote :: "remote \<Rightarrow> IP \<Rightarrow> bool" where
  "in_remote r x \<equiv> in_prefix (r_ip r) (r_len r) x"

definition network :: "IP \<Rightarrow> nat \<Rightarrow> bool" where
  "network ip n \<longleftrightarrow> length ip = 4 \<and> n \<le> 32 \<and> and_bytes ip (mask4 n) = ip"

text \<open>
  The address plan of a cluster: networks are network addresses, the pod networks of the nodes
  are disjoint, and pods have distinct addresses, none of them the gateway's.
\<close>

definition net_ok :: "node_net \<Rightarrow> bool" where
  "net_ok net \<longleftrightarrow>
     length (n_gw net) = 4 \<and> network (n_pip net) (n_pn net) \<and> network (n_cip net) (n_cn net) \<and>
     (\<forall>r\<in>set (n_remotes net). network (r_ip r) (r_len r)) \<and>
     (\<forall>r\<in>set (n_remotes net). \<forall>x. in_remote r x \<longrightarrow> \<not> in_pods net x) \<and>
     (\<forall>r\<in>set (n_remotes net). \<forall>r'\<in>set (n_remotes net). \<forall>x. in_remote r x \<and> in_remote r' x \<longrightarrow> r = r') \<and>
     distinct (map fst (n_pods net)) \<and>
     (\<forall>(ip, mac, port)\<in>set (n_pods net). length ip = 4 \<and> ip \<noteq> n_gw net)"

subsection \<open>How a node routes\<close>

definition to_pod :: "node_net \<Rightarrow> packet \<Rightarrow> (uint32 \<times> packet) list" where
  "to_pod net p =
     (case map_of (n_pods net) (net_dst p) of
        None \<Rightarrow> []
      | Some (mac, port) \<Rightarrow> [(port, if eth_type p = 0x0800 then p\<lparr>eth_dst := mac\<rparr> else p)])"

definition to_remote :: "node_net \<Rightarrow> packet \<Rightarrow> (uint32 \<times> packet) list" where
  "to_remote net p =
     (case find (\<lambda>r. in_remote r (net_dst p)) (n_remotes net) of
        None \<Rightarrow> []
      | Some r \<Rightarrow> [(n_vxlan net, p\<lparr>tun_id := r_tid r, tun_dst := r_overlay r\<rparr>)])"

definition route :: "node_net \<Rightarrow> packet \<Rightarrow> (uint32 \<times> packet) list" where
  "route net p =
     (if eth_type p = 0x0800 then
        if net_dst p = n_gw net then [(n_host net, p\<lparr>eth_dst := n_mac net\<rparr>)]
        else if in_pods net (net_dst p) then to_pod net p
        else if in_cluster net (net_dst p) then to_remote net p
        else [(n_host net, p)]
      else if eth_type p = 0x0806 then
        if net_dst p = n_gw net then [(n_host net, p)]
        else if in_pods net (net_dst p) then to_pod net p
        else if in_cluster net (net_dst p) then to_remote net p
        else []
      else [(n_host net, p)])"

subsection \<open>Table by table\<close>

lemma sw_of_entry [simp]:
  "sw_of (entry t prio fs ins) =
     \<lparr>sw_table = t, sw_priority = unat prio, sw_match = fs, sw_actions = concat (map instr_actions ins),
      sw_goto = (case List.map_filter instr_goto ins of [] \<Rightarrow> None | t # _ \<Rightarrow> Some t)\<rparr>"
  by (simp add: sw_of_def entry_def)

lemma match_network: "network ip n \<Longrightarrow> length x = 4 \<Longrightarrow> and_bytes x (mask4 n) = ip \<longleftrightarrow> in_prefix ip n x"
  using and_mask4_iff [of x ip n] by (simp add: network_def)

lemma and_ones: "length x = 4 \<Longrightarrow> and_bytes x ones4 = x"
proof (rule nth_equalityI)
  fix i
  assume "length x = 4" and "i < length (and_bytes x ones4)"
  moreover have "w AND 255 = w" for w :: uint8
  proof -
    have "(255 :: uint8) = - 1" by simp
    then show ?thesis by (simp only: and.right_neutral)
  qed
  ultimately show "and_bytes x ones4 ! i = x ! i" by (simp add: and_bytes_def)
qed simp

lemmas entries_defs = installed_def sent_entries_of_def default_entries_def classification_entries_def
  local_entries_def overlay_entries_def pod_entries_def tunnel_entries_def List.map_filter_simps

text \<open>The entries of each table, with the fields written out.\<close>

abbreviation sw :: "uint8 \<Rightarrow> nat \<Rightarrow> wire_field list \<Rightarrow> sw_action list \<Rightarrow> uint8 option \<Rightarrow> sw_entry" where
  "sw t n fs as g \<equiv> \<lparr>sw_table = t, sw_priority = n, sw_match = fs, sw_actions = as, sw_goto = g\<rparr>"

abbreviation in_table :: "uint8 \<Rightarrow> sw_entry list \<Rightarrow> sw_entry list" where
  "in_table t es \<equiv> filter (\<lambda>e. sw_table e = t) es"

lemma concat_empty: "concat (map (\<lambda>x. []) xs) = []"
  by (induction xs) simp_all

lemmas table_simps = entries_defs map_concat filter_concat comp_def concat_empty case_prod_unfold

lemma table0:
  "in_table 0 (installed net) =
     [sw 0 0 [] [Output_port (n_host net)] None,
      sw 0 500 [WEthType 0x0800, WIpv4Dst (n_gw net) ones4] [SetField (WEthDst (n_mac net)), Output_port (n_host net)] None,
      sw 0 200 [WEthType 0x0806] [] (Some 10),
      sw 0 300 [WEthType 0x0800, WIpv4Dst (n_pip net) (mask4 (n_pn net))] [] (Some 50),
      sw 0 100 [WEthType 0x0800, WIpv4Dst (n_cip net) (mask4 (n_cn net))] [] (Some 20)]"
  by (simp add: table_simps)

lemma table10:
  "in_table 10 (installed net) =
     [sw 10 500 [WEthType 0x0806, WArpTpa (n_gw net) ones4] [Output_port (n_host net)] None,
      sw 10 100 [WEthType 0x0806, WArpTpa (n_pip net) (mask4 (n_pn net))] [] (Some 50),
      sw 10 50 [WEthType 0x0806, WArpTpa (n_cip net) (mask4 (n_cn net))] [] (Some 20)]"
  by (simp add: table_simps)

lemma table20:
  "in_table 20 (installed net) = [] @ concat (map (\<lambda>r.
     [sw 20 100 [WEthType 0x0800, WIpv4Dst (r_ip r) (mask4 (r_len r))] [SetField (WTunnelId (r_tid r))] (Some 40),
      sw 20 100 [WEthType 0x0806, WArpTpa (r_ip r) (mask4 (r_len r))] [SetField (WTunnelId (r_tid r))] (Some 40)]) (n_remotes net))"
  by (simp add: table_simps)

lemma table40:
  "in_table 40 (installed net) =
     [sw 40 100 [WEthType 0x0800, WIpv4Dst (n_pip net) (mask4 (n_pn net)), WTunnelId (n_tid net)] [] (Some 50),
      sw 40 100 [WEthType 0x0806, WArpTpa (n_pip net) (mask4 (n_pn net)), WTunnelId (n_tid net)] [] (Some 50)] @
     concat (map (tunnel_entries (n_vxlan net)) (n_remotes net))"
  by (simp add: table_simps tunnel_entries_def [abs_def])

lemma table50:
  "in_table 50 (installed net) = [] @ concat (map (\<lambda>x.
     [sw 50 100 [WEthType 0x0800, WIpv4Dst (fst x) ones4] [SetField (WEthDst (fst (snd x))), Output_port (snd (snd x))] None,
      sw 50 100 [WEthType 0x0806, WArpTpa (fst x) ones4] [Output_port (snd (snd x))] None]) (n_pods net))"
  by (simp add: table_simps)

lemma lookup_table:
  assumes "set es = set ins" and "e \<in> set (in_table t ins)" and "matches p e"
    and "\<forall>e'\<in>set (in_table t ins). matches p e' \<longrightarrow> e' = e \<or> sw_priority e' < sw_priority e"
  shows "lookup es t p = Some e"
  using assms by (intro lookup_eqI) auto

lemma lookup_table_None:
  assumes "set es = set ins" and "\<forall>e\<in>set (in_table t ins). \<not> matches p e"
  shows "lookup es t p = None"
  using assms by (auto simp: lookup_None)

text \<open>A table that holds the same entries for every member of a list, of which one matches.\<close>

lemma lookup_family:
  assumes "set es = set ins" and tab: "in_table t ins = pre @ concat (map f xs)"
    and pre: "\<forall>e'\<in>set pre. \<not> matches p e'" and x: "x \<in> set xs" "e \<in> set (f x)" "matches p e"
    and only: "\<And>y. y \<in> set xs \<Longrightarrow> \<exists>e'\<in>set (f y). matches p e' \<Longrightarrow> y = x"
    and one: "\<forall>e'\<in>set (f x). matches p e' \<longrightarrow> e' = e"
  shows "lookup es t p = Some e"
proof (rule lookup_table [OF assms(1)])
  show "e \<in> set (in_table t ins)" unfolding tab using x(1,2) by auto
  show "\<forall>e'\<in>set (in_table t ins). matches p e' \<longrightarrow> e' = e \<or> sw_priority e' < sw_priority e"
  proof (intro ballI impI disjI1)
    fix e'
    assume "e' \<in> set (in_table t ins)" and m: "matches p e'"
    then have "e' \<in> set pre \<or> (\<exists>y\<in>set xs. e' \<in> set (f y))" unfolding tab by simp
    then obtain y where y: "y \<in> set xs" "e' \<in> set (f y)" using pre m by blast
    then have "y = x" using only m by blast
    then show "e' = e" using one y(2) m by blast
  qed
qed (rule x(3))

lemma pipeline_hit:
  assumes "lookup es t p = Some (sw t n fs as g)"
  shows "pipeline es t p = fst (apply_acts as p) @
    (case g of None \<Rightarrow> [] | Some t' \<Rightarrow> if t < t' then pipeline es t' (snd (apply_acts as p)) else [])"
  using assms by (subst pipeline.simps) (cases g; cases "apply_acts as p"; simp)

lemma pipeline_miss: "lookup es t p = None \<Longrightarrow> pipeline es t p = []"
  by (subst pipeline.simps) simp

text \<open>Table 50 delivers to a pod.\<close>

lemma pipeline50:
  assumes "net_ok net" and es: "set es = set (installed net)" and l: "length (net_dst p) = 4"
    and t: "eth_type p = 0x0800 \<or> eth_type p = 0x0806"
  shows "pipeline es 50 p = to_pod net p"
proof (cases "map_of (n_pods net) (net_dst p)")
  case None
  then have "net_dst p \<notin> fst ` set (n_pods net)" by (simp add: map_of_eq_None_iff)
  then have "lookup es 50 p = None"
    using l by (intro lookup_table_None [OF es]) (auto simp: table50 and_ones)
  then show ?thesis using None by (simp add: pipeline_miss to_pod_def)
next
  case (Some x)
  have d: "distinct (map fst (n_pods net))" using assms(1) by (simp add: net_ok_def)
  have m: "(net_dst p, x) \<in> set (n_pods net)" using Some by (rule map_of_SomeD)
  have u: "y = (net_dst p, x)" if "y \<in> set (n_pods net)" "net_dst p = fst y" for y
    using that map_of_is_SomeI [OF d, of "fst y" "snd y"] Some by (metis option.inject prod.collapse)
  show ?thesis
  proof (cases "eth_type p = 0x0800")
    case True
    have "lookup es 50 p = Some (sw 50 100 [WEthType 0x0800, WIpv4Dst (net_dst p) ones4]
        [SetField (WEthDst (fst x)), Output_port (snd x)] None)"
      using u l True
      by (intro lookup_family [OF es table50 _ m]) (auto simp: and_ones)
    then show ?thesis using Some True by (simp add: pipeline_hit to_pod_def split: prod.split)
  next
    case False
    then have arp: "eth_type p = 0x0806" using t by simp
    have "lookup es 50 p = Some (sw 50 100 [WEthType 0x0806, WArpTpa (net_dst p) ones4] [Output_port (snd x)] None)"
      using u l arp
      by (intro lookup_family [OF es table50 _ m]) (auto simp: and_ones)
    then show ?thesis using Some arp by (simp add: pipeline_hit to_pod_def split: prod.split)
  qed
qed

text \<open>Tables 20 and 40 send to another node.\<close>

lemma net_okD:
  assumes "net_ok net"
  shows "network (n_pip net) (n_pn net)" "network (n_cip net) (n_cn net)"
    and "r \<in> set (n_remotes net) \<Longrightarrow> network (r_ip r) (r_len r)"
    and "r \<in> set (n_remotes net) \<Longrightarrow> in_remote r x \<Longrightarrow> \<not> in_pods net x"
    and "r \<in> set (n_remotes net) \<Longrightarrow> r' \<in> set (n_remotes net) \<Longrightarrow> in_remote r x \<Longrightarrow> in_remote r' x \<Longrightarrow> r' = r"
  using assms unfolding net_ok_def by blast+

text \<open>At most one remote network matches an address.\<close>

lemma remote_match:
  assumes ok: "net_ok net" and l: "length x = 4" and r: "r \<in> set (n_remotes net)" "in_remote r x"
  shows "and_bytes x (mask4 (r_len r)) = r_ip r" and "and_bytes x (mask4 (n_pn net)) \<noteq> n_pip net"
    and "r' \<in> set (n_remotes net) \<Longrightarrow> and_bytes x (mask4 (r_len r')) = r_ip r' \<Longrightarrow> r' = r"
proof -
  show "and_bytes x (mask4 (r_len r)) = r_ip r" using match_network [OF net_okD(3) [OF ok r(1)] l] r(2) by simp
  show "and_bytes x (mask4 (n_pn net)) \<noteq> n_pip net"
    using match_network [OF net_okD(1) [OF ok] l] net_okD(4) [OF ok r] by simp
  assume r': "r' \<in> set (n_remotes net)" "and_bytes x (mask4 (r_len r')) = r_ip r'"
  then have "in_remote r' x" using match_network [OF net_okD(3) [OF ok r'(1)] l] by simp
  then show "r' = r" using net_okD(5) [OF ok r(1) r'(1) r(2)] by simp
qed

lemma pipeline40:
  assumes ok: "net_ok net" and es: "set es = set (installed net)" and l: "length (net_dst p) = 4"
    and t: "eth_type p = 0x0800 \<or> eth_type p = 0x0806"
    and r: "r \<in> set (n_remotes net)" "in_remote r (net_dst p)" "tun_id p = r_tid r"
  shows "pipeline es 40 p = [(n_vxlan net, p\<lparr>tun_dst := r_overlay r\<rparr>)]"
proof -
  note m = remote_match [OF ok l r(1,2)]
  show ?thesis
  proof (cases "eth_type p = 0x0800")
    case True
    have "lookup es 40 p = Some (sw 40 150 [WEthType 0x0800, WTunnelId (r_tid r), WIpv4Dst (r_ip r) (mask4 (r_len r))]
        [SetTunDst (r_overlay r), Output_port (n_vxlan net)] None)"
      using True r(3) m by (intro lookup_family [OF es table40 _ r(1)]) (auto simp: tunnel_entries_def)
    then show ?thesis by (simp add: pipeline_hit)
  next
    case False
    then have arp: "eth_type p = 0x0806" using t by simp
    have "lookup es 40 p = Some (sw 40 150 [WEthType 0x0806, WTunnelId (r_tid r), WArpTpa (r_ip r) (mask4 (r_len r))]
        [SetTunDst (r_overlay r), Output_port (n_vxlan net)] None)"
      using arp r(3) m by (intro lookup_family [OF es table40 _ r(1)]) (auto simp: tunnel_entries_def)
    then show ?thesis by (simp add: pipeline_hit)
  qed
qed

lemma pipeline20:
  assumes ok: "net_ok net" and es: "set es = set (installed net)" and l: "length (net_dst p) = 4"
    and t: "eth_type p = 0x0800 \<or> eth_type p = 0x0806"
  shows "pipeline es 20 p = to_remote net p"
proof (cases "find (\<lambda>r. in_remote r (net_dst p)) (n_remotes net)")
  case None
  then have "\<forall>r\<in>set (n_remotes net). and_bytes (net_dst p) (mask4 (r_len r)) \<noteq> r_ip r"
    using match_network [OF net_okD(3) [OF ok] l] by (auto simp: find_None_iff_all)
  then have "lookup es 20 p = None" by (intro lookup_table_None [OF es]) (auto simp: table20)
  then show ?thesis using None by (simp add: pipeline_miss to_remote_def)
next
  case (Some r)
  then have r: "r \<in> set (n_remotes net)" "in_remote r (net_dst p)" by (auto simp: find_Some_iff)
  note m = remote_match [OF ok l r]
  have 40: "pipeline es 40 (p\<lparr>tun_id := r_tid r\<rparr>) = [(n_vxlan net, p\<lparr>tun_id := r_tid r, tun_dst := r_overlay r\<rparr>)]"
    using pipeline40 [OF ok es, of "p\<lparr>tun_id := r_tid r\<rparr>" r] l t r by simp
  have "\<exists>fs. lookup es 20 p = Some (sw 20 100 fs [SetField (WTunnelId (r_tid r))] (Some 40))"
  proof (cases "eth_type p = 0x0800")
    case True
    then have "lookup es 20 p = Some (sw 20 100 [WEthType 0x0800, WIpv4Dst (r_ip r) (mask4 (r_len r))] [SetField (WTunnelId (r_tid r))] (Some 40))"
      using m by (intro lookup_family [OF es table20 _ r(1)]) auto
    then show ?thesis by blast
  next
    case False
    then have "lookup es 20 p = Some (sw 20 100 [WEthType 0x0806, WArpTpa (r_ip r) (mask4 (r_len r))] [SetField (WTunnelId (r_tid r))] (Some 40))"
      using t m by (intro lookup_family [OF es table20 _ r(1)]) auto
    then show ?thesis by blast
  qed
  then show ?thesis using 40 Some by (auto simp: pipeline_hit to_remote_def)
qed

text \<open>Tables 10 and 0.\<close>

lemma match_plan:
  assumes "net_ok net" and "length x = 4"
  shows "and_bytes x (mask4 (n_pn net)) = n_pip net \<longleftrightarrow> in_pods net x"
    and "and_bytes x (mask4 (n_cn net)) = n_cip net \<longleftrightarrow> in_cluster net x"
  using match_network [OF net_okD(1) [OF assms(1)] assms(2)] match_network [OF net_okD(2) [OF assms(1)] assms(2)] by auto

lemma pipeline10:
  assumes ok: "net_ok net" and es: "set es = set (installed net)" and l: "length (net_dst p) = 4"
    and arp: "eth_type p = 0x0806"
  shows "pipeline es 10 p =
    (if net_dst p = n_gw net then [(n_host net, p)]
     else if in_pods net (net_dst p) then to_pod net p
     else if in_cluster net (net_dst p) then to_remote net p else [])"
proof -
  note m = match_plan [OF ok l] and_ones [OF l]
  consider (gw) "net_dst p = n_gw net" | (pods) "net_dst p \<noteq> n_gw net" "in_pods net (net_dst p)"
    | (cluster) "net_dst p \<noteq> n_gw net" "\<not> in_pods net (net_dst p)" "in_cluster net (net_dst p)"
    | (outside) "net_dst p \<noteq> n_gw net" "\<not> in_pods net (net_dst p)" "\<not> in_cluster net (net_dst p)" by blast
  then show ?thesis
  proof cases
    case gw
    then have "lookup es 10 p = Some (sw 10 500 [WEthType 0x0806, WArpTpa (n_gw net) ones4] [Output_port (n_host net)] None)"
      using arp m by (intro lookup_table [OF es]) (simp_all add: table10)
    then show ?thesis using gw by (simp add: pipeline_hit)
  next
    case pods
    then have "lookup es 10 p = Some (sw 10 100 [WEthType 0x0806, WArpTpa (n_pip net) (mask4 (n_pn net))] [] (Some 50))"
      using arp m by (intro lookup_table [OF es]) (simp_all add: table10)
    then show ?thesis using pods pipeline50 [OF ok es l] arp by (simp add: pipeline_hit)
  next
    case cluster
    then have "lookup es 10 p = Some (sw 10 50 [WEthType 0x0806, WArpTpa (n_cip net) (mask4 (n_cn net))] [] (Some 20))"
      using arp m by (intro lookup_table [OF es]) (simp_all add: table10)
    then show ?thesis using cluster pipeline20 [OF ok es l] arp by (simp add: pipeline_hit)
  next
    case outside
    then have "lookup es 10 p = None"
      using arp m by (intro lookup_table_None [OF es]) (simp_all add: table10)
    then show ?thesis using outside by (simp add: pipeline_miss)
  qed
qed

lemma pipeline0_other:
  assumes es: "set es = set (installed net)" and "eth_type p \<noteq> 0x0800"
  shows "pipeline es 0 p = (if eth_type p = 0x0806 then pipeline es 10 p else [(n_host net, p)])"
proof (cases "eth_type p = 0x0806")
  case True
  then have "lookup es 0 p = Some (sw 0 200 [WEthType 0x0806] [] (Some 10))"
    by (intro lookup_table [OF es]) (simp_all add: table0)
  then show ?thesis using True by (simp add: pipeline_hit)
next
  case False
  then have "lookup es 0 p = Some (sw 0 0 [] [Output_port (n_host net)] None)"
    using assms(2) by (intro lookup_table [OF es]) (simp_all add: table0)
  then show ?thesis using False by (simp add: pipeline_hit)
qed

lemma pipeline0_ipv4:
  assumes ok: "net_ok net" and es: "set es = set (installed net)" and l: "length (net_dst p) = 4"
    and ip: "eth_type p = 0x0800"
  shows "pipeline es 0 p =
    (if net_dst p = n_gw net then [(n_host net, p\<lparr>eth_dst := n_mac net\<rparr>)]
     else if in_pods net (net_dst p) then to_pod net p
     else if in_cluster net (net_dst p) then to_remote net p else [(n_host net, p)])"
proof -
  note m = match_plan [OF ok l] and_ones [OF l]
  consider (gw) "net_dst p = n_gw net" | (pods) "net_dst p \<noteq> n_gw net" "in_pods net (net_dst p)"
    | (cluster) "net_dst p \<noteq> n_gw net" "\<not> in_pods net (net_dst p)" "in_cluster net (net_dst p)"
    | (outside) "net_dst p \<noteq> n_gw net" "\<not> in_pods net (net_dst p)" "\<not> in_cluster net (net_dst p)" by blast
  then show ?thesis
  proof cases
    case gw
    then have "lookup es 0 p = Some (sw 0 500 [WEthType 0x0800, WIpv4Dst (n_gw net) ones4]
        [SetField (WEthDst (n_mac net)), Output_port (n_host net)] None)"
      using ip m by (intro lookup_table [OF es]) (simp_all add: table0)
    then show ?thesis using gw by (simp add: pipeline_hit)
  next
    case pods
    then have "lookup es 0 p = Some (sw 0 300 [WEthType 0x0800, WIpv4Dst (n_pip net) (mask4 (n_pn net))] [] (Some 50))"
      using ip m by (intro lookup_table [OF es]) (simp_all add: table0)
    then show ?thesis using pods pipeline50 [OF ok es l] ip by (simp add: pipeline_hit)
  next
    case cluster
    then have "lookup es 0 p = Some (sw 0 100 [WEthType 0x0800, WIpv4Dst (n_cip net) (mask4 (n_cn net))] [] (Some 20))"
      using ip m by (intro lookup_table [OF es]) (simp_all add: table0)
    then show ?thesis using cluster pipeline20 [OF ok es l] ip by (simp add: pipeline_hit)
  next
    case outside
    then have "lookup es 0 p = Some (sw 0 0 [] [Output_port (n_host net)] None)"
      using ip m by (intro lookup_table [OF es]) (simp_all add: table0)
    then show ?thesis using outside by (simp add: pipeline_hit)
  qed
qed

text \<open>The tables of a node do what \<open>route\<close> says, in whatever order the entries were added.\<close>

lemma pipeline_route:
  assumes "net_ok net" and "set es = set (installed net)" and "length (net_dst p) = 4"
  shows "pipeline es 0 p = route net p"
  using assms pipeline0_ipv4 [OF assms] pipeline0_other [OF assms(2)] pipeline10 [OF assms]
  by (simp add: route_def)

end
