(* ===== verification/Of_Node.thy ===== *)
theory Of_Node
  imports Of_Pipeline
begin

text \<open>
  The controller and the switch together: after start-up and any sequence of informer events
  that shows every virtual switch and local pod at least once, the switch forwards packets as
  \<open>route\<close> says.

  \<open>describes\<close> relates the Kubernetes objects and the controller's configuration to the address
  plan of \<open>Of_Pipeline\<close>, and \<open>host_serves\<close> says that the commands on the host answer: ports have
  numbers, a pod's port is in the database, and \<open>ovs-ofctl\<close> accepts the tunnel flows.
\<close>

type_synonym remote_plan = "(VSwitchConfig \<times> remote) list"
type_synonym pod_plan = "(Pod \<times> IP \<times> HardwareAddr \<times> nat) list"

definition remote_of :: "VSwitchConfig \<Rightarrow> remote \<Rightarrow> bool" where
  "remote_of v r \<longleftrightarrow> cidr_of (PodCIDR (Spec v)) (r_ip r) (r_len r) \<and>
     r_tid r = scast (tunnelID v) \<and> r_overlay r = OverlayIP (Spec v)"

definition describes ::
    "controller \<Rightarrow> VSwitchConfig \<Rightarrow> remote_plan \<Rightarrow> pod_plan \<Rightarrow> nat \<Rightarrow> nat \<Rightarrow> node_net \<Rightarrow> bool" where
  "describes c lv rv ps hp vp net \<longleftrightarrow>
     cidr_of (ctl_podCIDR c) (n_pip net) (n_pn net) \<and> cidr_of (ctl_clusterCIDR c) (n_cip net) (n_cn net) \<and>
     ctl_gatewayIP c = dotted (n_gw net) \<and> ctl_gatewayMAC c = hw_String (n_mac net) \<and> length (n_mac net) = 6 \<and>
     vname lv = ctl_nodeName c \<and> PodCIDR (Spec lv) = ctl_podCIDR c \<and> n_tid net = scast (tunnelID lv) \<and>
     (\<forall>(v, r)\<in>set rv. vname v \<noteq> ctl_nodeName c \<and> remote_of v r) \<and>
     n_remotes net = map snd rv \<and> distinct (map fst rv) \<and>
     (\<forall>(pod, ip, mac, port)\<in>set ps. PodIP pod = dotted ip \<and> length mac = 6 \<and> in_pods net ip) \<and>
     n_pods net = map (\<lambda>(pod, ip, mac, port). (ip, mac, of_nat port)) ps \<and> distinct (map fst ps) \<and>
     n_host net = of_nat hp \<and> n_vxlan net = of_nat vp"

definition host_serves :: "'e Exec \<Rightarrow> ('e \<Rightarrow> bool) \<Rightarrow> remote_plan \<Rightarrow> pod_plan \<Rightarrow> nat \<Rightarrow> nat \<Rightarrow> bool" where
  "host_serves ex H rv ps hp vp \<longleftrightarrow>
     (\<forall>h. H h \<longrightarrow> reads_port ex h ''host-local'' hp \<and> reads_port ex h ''vxlan0'' vp \<and>
        (\<forall>v\<in>fst ` set rv. \<exists>h'. adds_tunnel_flows ex h v vp h' \<and> H h') \<and>
        (\<forall>(pod, ip, mac, port)\<in>set ps. reads_pod ex h pod mac port))"

text \<open>The object an event shows to the controller; other events have no effect.\<close>

fun shown :: "of_event \<Rightarrow> runtime_object option" where
  "shown (VSwitchEvent (AddEvent (VSwitchConfigObj v))) = Some (VSwitchConfigObj v)"
| "shown (VSwitchEvent (UpdateEvent old (VSwitchConfigObj v))) = Some (VSwitchConfigObj v)"
| "shown (PodEvent (AddEvent (PodObj pod))) = Some (PodObj pod)"
| "shown (PodEvent (UpdateEvent old (PodObj pod))) = Some (PodObj pod)"
| "shown _ = None"

definition known :: "VSwitchConfig \<Rightarrow> remote_plan \<Rightarrow> pod_plan \<Rightarrow> runtime_object set" where
  "known lv rv ps = insert (VSwitchConfigObj lv) (VSwitchConfigObj ` fst ` set rv \<union> PodObj ` fst ` set ps)"

text \<open>The entries an object contributes.\<close>

fun object_entries :: "node_net \<Rightarrow> remote_plan \<Rightarrow> pod_plan \<Rightarrow> runtime_object \<Rightarrow> flow_entry list" where
  "object_entries net rv ps (VSwitchConfigObj v) =
     classification_entries (n_pip net) (n_pn net) (n_cip net) (n_cn net) @
     (case map_of rv v of
        None \<Rightarrow> local_entries (n_pip net) (n_pn net) (n_tid net)
      | Some r \<Rightarrow> overlay_entries (r_ip r) (r_len r) (r_tid r))"
| "object_entries net rv ps (PodObj pod) =
     (case map_of ps pod of None \<Rightarrow> [] | Some (ip, mac, port) \<Rightarrow> pod_entries ip mac (of_nat port))"
| "object_entries net rv ps _ = []"

definition event_entries :: "node_net \<Rightarrow> remote_plan \<Rightarrow> pod_plan \<Rightarrow> of_event \<Rightarrow> flow_entry list" where
  "event_entries net rv ps ev = (case shown ev of None \<Rightarrow> [] | Some ob \<Rightarrow> object_entries net rv ps ob)"

subsection \<open>One event\<close>

definition world_ok :: "('e \<Rightarrow> bool) \<Rightarrow> 'e of_world \<Rightarrow> bool" where
  "world_ok H w \<longleftrightarrow> H (host w) \<and> list_all msg_valid (sent w)"

lemma vswitch_step:
  assumes d: "describes c lv rv ps hp vp net" and h: "host_serves ex H rv ps hp vp" and w: "world_ok H w"
    and v: "v = lv \<or> v \<in> fst ` set rv"
  shows "\<exists>w'. run_state (sync_vswitch ex c v) w = ((), w') \<and> world_ok H w' \<and>
    entries_of (sent w') = entries_of (sent w) @ object_entries net rv ps (VSwitchConfigObj v)"
proof -
  have pc: "cidr_of (ctl_podCIDR c) (n_pip net) (n_pn net)" and cc: "cidr_of (ctl_clusterCIDR c) (n_cip net) (n_cn net)"
    using d by (auto simp: describes_def)
  have port: "reads_port ex (host w) ''vxlan0'' vp" using h w by (simp add: host_serves_def world_ok_def)
  have names: "vname lv = ctl_nodeName c" "\<And>v r. (v, r) \<in> set rv \<Longrightarrow> vname v \<noteq> ctl_nodeName c \<and> remote_of v r"
    using d by (auto simp: describes_def)
  have "\<exists>w' flows. run_state (sync_vswitch ex c v) w = ((), w') \<and> H (host w') \<and> good_cidr (PodCIDR (Spec v)) \<and>
      sent w' = sent w @ map FlowModMsg flows \<and> map abs_flow flows = object_entries net rv ps (VSwitchConfigObj v)"
  proof (cases "map_of rv v")
    case None
    then have "v = lv" using v by (auto simp: map_of_eq_None_iff)
    then have lv: "vname v = ctl_nodeName c" "PodCIDR (Spec v) = ctl_podCIDR c" "n_tid net = scast (tunnelID v)"
      using d by (auto simp: describes_def)
    then show ?thesis
      using OnAddVSwitch_local [OF pc cc, of v "n_pip net" "n_pn net" ex w vp] pc port None w cidr_of_good [OF pc]
      by (auto simp: world_ok_def)
  next
    case (Some r)
    then have m: "(v, r) \<in> set rv" by (rule map_of_SomeD)
    then have r: "cidr_of (PodCIDR (Spec v)) (r_ip r) (r_len r)" "r_tid r = scast (tunnelID v)" and nn: "vname v \<noteq> ctl_nodeName c"
      using names(2) by (auto simp: remote_of_def)
    obtain h' where h': "adds_tunnel_flows ex (host w) v vp h'" "H h'"
      using h w m unfolding host_serves_def world_ok_def by force
    show ?thesis
      using OnAddVSwitch_remote [OF pc cc r(1) nn port h'(1)] h'(2) Some r cidr_of_good [OF r(1)] by auto
  qed
  then obtain w' flows where w': "run_state (sync_vswitch ex c v) w = ((), w')" "H (host w')" "good_cidr (PodCIDR (Spec v))"
    and flows: "sent w' = sent w @ map FlowModMsg flows" "map abs_flow flows = object_entries net rv ps (VSwitchConfigObj v)"
    by blast
  have "list_all msg_valid (sent w')"
    using sync_vswitch_valid [OF cidr_of_good [OF pc] cidr_of_good [OF cc] w'(3,1)] w by (simp add: world_ok_def)
  then show ?thesis using w' sent_entries [OF flows(1) _ flows(2)] by (auto simp: world_ok_def)
qed

lemma pod_step:
  assumes d: "describes c lv rv ps hp vp net" and h: "host_serves ex H rv ps hp vp" and w: "world_ok H w"
    and ok: "net_ok net" and pod: "pod \<in> fst ` set ps"
  shows "\<exists>w'. run_state (syncPod ex c pod) w = (Returns (Inr ()), w') \<and> world_ok H w' \<and>
    entries_of (sent w') = entries_of (sent w) @ object_entries net rv ps (PodObj pod)"
proof -
  obtain ip mac port where x: "map_of ps pod = Some (ip, mac, port)"
    using pod by (metis map_of_eq_None_iff not_Some_eq prod_cases3)
  then have m: "(pod, ip, mac, port) \<in> set ps" by (rule map_of_SomeD)
  then have p: "PodIP pod = dotted ip" "length mac = 6" "in_pods net ip" and pc: "cidr_of (ctl_podCIDR c) (n_pip net) (n_pn net)"
    using d by (auto simp: describes_def)
  have "(ip, mac, of_nat port) \<in> set (n_pods net)" using m d by (force simp: describes_def)
  then have l: "length ip = 4" using ok by (auto simp: net_ok_def)
  have "\<forall>(pod, ip, mac, port)\<in>set ps. reads_pod ex (host w) pod mac port"
    using h w by (simp add: host_serves_def world_ok_def)
  from bspec [OF this m] have rp: "reads_pod ex (host w) pod mac port" by simp
  have "isLocalIP c (PodIP pod) = Inr True" using isLocalIP_iff [OF pc l] p by simp
  then obtain w' flows where w': "run_state (syncPod ex c pod) w = (Returns (Inr ()), w')" "host w' = host w"
    and flows: "sent w' = sent w @ map FlowModMsg flows" "map abs_flow flows = pod_entries ip mac (of_nat port)"
    using syncPod_entries [OF _ p(1) l p(2) rp] by blast
  have "list_all msg_valid (sent w')" using syncPod_valid [OF w'(1)] w by (simp add: world_ok_def)
  then show ?thesis using w' w x sent_entries [OF flows(1) _ flows(2)] by (auto simp: world_ok_def)
qed

lemma of_handle_shown:
  "of_handle ex c ev =
     (case shown ev of
        Some (VSwitchConfigObj v) \<Rightarrow> State_Monad.bind (sync_vswitch ex c v) (\<lambda>_. State_Monad.return (Returns ()))
      | Some (PodObj pod) \<Rightarrow> log_error (syncPod ex c pod)
      | _ \<Rightarrow> State_Monad.return (Returns ()))"
  by (cases ev rule: shown.cases)
    (simp_all add: OnAddVSwitch_def OnUpdateVSwitch_def OnDeleteVSwitch_def OnAddPod_def OnUpdatePod_def OnDeletePod_def)

lemma event_step:
  assumes d: "describes c lv rv ps hp vp net" and h: "host_serves ex H rv ps hp vp" and w: "world_ok H w"
    and ok: "net_ok net" and k: "\<forall>ob. shown ev = Some ob \<longrightarrow> ob \<in> known lv rv ps"
  shows "\<exists>w'. run_state (of_handle ex c ev) w = (Returns (), w') \<and> world_ok H w' \<and>
    entries_of (sent w') = entries_of (sent w) @ event_entries net rv ps ev"
proof (cases "shown ev")
  case None
  then show ?thesis using w by (simp add: of_handle_shown event_entries_def)
next
  case (Some ob)
  then consider (vswitch) v where "ob = VSwitchConfigObj v" "v = lv \<or> v \<in> fst ` set rv"
    | (pod) pod where "ob = PodObj pod" "pod \<in> fst ` set ps"
    using k by (auto simp: known_def)
  then show ?thesis
  proof cases
    case vswitch
    then show ?thesis
      using vswitch_step [OF d h w vswitch(2)] Some
      by (auto simp: of_handle_shown event_entries_def run_state_bind simp del: object_entries.simps)
  next
    case pod
    then show ?thesis
      using pod_step [OF d h w ok pod(2)] Some
      by (auto simp: of_handle_shown event_entries_def run_simps simp del: object_entries.simps)
  qed
qed

subsection \<open>Runs\<close>

lemma Initialize_entries:
  assumes "sent w = []"
  shows "\<exists>w1. run_state Initialize w = (Inr (), w1) \<and> host w1 = host w \<and> entries_of (sent w1) = []"
proof -
  have "dec_flow_mod (enc_header \<lparr>HVersion = 4, HType = OFPT_HELLO, HLength = 8, HXid = x\<rparr>) = None" for x
    by (simp add: dec_flow_mod_def enc_header_def)
  then show ?thesis
    using assms OfpHello_Serialize_new
    by (simp add: Initialize_def NewOfpHello_def entries_of_def entry_of_def List.map_filter_simps)
qed

lemma run_entries:
  assumes "describes c lv rv ps hp vp net" and "host_serves ex H rv ps hp vp" and "world_ok H w"
    and "net_ok net" and "\<forall>ev\<in>set evs. \<forall>ob. shown ev = Some ob \<longrightarrow> ob \<in> known lv rv ps"
  shows "world_ok H (of_run ex c evs w) \<and>
    entries_of (sent (of_run ex c evs w)) = entries_of (sent w) @ concat (map (event_entries net rv ps) evs)"
  using assms(3,5)
proof (induction evs arbitrary: w)
  case (Cons ev evs)
  then obtain w' where "run_state (of_handle ex c ev) w = (Returns (), w')" "world_ok H w'"
      "entries_of (sent w') = entries_of (sent w) @ event_entries net rv ps ev"
    using event_step [OF assms(1,2) Cons.prems(1) assms(4)] by (metis list.set_intros(1))
  then show ?case using Cons by simp
qed simp

text \<open>When every object has been shown, the entries are those of the plan.\<close>

lemma objects_entries:
  assumes d: "describes c lv rv ps hp vp net"
  shows "(\<Union>ob\<in>known lv rv ps. set (object_entries net rv ps ob)) =
    set (classification_entries (n_pip net) (n_pn net) (n_cip net) (n_cn net)) \<union>
    set (local_entries (n_pip net) (n_pn net) (n_tid net)) \<union>
    (\<Union>r\<in>set (n_remotes net). set (overlay_entries (r_ip r) (r_len r) (r_tid r))) \<union>
    (\<Union>(ip, mac, port)\<in>set (n_pods net). set (pod_entries ip mac port))"
proof -
  have lv: "map_of rv lv = None" and drv: "distinct (map fst rv)" and dps: "distinct (map fst ps)"
    and rem: "n_remotes net = map snd rv" and pods: "n_pods net = map (\<lambda>(pod, ip, mac, port). (ip, mac, of_nat port)) ps"
    using d by (auto simp: describes_def map_of_eq_None_iff)
  let ?C = "set (classification_entries (n_pip net) (n_pn net) (n_cip net) (n_cn net))"
  have "set (object_entries net rv ps (VSwitchConfigObj (fst x))) =
      ?C \<union> set (overlay_entries (r_ip (snd x)) (r_len (snd x)) (r_tid (snd x)))" if "x \<in> set rv" for x
    using map_of_is_SomeI [OF drv, of "fst x" "snd x"] that by simp
  then have "(\<Union>v\<in>fst ` set rv. set (object_entries net rv ps (VSwitchConfigObj v))) =
      (\<Union>r\<in>set (n_remotes net). ?C \<union> set (overlay_entries (r_ip r) (r_len r) (r_tid r)))"
    unfolding rem set_map image_image by (intro SUP_cong) auto
  moreover have "set (object_entries net rv ps (PodObj (fst x))) =
      set (pod_entries (fst (snd x)) (fst (snd (snd x))) (of_nat (snd (snd (snd x)))))" if "x \<in> set ps" for x
    using map_of_is_SomeI [OF dps, of "fst x" "snd x"] that by (simp add: case_prod_unfold)
  then have "(\<Union>pod\<in>fst ` set ps. set (object_entries net rv ps (PodObj pod))) =
      (\<Union>(ip, mac, port)\<in>set (n_pods net). set (pod_entries ip mac port))"
    unfolding pods set_map image_image by (intro SUP_cong) (auto simp: case_prod_unfold)
  moreover have "set (object_entries net rv ps (VSwitchConfigObj lv)) =
      set (classification_entries (n_pip net) (n_pn net) (n_cip net) (n_cn net)) \<union>
      set (local_entries (n_pip net) (n_pn net) (n_tid net))" using lv by simp
  moreover have "(\<Union>ob\<in>insert a (f ` A \<union> g ` B). F ob) = F a \<union> (\<Union>x\<in>A. F (f x)) \<union> (\<Union>x\<in>B. F (g x))"
    for F :: "runtime_object \<Rightarrow> flow_entry set" and a A B and f :: "VSwitchConfig \<Rightarrow> runtime_object" and g :: "Pod \<Rightarrow> runtime_object"
    by blast
  ultimately show ?thesis unfolding known_def by (simp only:) blast
qed

lemma plan_entries:
  assumes "describes c lv rv ps hp vp net" and "\<forall>ev\<in>set evs. \<forall>ob. shown ev = Some ob \<longrightarrow> ob \<in> known lv rv ps"
    and "\<forall>ob\<in>known lv rv ps. \<exists>ev\<in>set evs. shown ev = Some ob"
  shows "set (default_entries (n_gw net) (n_mac net) (n_pip net) (n_pn net) (n_cip net) (n_cn net) (n_host net) @
      concat (map (event_entries net rv ps) evs)) = set (sent_entries_of net)"
proof -
  have "set (concat (map (event_entries net rv ps) evs)) = (\<Union>ob\<in>known lv rv ps. set (object_entries net rv ps ob))"
  proof (intro set_eqI iffI)
    fix e
    assume "e \<in> set (concat (map (event_entries net rv ps) evs))"
    then obtain ev where "ev \<in> set evs" "e \<in> set (event_entries net rv ps ev)" by auto
    then show "e \<in> (\<Union>ob\<in>known lv rv ps. set (object_entries net rv ps ob))"
      using assms(2) by (auto simp: event_entries_def split: option.splits)
  next
    fix e
    assume "e \<in> (\<Union>ob\<in>known lv rv ps. set (object_entries net rv ps ob))"
    then obtain ob where ob: "ob \<in> known lv rv ps" "e \<in> set (object_entries net rv ps ob)" by blast
    then obtain ev where "ev \<in> set evs" "shown ev = Some ob" using assms(3) by blast
    then have "ev \<in> set evs" "e \<in> set (event_entries net rv ps ev)" using ob(2) by (simp_all add: event_entries_def)
    then show "e \<in> set (concat (map (event_entries net rv ps) evs))" by auto
  qed
  then show ?thesis
    unfolding sent_entries_of_def set_append objects_entries [OF assms(1)] by (simp only: set_concat set_map set_append Un_assoc) auto
qed

text \<open>From start-up to the last event: the messages are valid and carry the entries of the plan.\<close>

lemma node_entries:
  assumes "describes c lv rv ps hp vp net" and "net_ok net" and "host_serves ex H rv ps hp vp"
    and "H (host w)" and "sent w = []"
    and "\<forall>ev\<in>set evs. \<forall>ob. shown ev = Some ob \<longrightarrow> ob \<in> known lv rv ps"
    and "\<forall>ob\<in>known lv rv ps. \<exists>ev\<in>set evs. shown ev = Some ob"
  shows "\<exists>w1 w2. run_state Initialize w = (Inr (), w1) \<and> run_state (AddDefaultFlows ex c br) w1 = (Inr (), w2) \<and>
    list_all msg_valid (sent (of_run ex c evs w2)) \<and>
    set (entries_of (sent (of_run ex c evs w2))) = set (sent_entries_of net)"
proof -
  have pc: "cidr_of (ctl_podCIDR c) (n_pip net) (n_pn net)" and cc: "cidr_of (ctl_clusterCIDR c) (n_cip net) (n_cn net)"
    and gw: "ctl_gatewayIP c = dotted (n_gw net)" "length (n_gw net) = 4" and mac: "ctl_gatewayMAC c = hw_String (n_mac net)" "length (n_mac net) = 6"
    and hp: "n_host net = of_nat hp"
    using assms(1,2) by (auto simp: describes_def net_ok_def)
  obtain w1 where w1: "run_state Initialize w = (Inr (), w1)" "host w1 = host w" "entries_of (sent w1) = []"
    using assms(5) Initialize_entries by blast
  have v1: "list_all msg_valid (sent w1)" using Initialize_valid [OF w1(1)] assms(5) by simp
  have port: "reads_port ex (host w1) ''host-local'' hp" using assms(3,4) w1(2) by (simp add: host_serves_def)
  obtain w2 flows where w2: "run_state (AddDefaultFlows ex c br) w1 = (Inr (), w2)" "host w2 = host w1"
    and flows: "sent w2 = sent w1 @ map FlowModMsg flows"
      "map abs_flow flows = default_entries (n_gw net) (n_mac net) (n_pip net) (n_pn net) (n_cip net) (n_cn net) (of_nat hp)"
    using AddDefaultFlows_entries [OF pc cc gw mac port] by blast
  have v2: "list_all msg_valid (sent w2)"
    using AddDefaultFlows_valid [OF cidr_of_good [OF pc] cidr_of_good [OF cc] w2(1) v1] .
  have ok: "world_ok H w2" using assms(4) w1(2) w2(2) v2 by (simp add: world_ok_def)
  have "list_all msg_valid (sent (of_run ex c evs w2))"
    using run_entries [OF assms(1,3) ok assms(2,6)] by (simp add: world_ok_def)
  moreover have "set (entries_of (sent (of_run ex c evs w2))) = set (sent_entries_of net)"
    using run_entries [OF assms(1,3) ok assms(2,6)] sent_entries [OF flows(1) v2 flows(2)] w1(3)
      plan_entries [OF assms(1,6,7)] hp by simp
  ultimately show ?thesis using w1(1) w2(1) by blast
qed

text \<open>Entries of the plan, in any order and number, with the tunnel entries forward as the plan says.\<close>

lemma plan_forwards:
  assumes "net_ok net" and "set es = set (sent_entries_of net)" and "length (net_dst p) = 4"
  shows "pipeline (map sw_of es @ concat (map (tunnel_entries (n_vxlan net)) (n_remotes net))) 0 p = route net p"
proof -
  have "set (map sw_of es @ concat (map (tunnel_entries (n_vxlan net)) (n_remotes net))) = set (installed net)"
    using assms(2) unfolding installed_def set_append set_map by simp
  from pipeline_route [OF assms(1) this assms(3)] show ?thesis .
qed

subsection \<open>Properties\<close>


definition demo_net :: node_net where
  "demo_net = \<lparr>n_gw = [10, 244, 1, 1], n_mac = [10, 0, 0, 0, 0, 1], n_pip = [10, 244, 1, 0], n_pn = 24,
     n_cip = [10, 244, 0, 0], n_cn = 16, n_host = 5, n_vxlan = 5, n_tid = 100,
     n_remotes = [\<lparr>r_ip = [10, 244, 2, 0], r_len = 24, r_tid = 100, r_overlay = ''192.168.0.2''\<rparr>],
     n_pods = [([10, 244, 1, 7], [10, 0, 0, 0, 0, 7], 5)]\<rparr>"

definition demo_remotes :: remote_plan where
  "demo_remotes = [(demo_vswitch ''node2'' ''10.244.2.0/24'',
     \<lparr>r_ip = [10, 244, 2, 0], r_len = 24, r_tid = 100, r_overlay = ''192.168.0.2''\<rparr>)]"

definition demo_pods :: pod_plan where
  "demo_pods = [(demo_pod, [10, 244, 1, 7], [10, 0, 0, 0, 0, 7], 5)]"

lemma demo_net_ok: "net_ok demo_net"
proof -
  have "in_prefix [10, 244, 2, 0] 24 x \<Longrightarrow> \<not> in_prefix [10, 244, 1, 0] 24 x" for x
    by (simp add: in_prefix_def SetBytes_Cons)
  moreover have "network [10, 244, 1, 0] 24" "network [10, 244, 0, 0] 16" "network [10, 244, 2, 0] 24"
    using demo_cidrs by (simp_all add: network_def cidr_of_def)
  ultimately show ?thesis by (simp add: net_ok_def demo_net_def)
qed

lemma demo_describes:
  "describes demo_ctl (demo_vswitch ''node1'' ''10.244.1.0/24'') demo_remotes demo_pods 5 5 demo_net"
proof -
  have "in_prefix [10, 244, 1, 0] 24 [10, 244, 1, 7]" by (simp add: in_prefix_def SetBytes_Cons)
  then show ?thesis
    using demo_cidrs demo_strings
    by (simp add: describes_def remote_of_def demo_ctl_def demo_net_def demo_remotes_def demo_pods_def demo_vswitch_def demo_pod_def)
qed

lemma demo_serves: "host_serves demo_exec (\<lambda>_. True) demo_remotes demo_pods 5 5"
  using demo_reads demo_tunnel demo_reads_pod by (auto simp: host_serves_def demo_remotes_def demo_pods_def)

definition demo_events :: "of_event list" where
  "demo_events =
     [VSwitchEvent (AddEvent (VSwitchConfigObj (demo_vswitch ''node1'' ''10.244.1.0/24''))),
      VSwitchEvent (AddEvent (VSwitchConfigObj (demo_vswitch ''node2'' ''10.244.2.0/24''))),
      PodEvent (AddEvent (PodObj demo_pod)), PodEvent (DeleteEvent (PodObj demo_pod))]"

abbreviation demo_packet_to :: "bytes \<Rightarrow> packet" where
  "demo_packet_to a \<equiv> \<lparr>eth_dst = [], eth_type = 0x0800, net_dst = a, tun_id = 0, tun_dst = []\<rparr>"


end
