(* ===== verification/Of_Connection.thy ===== *)
theory Of_Connection
  imports Ofp_Messages
begin

text \<open>
  The connection manager, \<open>connection/connection.go\<close>: a queue of outgoing messages that any
  goroutine may extend, one goroutine that writes it to the switch, one that accepts
  connections, and one per connection that reads messages.

  The goroutines are interleaved at the points where they take or release a mutex, wait on a
  condition or write: \<open>pq_pc\<close>, \<open>send_pc\<close> and \<open>serve_pc\<close> are the program counters.
  \<open>ProcessQueue\<close>, \<open>OFConnect_Send\<close> and \<open>Serve\<close> give the next step of a goroutine, or \<open>None\<close>
  when it is blocked; \<open>step\<close> interleaves them. The answers of the network are arguments:
  the result of a \<open>Write\<close> (which on an error may have written a part of the message) and of
  an \<open>AcceptTCP\<close>.

  \<open>sync.Cond.Wait\<close> registers the waiter, releases the mutex and takes it again after a
  \<open>Broadcast\<close>; it returns for no other reason.
\<close>

subsection \<open>State\<close>

datatype thread = T_process | T_serve | T_send nat

datatype pq_pc =
    PQ_top
  | PQ_conn
  | PQ_conn_wait
  | PQ_conn_woken
  | PQ_conn_unlock
  | PQ_lock_queue
  | PQ_queue
  | PQ_queue_wait
  | PQ_queue_woken
  | PQ_head
  | PQ_write_lock OFMessage
  | PQ_write OFMessage
  | PQ_failed
  | PQ_pop

datatype send_pc = S_idle | S_locked OFMessage | S_unlock

datatype serve_pc = V_accept | V_set nat | V_locked nat | V_unlock nat | V_spawn nat

text \<open>
  The fields of the Go struct, with the mutexes as their holders; the program counters; and
  what was written to each connection. A panic of a goroutine ends the process: \<open>crashed\<close>.
\<close>

record OFConnect =
  queue :: "OFMessage list"
  queueMu :: "thread option"
  conn :: "nat option"
  connMu :: "thread option"
  pq :: pq_pc
  sender :: "nat \<Rightarrow> send_pc"
  server :: serve_pc
  wire :: "nat \<Rightarrow> bytes"
  crashed :: "go_panic option"

text \<open>What a step does that the outside can see.\<close>

datatype label =
    Tau
  | Enqueued OFMessage
  | Wrote nat OFMessage
  | WriteFailed nat OFMessage
  | Spawned nat

datatype write_result = WriteOk | WriteErr nat go_error

subsection \<open>Operations\<close>

text \<open>\<open>listen\<close> stands for \<open>net.ResolveTCPAddr\<close> followed by \<open>net.ListenTCP\<close> on an address.\<close>

definition NewOFConnect :: "(string \<Rightarrow> unit result) \<Rightarrow> OFConnect result" where
  "NewOFConnect listen =
     (case listen ('':'' @ strconv_Itoa 6653) of
        Inl err \<Rightarrow> Inl err
      | Inr _ \<Rightarrow> Inr \<lparr>queue = [], queueMu = None, conn = None, connMu = None, pq = PQ_top,
          sender = (\<lambda>_. S_idle), server = V_accept, wire = (\<lambda>_. []), crashed = None\<rparr>)"

text \<open>\<open>queueCond.Broadcast()\<close> and \<open>connCond.Broadcast()\<close>; only \<open>ProcessQueue\<close> waits on them.\<close>

definition wake_queue :: "pq_pc \<Rightarrow> pq_pc" where
  "wake_queue p = (if p = PQ_queue_wait then PQ_queue_woken else p)"

definition wake_conn :: "pq_pc \<Rightarrow> pq_pc" where
  "wake_conn p = (if p = PQ_conn_wait then PQ_conn_woken else p)"

fun OFConnect_Send :: "nat \<Rightarrow> OFMessage \<Rightarrow> OFConnect \<Rightarrow> (label \<times> OFConnect) option" where
  "OFConnect_Send i msg s =
     (case sender s i of
        S_idle \<Rightarrow>
          if queueMu s = None
          then Some (Tau, s\<lparr>queueMu := Some (T_send i), sender := (sender s)(i := S_locked msg)\<rparr>)
          else None
      | S_locked m \<Rightarrow>
          Some (Enqueued m, s\<lparr>queue := queue s @ [m], pq := wake_queue (pq s),
            sender := (sender s)(i := S_unlock)\<rparr>)
      | S_unlock \<Rightarrow> Some (Tau, s\<lparr>queueMu := None, sender := (sender s)(i := S_idle)\<rparr>))"

text \<open>The critical section of \<open>SetConnection\<close>.\<close>

definition SetConnection :: "nat \<Rightarrow> OFConnect \<Rightarrow> OFConnect" where
  "SetConnection c s = s\<lparr>conn := Some c, pq := wake_conn (pq s)\<rparr>"

text \<open>\<open>accept\<close> is the result of \<open>listener.AcceptTCP\<close>: an error is logged and the loop goes on.\<close>

fun Serve :: "nat result \<Rightarrow> OFConnect \<Rightarrow> (label \<times> OFConnect) option" where
  "Serve accept s =
     (case server s of
        V_accept \<Rightarrow> (case accept of Inl err \<Rightarrow> Some (Tau, s) | Inr c \<Rightarrow> Some (Tau, s\<lparr>server := V_set c\<rparr>))
      | V_set c \<Rightarrow>
          if connMu s = None then Some (Tau, s\<lparr>connMu := Some T_serve, server := V_locked c\<rparr>) else None
      | V_locked c \<Rightarrow> Some (Tau, (SetConnection c s)\<lparr>server := V_unlock c\<rparr>)
      | V_unlock c \<Rightarrow> Some (Tau, s\<lparr>connMu := None, server := V_spawn c\<rparr>)
      | V_spawn c \<Rightarrow> Some (Spawned c, s\<lparr>server := V_accept\<rparr>))"

text \<open>
  \<open>WriteConnection\<close> after it has taken \<open>connMu\<close>: the result is whether it returned an error;
  the deferred unlock is part of the step.
\<close>

definition WriteConnection ::
    "write_result \<Rightarrow> OFMessage \<Rightarrow> OFConnect \<Rightarrow> (label \<times> OFConnect \<times> unit result) outcome" where
  "WriteConnection wr msg s =
     (case conn s of
        None \<Rightarrow> Returns (Tau, s\<lparr>connMu := None\<rparr>, Inl (Errorf ''main connection not established yet'' []))
      | Some c \<Rightarrow>
          bind_outcome (Serialize msg) (\<lambda>bs.
          Returns (case wr of
             WriteOk \<Rightarrow> (Wrote c msg, s\<lparr>wire := (wire s)(c := wire s c @ bs), connMu := None\<rparr>, Inr ())
           | WriteErr n err \<Rightarrow>
               (WriteFailed c msg, s\<lparr>wire := (wire s)(c := wire s c @ take n bs), connMu := None\<rparr>, Inl err))))"

fun ProcessQueue :: "write_result \<Rightarrow> OFConnect \<Rightarrow> (label \<times> OFConnect) option" where
  "ProcessQueue wr s =
     (case pq s of
        PQ_top \<Rightarrow> if connMu s = None then Some (Tau, s\<lparr>connMu := Some T_process, pq := PQ_conn\<rparr>) else None
      | PQ_conn \<Rightarrow>
          if conn s = None then Some (Tau, s\<lparr>connMu := None, pq := PQ_conn_wait\<rparr>)
          else Some (Tau, s\<lparr>pq := PQ_conn_unlock\<rparr>)
      | PQ_conn_wait \<Rightarrow> None
      | PQ_conn_woken \<Rightarrow>
          if connMu s = None then Some (Tau, s\<lparr>connMu := Some T_process, pq := PQ_conn_unlock\<rparr>) else None
      | PQ_conn_unlock \<Rightarrow> Some (Tau, s\<lparr>connMu := None, pq := PQ_lock_queue\<rparr>)
      | PQ_lock_queue \<Rightarrow>
          if queueMu s = None then Some (Tau, s\<lparr>queueMu := Some T_process, pq := PQ_queue\<rparr>) else None
      | PQ_queue \<Rightarrow>
          if queue s = [] then Some (Tau, s\<lparr>queueMu := None, pq := PQ_queue_wait\<rparr>)
          else Some (Tau, s\<lparr>pq := PQ_head\<rparr>)
      | PQ_queue_wait \<Rightarrow> None
      | PQ_queue_woken \<Rightarrow>
          if queueMu s = None then Some (Tau, s\<lparr>queueMu := Some T_process, pq := PQ_head\<rparr>) else None
      | PQ_head \<Rightarrow>
          (case queue s of
             [] \<Rightarrow> Some (Tau, s\<lparr>crashed := Some IndexOutOfRange\<rparr>)
           | msg # _ \<Rightarrow> Some (Tau, s\<lparr>pq := PQ_write_lock msg\<rparr>))
      | PQ_write_lock msg \<Rightarrow>
          if connMu s = None then Some (Tau, s\<lparr>connMu := Some T_process, pq := PQ_write msg\<rparr>) else None
      | PQ_write msg \<Rightarrow>
          (case WriteConnection wr msg s of
             Panics p \<Rightarrow> Some (Tau, s\<lparr>crashed := Some p\<rparr>)
           | Returns (l, s', Inl err) \<Rightarrow> Some (l, s'\<lparr>pq := PQ_failed\<rparr>)
           | Returns (l, s', Inr _) \<Rightarrow> Some (l, s'\<lparr>pq := PQ_pop\<rparr>))
      | PQ_failed \<Rightarrow> Some (Tau, s\<lparr>queueMu := None, pq := PQ_top\<rparr>)
      | PQ_pop \<Rightarrow> Some (Tau, s\<lparr>queue := tl (queue s), queueMu := None, pq := PQ_top\<rparr>))"

declare OFConnect_Send.simps [simp del] Serve.simps [simp del] ProcessQueue.simps [simp del]

subsection \<open>Traces and channels\<close>

inductive path :: "('s \<Rightarrow> 'l \<Rightarrow> 's \<Rightarrow> bool) \<Rightarrow> 's \<Rightarrow> 'l list \<Rightarrow> 's \<Rightarrow> bool"
  for st :: "'s \<Rightarrow> 'l \<Rightarrow> 's \<Rightarrow> bool" where
  path_nil: "path st s [] s"
| path_snoc: "path st s tr s' \<Longrightarrow> st s' l s'' \<Longrightarrow> path st s (tr @ [l]) s''"

lemma path_single: "st s l s' \<Longrightarrow> path st s [l] s'"
  using path_snoc [OF path_nil] by fastforce

lemma path_append:
  assumes "path st s2 tr2 s3" and "path st s1 tr1 s2"
  shows "path st s1 (tr1 @ tr2) s3"
  using assms by (induction rule: path.induct) (auto simp flip: append_assoc intro: path_snoc)

fun enqueued :: "label list \<Rightarrow> OFMessage list" where
  "enqueued [] = []"
| "enqueued (Enqueued m # tr) = m # enqueued tr"
| "enqueued (_ # tr) = enqueued tr"

fun written :: "label list \<Rightarrow> OFMessage list" where
  "written [] = []"
| "written (Wrote c m # tr) = m # written tr"
| "written (_ # tr) = written tr"

fun written_to :: "nat \<Rightarrow> label list \<Rightarrow> OFMessage list" where
  "written_to c [] = []"
| "written_to c (Wrote d m # tr) = (if d = c then m # written_to c tr else written_to c tr)"
| "written_to c (_ # tr) = written_to c tr"

lemma trace_append [simp]:
  "enqueued (a @ b) = enqueued a @ enqueued b"
  by (induction a rule: enqueued.induct) simp_all

lemma written_append [simp]: "written (a @ b) = written a @ written b"
  by (induction a rule: written.induct) simp_all

lemma written_to_append [simp]: "written_to c (a @ b) = written_to c a @ written_to c b"
  by (induction a rule: written_to.induct) simp_all

text \<open>
  A first-in first-out channel: what it holds after a step, given what it held. A failed
  write leaves the message in place.
\<close>

fun channel_step :: "OFMessage list \<Rightarrow> label \<Rightarrow> OFMessage list \<Rightarrow> bool" where
  "channel_step q (Enqueued m) q' = (q' = q @ [m])"
| "channel_step q (Wrote c m) q' = (q = m # q')"
| "channel_step q _ q' = (q' = q)"

locale channel =
  fixes st :: "'s \<Rightarrow> label \<Rightarrow> 's \<Rightarrow> bool" and inv :: "'s \<Rightarrow> bool" and held :: "'s \<Rightarrow> OFMessage list"
  assumes inv_step: "st s l s' \<Longrightarrow> inv s \<Longrightarrow> inv s'"
    and refines: "st s l s' \<Longrightarrow> inv s \<Longrightarrow> channel_step (held s) l (held s')"
begin

lemma path_inv: "path st s tr s' \<Longrightarrow> inv s \<Longrightarrow> inv s'"
  by (induction rule: path.induct) (auto intro: inv_step)

lemma path_fifo: "path st s tr s' \<Longrightarrow> inv s \<Longrightarrow> held s @ enqueued tr = written tr @ held s'"
proof (induction rule: path.induct)
  case (path_snoc s tr s' l s'')
  then have "channel_step (held s') l (held s'')" using refines path_inv by blast
  then show ?case using path_snoc by (cases l) auto
qed simp

end

subsection \<open>Interleaving\<close>

inductive step :: "OFConnect \<Rightarrow> label \<Rightarrow> OFConnect \<Rightarrow> bool" where
  process_step: "crashed s = None \<Longrightarrow> ProcessQueue wr s = Some (l, s') \<Longrightarrow> step s l s'"
| send_step: "crashed s = None \<Longrightarrow> OFConnect_Send i msg s = Some (l, s') \<Longrightarrow> step s l s'"
| serve_step: "crashed s = None \<Longrightarrow> Serve accept s = Some (l, s') \<Longrightarrow> step s l s'"

abbreviation steps :: "OFConnect \<Rightarrow> label list \<Rightarrow> OFConnect \<Rightarrow> bool" where
  "steps \<equiv> path step"

abbreviation of_init :: OFConnect where
  "of_init \<equiv> \<lparr>queue = [], queueMu = None, conn = None, connMu = None, pq = PQ_top,
     sender = (\<lambda>_. S_idle), server = V_accept, wire = (\<lambda>_. []), crashed = None\<rparr>"

subsection \<open>Invariant\<close>

text \<open>The program points at which a goroutine holds a mutex.\<close>

fun pq_holds_conn :: "pq_pc \<Rightarrow> bool" where
  "pq_holds_conn PQ_conn = True"
| "pq_holds_conn PQ_conn_unlock = True"
| "pq_holds_conn (PQ_write m) = True"
| "pq_holds_conn _ = False"

fun pq_holds_queue :: "pq_pc \<Rightarrow> bool" where
  "pq_holds_queue PQ_queue = True"
| "pq_holds_queue PQ_head = True"
| "pq_holds_queue (PQ_write_lock m) = True"
| "pq_holds_queue (PQ_write m) = True"
| "pq_holds_queue PQ_failed = True"
| "pq_holds_queue PQ_pop = True"
| "pq_holds_queue _ = False"

fun serve_holds_conn :: "serve_pc \<Rightarrow> bool" where
  "serve_holds_conn (V_locked c) = True"
| "serve_holds_conn (V_unlock c) = True"
| "serve_holds_conn _ = False"

definition locks_inv :: "OFConnect \<Rightarrow> bool" where
  "locks_inv s \<longleftrightarrow>
     (connMu s = Some T_process \<longleftrightarrow> pq_holds_conn (pq s)) \<and>
     (connMu s = Some T_serve \<longleftrightarrow> serve_holds_conn (server s)) \<and>
     (queueMu s = Some T_process \<longleftrightarrow> pq_holds_queue (pq s)) \<and>
     (\<forall>i. queueMu s = Some (T_send i) \<longleftrightarrow> sender s i \<noteq> S_idle) \<and>
     queueMu s \<noteq> Some T_serve \<and> (\<forall>i. connMu s \<noteq> Some (T_send i))"

text \<open>
  What \<open>ProcessQueue\<close> knows at each point: which tests have been made, and that it only waits
  while there is nothing to do.
\<close>

fun pq_inv :: "pq_pc \<Rightarrow> nat option \<Rightarrow> OFMessage list \<Rightarrow> bool" where
  "pq_inv PQ_top c q = True"
| "pq_inv PQ_conn c q = True"
| "pq_inv PQ_conn_wait c q = (c = None)"
| "pq_inv PQ_conn_woken c q = (c \<noteq> None)"
| "pq_inv PQ_conn_unlock c q = (c \<noteq> None)"
| "pq_inv PQ_lock_queue c q = (c \<noteq> None)"
| "pq_inv PQ_queue c q = (c \<noteq> None)"
| "pq_inv PQ_queue_wait c q = (c \<noteq> None \<and> q = [])"
| "pq_inv PQ_queue_woken c q = (c \<noteq> None \<and> q \<noteq> [])"
| "pq_inv PQ_head c q = (c \<noteq> None \<and> q \<noteq> [])"
| "pq_inv (PQ_write_lock m) c q = (c \<noteq> None \<and> q \<noteq> [] \<and> m = hd q)"
| "pq_inv (PQ_write m) c q = (c \<noteq> None \<and> q \<noteq> [] \<and> m = hd q)"
| "pq_inv PQ_failed c q = (c \<noteq> None)"
| "pq_inv PQ_pop c q = (c \<noteq> None \<and> q \<noteq> [])"

definition conn_inv :: "OFConnect \<Rightarrow> bool" where
  "conn_inv s \<longleftrightarrow> locks_inv s \<and> pq_inv (pq s) (conn s) (queue s)"

lemma wake_simps [simp]:
  "pq_holds_conn (wake_queue p) = pq_holds_conn p" "pq_holds_queue (wake_queue p) = pq_holds_queue p"
  "pq_holds_conn (wake_conn p) = pq_holds_conn p" "pq_holds_queue (wake_conn p) = pq_holds_queue p"
  by (simp_all add: wake_queue_def wake_conn_def)

lemma pq_inv_enqueue: "pq_inv p c q \<Longrightarrow> pq_inv (wake_queue p) c (q @ [m])"
  by (cases p) (auto simp: wake_queue_def)

lemma pq_inv_connect: "pq_inv p c q \<Longrightarrow> pq_inv (wake_conn p) (Some d) q"
  by (cases p) (auto simp: wake_conn_def)

lemma sender_unique:
  assumes "locks_inv s" and "sender s i \<noteq> S_idle"
  shows "queueMu s = Some (T_send i) \<and> (\<forall>j. sender s j \<noteq> S_idle \<longrightarrow> j = i)"
proof -
  have "queueMu s = Some (T_send i)" using assms by (simp add: locks_inv_def)
  then show ?thesis using assms(1) by (metis locks_inv_def option.inject thread.inject)
qed

lemma send_inv:
  assumes "conn_inv s" and "OFConnect_Send i msg s = Some (l, s')"
  shows "conn_inv s'"
proof (cases "sender s i")
  case S_idle
  then show ?thesis
    using assms by (auto simp: OFConnect_Send.simps conn_inv_def locks_inv_def split: if_splits)
next
  case (S_locked m)
  then show ?thesis
    using assms by (auto simp: OFConnect_Send.simps conn_inv_def locks_inv_def pq_inv_enqueue split: if_splits)
next
  case S_unlock
  then have u: "queueMu s = Some (T_send i)" "\<forall>j. sender s j \<noteq> S_idle \<longrightarrow> j = i"
    using assms(1) sender_unique [of s i] by (simp_all add: conn_inv_def)
  show ?thesis
    using assms S_unlock u by (auto simp: OFConnect_Send.simps conn_inv_def locks_inv_def split: if_splits)
qed

lemma serve_inv:
  assumes "conn_inv s" and "Serve accept s = Some (l, s')"
  shows "conn_inv s'"
  using assms
  by (auto simp: Serve.simps SetConnection_def conn_inv_def locks_inv_def pq_inv_connect
    split: serve_pc.splits if_splits sum.splits)

text \<open>The step that writes, when a connection is set: a panic, a success or a failed write.\<close>

lemma process_write_cases:
  assumes "ProcessQueue wr s = Some (l, s')" and "pq s = PQ_write m" and "conn s = Some c"
  obtains (panics) p where "Serialize m = Panics p" "l = Tau" "s' = s\<lparr>crashed := Some p\<rparr>"
    | (wrote) bs where "Serialize m = Returns bs" "l = Wrote c m"
        "s' = s\<lparr>wire := (wire s)(c := wire s c @ bs), connMu := None, pq := PQ_pop\<rparr>"
    | (failed) bs n where "Serialize m = Returns bs" "l = WriteFailed c m"
        "s' = s\<lparr>wire := (wire s)(c := wire s c @ take n bs), connMu := None, pq := PQ_failed\<rparr>"
proof (cases "Serialize m")
  case (Returns bs)
  then show ?thesis
    using assms that by (cases wr) (auto simp: ProcessQueue.simps WriteConnection_def)
next
  case (Panics p)
  then show ?thesis using assms that by (auto simp: ProcessQueue.simps WriteConnection_def)
qed

lemma process_inv:
  assumes "conn_inv s" and "ProcessQueue wr s = Some (l, s')"
  shows "conn_inv s'"
proof (cases "pq s")
  case (PQ_write m)
  then obtain c where c: "conn s = Some c" using assms(1) by (auto simp: conn_inv_def)
  show ?thesis
    using assms(2) PQ_write c
  proof (cases rule: process_write_cases)
  qed (use assms(1) PQ_write in \<open>auto simp: conn_inv_def locks_inv_def\<close>)
qed (use assms in \<open>auto simp: ProcessQueue.simps conn_inv_def locks_inv_def
      split: if_splits list.splits\<close>)

lemma step_inv: "step s l s' \<Longrightarrow> conn_inv s \<Longrightarrow> conn_inv s'"
  by (induction rule: step.induct) (auto intro: send_inv serve_inv process_inv)

lemma conn_inv_init: "conn_inv of_init"
  by (simp add: conn_inv_def locks_inv_def)

subsection \<open>The queue is a channel\<close>

text \<open>The messages that are queued and not yet written.\<close>

definition pending :: "OFConnect \<Rightarrow> OFMessage list" where
  "pending s = (if pq s = PQ_pop then tl (queue s) else queue s)"

lemma pending_send:
  assumes "OFConnect_Send i msg s = Some (l, s')" and "conn_inv s"
  shows "channel_step (pending s) l (pending s')"
proof -
  have "pq s \<noteq> PQ_pop" if "sender s i \<noteq> S_idle"
  proof -
    have "queueMu s = Some (T_send i)" using assms(2) sender_unique [OF _ that] by (simp add: conn_inv_def)
    then have "\<not> pq_holds_queue (pq s)" using assms(2) by (simp add: conn_inv_def locks_inv_def)
    then show ?thesis by auto
  qed
  then show ?thesis
    using assms(1)
    by (auto simp: OFConnect_Send.simps pending_def wake_queue_def split: send_pc.splits if_splits)
qed

lemma pending_serve:
  assumes "Serve accept s = Some (l, s')"
  shows "channel_step (pending s) l (pending s')"
  using assms
  by (auto simp: Serve.simps SetConnection_def pending_def wake_conn_def split: serve_pc.splits if_splits sum.splits)

lemma pending_process:
  assumes "ProcessQueue wr s = Some (l, s')" and "conn_inv s"
  shows "channel_step (pending s) l (pending s')"
proof (cases "pq s")
  case (PQ_write m)
  then obtain c where c: "conn s = Some c" and m: "queue s = m # tl (queue s)"
    using assms(2) by (auto simp: conn_inv_def)
  show ?thesis
    using assms(1) PQ_write c
    by (cases rule: process_write_cases) (use m PQ_write in \<open>auto simp: pending_def\<close>)
qed (use assms(1) in \<open>auto simp: ProcessQueue.simps pending_def split: if_splits list.splits\<close>)

interpretation ofconn: channel step conn_inv pending
proof
  fix s l s'
  assume "step s l s'" and "conn_inv s"
  then show "conn_inv s'" and "channel_step (pending s) l (pending s')"
    by (induction rule: step.induct)
      (auto intro: send_inv serve_inv process_inv pending_send pending_serve pending_process)
qed

subsection \<open>Panics, and the bytes on a connection\<close>

lemma step_crash:
  assumes "step s l s'" and "conn_inv s" and "crashed s' = Some p"
  shows "\<exists>m\<in>set (pending s). Serialize m = Panics p"
  using assms
proof (induction rule: step.induct)
  case (process_step s wr l s')
  show ?case
  proof (cases "pq s")
    case (PQ_write m)
    then obtain c where c: "conn s = Some c" and q: "queue s \<noteq> []" "m = hd (queue s)"
      using process_step.prems(1) by (auto simp: conn_inv_def)
    show ?thesis
      using process_step.hyps(2) PQ_write c
      by (cases rule: process_write_cases)
        (use process_step.hyps(1) process_step.prems(2) PQ_write q in \<open>auto simp: pending_def\<close>)
  qed (use process_step in \<open>auto simp: ProcessQueue.simps conn_inv_def split: if_splits list.splits\<close>)
qed (auto simp: OFConnect_Send.simps Serve.simps SetConnection_def
    split: send_pc.splits serve_pc.splits sum.splits if_splits)

lemma NewOFConnect_init: "NewOFConnect listen = Inr s0 \<Longrightarrow> s0 = of_init"
  by (auto simp: NewOFConnect_def split: sum.splits)

lemma path_crash:
  assumes "steps of_init tr s" and "crashed s = Some p"
  shows "\<exists>m\<in>set (enqueued tr). Serialize m = Panics p"
  using assms
proof (cases rule: path.cases)
  case (path_snoc tr' s' l)
  then have inv: "conn_inv s'" using ofconn.path_inv conn_inv_init by blast
  then obtain m where "m \<in> set (pending s')" "Serialize m = Panics p"
    using step_crash [OF path_snoc(3)] assms(2) by blast
  moreover have "enqueued tr' = written tr' @ pending s'"
    using ofconn.path_fifo [OF path_snoc(2) conn_inv_init] by (simp add: pending_def)
  ultimately show ?thesis using path_snoc(1) by auto
qed simp

fun step_bytes :: "label \<Rightarrow> nat \<Rightarrow> bytes \<Rightarrow> bool" where
  "step_bytes (Wrote d m) c bs = (if d = c then Serialize m = Returns bs else bs = [])"
| "step_bytes (WriteFailed d m) c bs =
     (if d = c then \<exists>all n. Serialize m = Returns all \<and> bs = take n all else bs = [])"
| "step_bytes _ c bs = (bs = [])"

lemma step_wire:
  assumes "step s l s'" and "conn_inv s"
  shows "\<exists>bs. step_bytes l c bs \<and> wire s' c = wire s c @ bs"
  using assms
proof (induction rule: step.induct)
  case (process_step s wr l s')
  show ?case
  proof (cases "pq s")
    case (PQ_write m)
    then obtain d where d: "conn s = Some d" using process_step.prems by (auto simp: conn_inv_def)
    show ?thesis
      using process_step.hyps(2) PQ_write d by (cases rule: process_write_cases) auto
  qed (use process_step in \<open>auto simp: ProcessQueue.simps split: if_splits list.splits\<close>)
qed (auto simp: OFConnect_Send.simps Serve.simps SetConnection_def
    split: send_pc.splits serve_pc.splits sum.splits if_splits)

fun serialize_all :: "OFMessage list \<Rightarrow> bytes outcome" where
  "serialize_all [] = Returns []"
| "serialize_all (m # ms) =
     bind_outcome (SerializeMessage m) (\<lambda>bs. map_outcome ((@) bs) (serialize_all ms))"

lemma serialize_all_snoc:
  "serialize_all ms = Returns a \<Longrightarrow> Serialize m = Returns b \<Longrightarrow> serialize_all (ms @ [m]) = Returns (a @ b)"
proof (induction ms arbitrary: a)
  case (Cons x xs)
  then show ?case by (cases "Serialize x"; cases "serialize_all xs") (auto simp: SerializeMessage_def)
qed (simp add: SerializeMessage_def)

lemma path_wire:
  assumes "steps s0 tr s" and "conn_inv s0" and "wire s0 c = []" and "\<forall>m. WriteFailed c m \<notin> set tr"
  shows "serialize_all (written_to c tr) = Returns (wire s c)"
  using assms
proof (induction rule: path.induct)
  case (path_snoc s tr s' l s'')
  then have ih: "serialize_all (written_to c tr) = Returns (wire s' c)" by simp
  obtain bs where bs: "step_bytes l c bs" "wire s'' c = wire s' c @ bs"
    using step_wire [OF path_snoc.hyps(2) ofconn.path_inv [OF path_snoc.hyps(1) path_snoc.prems(1)]] by blast
  show ?case
    using ih bs path_snoc.prems(3) serialize_all_snoc [OF ih] by (cases l) (auto split: if_splits)
qed simp

subsection \<open>Progress\<close>

fun pq_rank :: "pq_pc \<Rightarrow> nat" where
  "pq_rank (PQ_write m) = 0"
| "pq_rank (PQ_write_lock m) = 1"
| "pq_rank PQ_head = 2"
| "pq_rank PQ_queue = 3"
| "pq_rank PQ_queue_woken = 3"
| "pq_rank PQ_lock_queue = 4"
| "pq_rank PQ_conn_unlock = 5"
| "pq_rank PQ_conn = 6"
| "pq_rank PQ_conn_woken = 6"
| "pq_rank PQ_top = 7"
| "pq_rank _ = 8"

fun send_rank :: "send_pc \<Rightarrow> nat" where
  "send_rank S_idle = 0"
| "send_rank (S_locked m) = 2"
| "send_rank S_unlock = 1"

fun serve_rank :: "serve_pc \<Rightarrow> nat" where
  "serve_rank (V_locked c) = 2"
| "serve_rank (V_unlock c) = 1"
| "serve_rank _ = 0"

definition holder_rank :: "OFConnect \<Rightarrow> nat" where
  "holder_rank s = (case queueMu s of Some (T_send i) \<Rightarrow> send_rank (sender s i) | _ \<Rightarrow> 0)"

definition rank :: "OFConnect \<Rightarrow> nat" where
  "rank s = 3 * pq_rank (pq s) + holder_rank s + serve_rank (server s)"

text \<open>What the goroutines need to reach the write of the first pending message.\<close>

definition ready :: "OFMessage \<Rightarrow> OFConnect \<Rightarrow> bool" where
  "ready m s \<longleftrightarrow> conn_inv s \<and> crashed s = None \<and> conn s \<noteq> None \<and> pending s \<noteq> [] \<and> hd (pending s) = m"

lemma pq_rank_wake [simp]: "pq_rank (wake_queue p) \<le> pq_rank p" "pq_rank (wake_conn p) \<le> pq_rank p"
  by (simp_all add: wake_queue_def wake_conn_def)

lemma holder_rank_update [simp]:
  "holder_rank (s\<lparr>conn := c\<rparr>) = holder_rank s" "holder_rank (s\<lparr>connMu := x\<rparr>) = holder_rank s"
  "holder_rank (s\<lparr>pq := p\<rparr>) = holder_rank s" "holder_rank (s\<lparr>server := v\<rparr>) = holder_rank s"
  "holder_rank (s\<lparr>queueMu := None\<rparr>) = 0" "holder_rank (s\<lparr>queueMu := Some T_process\<rparr>) = 0"
  by (simp_all add: holder_rank_def split: option.split thread.split)

text \<open>A mutex that \<open>ProcessQueue\<close> waits for is held by a goroutine that can take a step towards releasing it.\<close>

lemma serve_releases:
  assumes "ready m s" and "connMu s \<noteq> None" and "\<not> pq_holds_conn (pq s)"
  shows "\<exists>s'. step s Tau s' \<and> ready m s' \<and> rank s' < rank s"
proof -
  have "connMu s = Some T_serve"
    using assms by (cases "connMu s"; cases "the (connMu s)") (auto simp: ready_def conn_inv_def locks_inv_def)
  then have h: "serve_holds_conn (server s)" using assms(1) by (simp add: ready_def conn_inv_def locks_inv_def)
  have wake: "wake_conn (pq s) = pq s" using assms(1) by (auto simp: wake_conn_def ready_def conn_inv_def)
  obtain s' where s': "Serve (Inr 0) s = Some (Tau, s')"
    using h by (cases "server s") (auto simp: Serve.simps)
  have "step s Tau s'" using serve_step [OF _ s'] assms(1) by (simp add: ready_def)
  moreover have "conn_inv s'" using serve_inv [OF _ s'] assms(1) by (simp add: ready_def)
  then have "ready m s' \<and> rank s' < rank s"
    using s' h assms(1) wake
    by (cases "server s") (auto simp: Serve.simps SetConnection_def ready_def pending_def rank_def)
  ultimately show ?thesis by blast
qed

lemma send_releases:
  assumes "ready m s" and "queueMu s \<noteq> None" and "\<not> pq_holds_queue (pq s)"
  shows "\<exists>l s'. step s l s' \<and> written [l] = [] \<and> ready m s' \<and> rank s' < rank s"
proof -
  obtain i where i: "queueMu s = Some (T_send i)"
    using assms by (cases "queueMu s"; cases "the (queueMu s)") (auto simp: ready_def conn_inv_def locks_inv_def)
  then have h: "sender s i \<noteq> S_idle" using assms(1) unfolding ready_def conn_inv_def locks_inv_def by blast
  have p: "pq s \<noteq> PQ_pop" using assms(3) by auto
  have wake: "wake_queue (pq s) = pq s"
    using assms(1) by (auto simp: wake_queue_def ready_def conn_inv_def pending_def)
  obtain l s' where s': "OFConnect_Send i NilMsg s = Some (l, s')"
    using h by (cases "sender s i") (auto simp: OFConnect_Send.simps)
  have "step s l s'" using send_step [OF _ s'] assms(1) by (simp add: ready_def)
  moreover have "conn_inv s'" using send_inv [OF _ s'] assms(1) by (simp add: ready_def)
  then have "written [l] = [] \<and> ready m s' \<and> rank s' < rank s"
    using s' h i p wake assms(1)
    by (cases "sender s i") (auto simp: OFConnect_Send.simps ready_def pending_def rank_def holder_rank_def)
  ultimately show ?thesis by blast
qed

text \<open>When it waits for no mutex, \<open>ProcessQueue\<close> itself comes closer to the write.\<close>

lemma process_advances:
  assumes "ready m s" and "Serialize m = Returns bs"
    and "connMu s = None \<or> pq_holds_conn (pq s)" and "queueMu s = None \<or> pq_holds_queue (pq s)"
  shows "\<exists>l s'. step s l s' \<and> ((\<exists>c. l = Wrote c m) \<or> written [l] = [] \<and> ready m s' \<and> rank s' < rank s)"
proof -
  have inv: "conn_inv s" and cr: "crashed s = None" and q: "pending s \<noteq> []" "hd (pending s) = m"
    using assms(1) by (auto simp: ready_def)
  obtain c where c: "conn s = Some c" using assms(1) by (auto simp: ready_def)
  show ?thesis
  proof (cases "\<exists>x. pq s = PQ_write x")
    case True
    then have w: "pq s = PQ_write m" using inv q by (auto simp: conn_inv_def pending_def)
    then have "\<exists>s'. ProcessQueue WriteOk s = Some (Wrote c m, s')"
      using c assms(2) by (simp add: ProcessQueue.simps WriteConnection_def)
    then show ?thesis using process_step [OF cr] by blast
  next
    case False
    have pi: "pq_inv (pq s) (Some c) (queue s)" using inv c by (simp add: conn_inv_def)
    have ex: "\<exists>l s'. ProcessQueue WriteOk s = Some (l, s')"
      using False assms(3,4) pi c q(1)
      by (cases "pq s") (simp_all add: ProcessQueue.simps pending_def split: list.split)
    then obtain l s' where s': "ProcessQueue WriteOk s = Some (l, s')" by blast
    have inv': "conn_inv s'" using process_inv [OF inv s'] .
    have "written [l] = [] \<and> ready m s'"
      using s' False pi inv' c q cr
      by (cases "pq s") (auto simp: ProcessQueue.simps ready_def pending_def neq_Nil_conv split: if_splits)
    moreover have "rank s' < rank s"
      using s' False pi c q(1) assms(3,4)
      by (cases "pq s") (auto simp: ProcessQueue.simps pending_def rank_def neq_Nil_conv split: if_splits)
    ultimately have "written [l] = [] \<and> ready m s' \<and> rank s' < rank s" by blast
    then show ?thesis using process_step [OF cr s'] by blast
  qed
qed

lemma progress_step:
  assumes "ready m s" and "Serialize m = Returns bs"
  shows "\<exists>l s'. step s l s' \<and> ((\<exists>c. l = Wrote c m) \<or> written [l] = [] \<and> ready m s' \<and> rank s' < rank s)"
proof (cases "connMu s \<noteq> None \<and> \<not> pq_holds_conn (pq s) \<or> queueMu s \<noteq> None \<and> \<not> pq_holds_queue (pq s)")
  case True
  then show ?thesis using serve_releases [OF assms(1)] send_releases [OF assms(1)] by fastforce
next
  case False
  then show ?thesis by (intro process_advances [OF assms]) auto
qed

lemma progress_path:
  assumes "ready m s" and "Serialize m = Returns bs"
  shows "\<exists>tr s'. steps s tr s' \<and> written tr = [m] \<and> length tr \<le> rank s + 1"
  using assms(1)
proof (induction "rank s" arbitrary: s rule: less_induct)
  case less
  obtain l s' where st: "step s l s'"
    and l: "(\<exists>c. l = Wrote c m) \<or> written [l] = [] \<and> ready m s' \<and> rank s' < rank s"
    using progress_step [OF less.prems assms(2)] by blast
  from l show ?case
  proof
    assume "\<exists>c. l = Wrote c m"
    then show ?thesis using path_single [of step, OF st] by fastforce
  next
    assume r: "written [l] = [] \<and> ready m s' \<and> rank s' < rank s"
    then obtain tr s'' where tr: "steps s' tr s''" "written tr = [m]" "length tr \<le> rank s' + 1"
      using less.hyps by blast
    then have "steps s ([l] @ tr) s''" using path_append [OF tr(1) path_single [of step, OF st]] by simp
    moreover have "written ([l] @ tr) = [m]" using tr r unfolding written_append by simp
    ultimately show ?thesis using tr(3) r by (intro exI [where x = "[l] @ tr"] exI [where x = s'']) simp
  qed
qed

lemma rank_bound: "conn_inv s \<Longrightarrow> rank s \<le> 28"
proof -
  have "pq_rank (pq s) \<le> 8" by (cases "pq s") auto
  moreover have "send_rank x \<le> 2" for x by (cases x) auto
  then have "holder_rank s \<le> 2" by (auto simp: holder_rank_def split: option.splits thread.splits)
  moreover have "serve_rank (server s) \<le> 2" by (cases "server s") auto
  ultimately show ?thesis by (simp add: rank_def)
qed

subsection \<open>Reading a connection\<close>

text \<open>
  What the reads of a connection return, in order: a chunk of bytes (at least one, by the
  contract of \<open>Read\<close> on a TCP connection) or an error. After the last element every read
  fails with the end of file.
\<close>

datatype conn_read = Chunk bytes | ReadErr go_error

definition EOF :: go_error where
  "EOF = OpaqueError ''EOF''"

text \<open>
  \<open>bufio.NewReader(conn)\<close> followed by \<open>Peek(8)\<close>: reads into a buffer of 4096 bytes until it
  holds 8 bytes or a read fails. The result is the content of the buffer.
\<close>

fun Peek8 :: "bytes \<Rightarrow> conn_read list \<Rightarrow> bytes result \<times> conn_read list" where
  "Peek8 buffered [] = (if 8 \<le> length buffered then Inr buffered else Inl EOF, [])"
| "Peek8 buffered (ReadErr e # rs) =
     (if 8 \<le> length buffered then (Inr buffered, ReadErr e # rs) else (Inl e, rs))"
| "Peek8 buffered (Chunk c # rs) =
     (if 8 \<le> length buffered then (Inr buffered, Chunk c # rs)
      else (let room = 4096 - length buffered
            in if length c \<le> room then Peek8 (buffered @ c) rs
               else (Inr (buffered @ take room c), Chunk (drop room c) # rs)))"

text \<open>
  \<open>reader.Read(buf)\<close>: one copy out of the buffer when it is not empty, otherwise one read of
  the connection. It does not wait until \<open>buf\<close> is full.
\<close>

definition bufio_Read :: "bytes \<Rightarrow> bytes \<Rightarrow> conn_read list \<Rightarrow> bytes result \<times> conn_read list" where
  "bufio_Read buffered buf rs =
     (if buf = [] then (Inr buf, rs)
      else if buffered \<noteq> [] then (Inr (take (length buf) buffered @ drop (length buffered) buf), rs)
      else (case rs of
              [] \<Rightarrow> (Inl EOF, [])
            | ReadErr e # rs' \<Rightarrow> (Inl e, rs')
            | Chunk c # rs' \<Rightarrow>
                (Inr (take (length buf) c @ drop (length c) buf),
                 (let room = max 4096 (length buf)
                  in if room < length c then Chunk (drop room c) # rs' else rs'))))"

fun reads_size :: "conn_read list \<Rightarrow> nat" where
  "reads_size [] = 0"
| "reads_size (Chunk c # rs) = Suc (length c + reads_size rs)"
| "reads_size (ReadErr e # rs) = Suc (reads_size rs)"

lemma Peek8_size:
  "Peek8 buffered rs = (r, rs') \<Longrightarrow> length buffered \<le> 4096 \<Longrightarrow> reads_size rs' \<le> reads_size rs \<and>
     (rs \<noteq> [] \<longrightarrow> length buffered < 8 \<longrightarrow> reads_size rs' < reads_size rs)"
proof (induction buffered rs rule: Peek8.induct)
  case (3 buffered c rs)
  then show ?case by (fastforce simp: Let_def split: if_splits)
qed (auto split: if_splits)

lemma bufio_Read_size: "bufio_Read buffered buf rs = (r, rs') \<Longrightarrow> reads_size rs' \<le> reads_size rs"
  by (auto simp: bufio_Read_def Let_def split: if_splits list.splits conn_read.splits)

text \<open>How a reading goroutine ends: it returns, it panics, or it spins on a connection that is at its end.\<close>

datatype conn_end = Spinning | Returned | Panicked go_panic

text \<open>
  The messages \<open>handleConn\<close> hands to \<open>receiveCh\<close>, the transaction counter, and how it ends.
  Every turn of the loop makes a new buffered reader. \<open>timeout err\<close> says whether an error is a
  \<open>net.OpError\<close> for a timeout.
\<close>

function handleConn ::
    "other_parser \<Rightarrow> (go_error \<Rightarrow> bool) \<Rightarrow> conn_read list \<Rightarrow> uint32 \<Rightarrow> OFMessage list \<times> uint32 \<times> conn_end" where
  "handleConn po timeout rs xid =
     (if rs = [] then ([], xid, Spinning)
      else (case Peek8 [] rs of
        (Inl err, rs1) \<Rightarrow> handleConn po timeout rs1 xid
      | (Inr buffered, rs1) \<Rightarrow>
          (case MessageLength (take 8 buffered) of
             Panics p \<Rightarrow> ([], xid, Panicked p)
           | Returns msgLen \<Rightarrow>
               (case bufio_Read buffered (make_bytes msgLen) rs1 of
                  (Inl err, rs2) \<Rightarrow>
                    if \<not> timeout err then ([], xid, Returned) else handleConn po timeout rs2 xid
                | (Inr buf, rs2) \<Rightarrow>
                    (case ParseMessage po buf xid of
                       Panics p \<Rightarrow> ([], xid, Panicked p)
                     | Returns (msg, xid') \<Rightarrow>
                         (case handleConn po timeout rs2 xid' of (msgs, r) \<Rightarrow> (msg # msgs, r)))))))"
  by pat_completeness auto
termination
proof (relation "measure (\<lambda>(po, timeout, rs, xid). reads_size rs)", goal_cases)
  case (2 po timeout rs xid x y e)
  then show ?case using Peek8_size [of "[]" rs "Inl e" y] by simp
next
  case (3 po timeout rs xid x rs1 buffered msgLen x' rs2 err)
  then show ?case
    using Peek8_size [of "[]" rs "Inr buffered" rs1] bufio_Read_size [of buffered "make_bytes msgLen" rs1 "Inl err" rs2] by simp
next
  case (4 po timeout rs xid x rs1 buffered msgLen x' rs2 buf r msg xid')
  then show ?case
    using Peek8_size [of "[]" rs "Inr buffered" rs1] bufio_Read_size [of buffered "make_bytes msgLen" rs1 "Inr buf" rs2] by simp
qed simp

declare handleConn.simps [simp del]

lemma Peek8_enough: "8 \<le> length b \<Longrightarrow> Peek8 b rs = (Inr b, rs)"
  by (cases "(b, rs)" rule: Peek8.cases) simp_all

text \<open>One turn of the loop, on a chunk that holds at least a header.\<close>

lemma handleConn_chunk:
  assumes "8 \<le> length c" and "length c \<le> 4096" and "MessageLength (take 8 c) = Returns n"
  shows "handleConn po timeout (Chunk c # rs) xid =
    (case ParseMessage po (take n c @ drop (length c) (make_bytes n)) xid of
       Panics p \<Rightarrow> ([], xid, Panicked p)
     | Returns (msg, xid') \<Rightarrow> (case handleConn po timeout rs xid' of (msgs, r) \<Rightarrow> (msg # msgs, r)))"
proof -
  have "c \<noteq> []" using assms(1) by auto
  moreover have "bufio_Read c (make_bytes n) rs = (Inr (take n c @ drop (length c) (make_bytes n)), rs)"
    using calculation by (simp add: bufio_Read_def make_bytes_def)
  ultimately show ?thesis
    using assms by (subst handleConn.simps) (simp add: Peek8_enough)
qed

text \<open>A packet whose length field is its length, and the message \<open>ParseMessage\<close> reads from it.\<close>

definition framed :: "bytes \<Rightarrow> bool" where
  "framed pkt \<longleftrightarrow> 8 \<le> length pkt \<and> length pkt \<le> 4096 \<and> MessageLength (take 8 pkt) = Returns (length pkt)"

definition parses_as :: "other_parser \<Rightarrow> bytes \<Rightarrow> OFMessage \<Rightarrow> bool" where
  "parses_as po pkt m \<longleftrightarrow> (\<forall>xid. \<exists>xid'. ParseMessage po pkt xid = Returns (m, xid'))"

lemma handleConn_packet:
  assumes "framed pkt" and "parses_as po pkt m" and "length (pkt @ rest) \<le> 4096"
  shows "\<exists>xid'. handleConn po timeout (Chunk (pkt @ rest) # rs) xid =
    (case handleConn po timeout rs xid' of (msgs, r) \<Rightarrow> (m # msgs, r))"
proof -
  have l: "8 \<le> length (pkt @ rest)" "MessageLength (take 8 (pkt @ rest)) = Returns (length pkt)"
    using assms(1) by (auto simp: framed_def)
  obtain xid' where "ParseMessage po pkt xid = Returns (m, xid')" using assms(2) by (auto simp: parses_as_def)
  then show ?thesis
    using handleConn_chunk [OF l(1) assms(3) l(2), of po timeout rs xid] by (auto simp: make_bytes_def)
qed

subsection \<open>Examples\<close>

definition demo_hello :: OFMessage where
  "demo_hello = HelloMsg (fst (NewOfpHello 7))"

lemma demo_hello_bytes: "Serialize demo_hello = Returns [4, 0, 0, 8, 0, 0, 0, 7]"
  by (simp add: demo_hello_def) code_simp

lemma demo_listen: "NewOFConnect (\<lambda>_. Inr ()) = Inr of_init"
  by (simp add: NewOFConnect_def)

text \<open>A schedule: which goroutine moves next, with the answer of the network it gets.\<close>

datatype move = Process write_result | Push nat OFMessage | Accept "nat result"

fun do_move :: "move \<Rightarrow> OFConnect \<Rightarrow> (label \<times> OFConnect) option" where
  "do_move (Process wr) s = ProcessQueue wr s"
| "do_move (Push i msg) s = OFConnect_Send i msg s"
| "do_move (Accept r) s = Serve r s"

fun schedule :: "move list \<Rightarrow> OFConnect \<Rightarrow> (label list \<times> OFConnect) option" where
  "schedule [] s = Some ([], s)"
| "schedule (x # xs) s =
     (if crashed s \<noteq> None then None
      else (case do_move x s of
        None \<Rightarrow> None
      | Some (l, s') \<Rightarrow> map_option (map_prod ((#) l) id) (schedule xs s')))"

lemma schedule_steps: "schedule xs s = Some (tr, s') \<Longrightarrow> steps s tr s'"
proof (induction xs arbitrary: s tr)
  case (Cons x xs)
  then obtain l s1 tr1 where l: "crashed s = None" "do_move x s = Some (l, s1)"
    and tr1: "schedule xs s1 = Some (tr1, s')" and tr: "tr = [l] @ tr1"
    by (auto split: if_splits option.splits)
  have "step s l s1" using l by (cases x) (auto intro: step.intros)
  then show ?case using path_append [OF Cons.IH [OF tr1] path_single] tr by simp
qed (simp add: path_nil)

lemmas move_simps = OFConnect_Send.simps Serve.simps ProcessQueue.simps SetConnection_def wake_conn_def
  wake_queue_def WriteConnection_def

definition demo_connected :: OFConnect where
  "demo_connected = of_init\<lparr>queue := [demo_hello], conn := Some 3, server := V_spawn 3\<rparr>"

lemma demo_path: "steps of_init [Tau, Enqueued demo_hello, Tau, Tau, Tau, Tau, Tau] demo_connected"
  by (rule schedule_steps [where xs = "replicate 3 (Push 0 demo_hello) @ replicate 4 (Accept (Inr 3))"])
    (simp add: move_simps demo_connected_def eval_nat_numeral fun_upd_idem)

subsection \<open>Properties\<close>



text \<open>
  C15: the connection manager refines a first-in first-out channel. Over every schedule the
  messages handed to \<open>Send\<close> are, in order, those written to the switch followed by those still
  pending: nothing is lost, duplicated or reordered, also across reconnections and failed
  writes; and a connection on which no write failed carries exactly the serialised messages.
\<close>

theorem connection_fifo:
  assumes "NewOFConnect listen = Inr s0" and "steps s0 tr s"
  shows "enqueued tr = written tr @ pending s \<and>
    (\<forall>c. (\<forall>m. WriteFailed c m \<notin> set tr) \<longrightarrow> serialize_all (written_to c tr) = Returns (wire s c))"
proof -
  have s0: "s0 = of_init" using NewOFConnect_init [OF assms(1)] .
  show ?thesis
    using ofconn.path_fifo [OF assms(2)] path_wire [OF assms(2)] conn_inv_init s0
    by (simp add: pending_def)
qed

theorem connection_fifo_witness:
  "\<exists>tr s. steps of_init tr s \<and> enqueued tr = [demo_hello] \<and> written tr = [demo_hello] \<and> pending s = [] \<and>
     wire s 3 = [4, 0, 0, 8, 0, 0, 0, 7]"
proof -
  let ?xs = "replicate 3 (Push 0 demo_hello) @ replicate 4 (Accept (Inr 3)) @ replicate 8 (Process WriteOk)"
  obtain tr s where x: "schedule ?xs of_init = Some (tr, s)" and tr: "enqueued tr = [demo_hello]"
      "written tr = [demo_hello]" "written_to 3 tr = [demo_hello]" "\<forall>m. WriteFailed 3 m \<notin> set tr"
    by (simp add: move_simps eval_nat_numeral demo_hello_bytes fun_upd_idem)
  have st: "steps of_init tr s" using schedule_steps [OF x] .
  note fifo = connection_fifo [OF demo_listen st]
  have "serialize_all [demo_hello] = Returns (wire s 3)" using fifo tr(3,4) by metis
  then have "wire s 3 = [4, 0, 0, 8, 0, 0, 0, 7]" by (simp add: SerializeMessage_def demo_hello_bytes)
  then show ?thesis using fifo tr st by (intro exI [where x = tr] exI [where x = s]) simp
qed

text \<open>
  C16: progress. In every state the program can reach in which a connection is established and
  a message is pending, the goroutines can write that message within 29 steps of their own,
  when the network accepts the write: no interleaving deadlocks on the two mutexes.
\<close>

theorem connection_progress:
  assumes "NewOFConnect listen = Inr s0" and "steps s0 tr s" and "crashed s = None" and "conn s \<noteq> None"
    and "pending s = m # rest" and "Serialize m = Returns bs"
  shows "\<exists>tr' s'. steps s tr' s' \<and> written tr' = [m] \<and> length tr' \<le> 29"
proof -
  have inv: "conn_inv s"
    using ofconn.path_inv [OF assms(2)] conn_inv_init NewOFConnect_init [OF assms(1)] by simp
  then have "ready m s" using assms(3-5) by (simp add: ready_def)
  then show ?thesis using progress_path [OF _ assms(6)] rank_bound [OF inv] by fastforce
qed

theorem connection_progress_witness:
  "\<exists>tr' s'. steps demo_connected tr' s' \<and> written tr' = [demo_hello] \<and> length tr' \<le> 29"
  by (rule connection_progress [OF demo_listen demo_path _ _ _ demo_hello_bytes])
    (simp_all add: demo_connected_def pending_def)

text \<open>
  C18: receiving. When every read of a connection returns one whole packet of at most 4096
  bytes, \<open>handleConn\<close> hands over the messages of all packets in order.
\<close>

theorem handleConn_framed:
  assumes "list_all framed pkts" and "list_all2 (parses_as po) pkts msgs"
  shows "\<exists>xid'. handleConn po timeout (map Chunk pkts) xid = (msgs, xid', Spinning)"
  using assms(2,1)
proof (induction arbitrary: xid rule: list_all2_induct)
  case Nil
  then show ?case by (simp add: handleConn.simps)
next
  case (Cons pkt pkts m msgs)
  then have f: "framed pkt" by simp
  then obtain xid1 where "handleConn po timeout (Chunk pkt # map Chunk pkts) xid =
      (case handleConn po timeout (map Chunk pkts) xid1 of (msgs, r) \<Rightarrow> (m # msgs, r))"
    using handleConn_packet [of pkt po m "[]" timeout "map Chunk pkts" xid] Cons.hyps(1) by (auto simp: framed_def)
  moreover obtain xid' where "handleConn po timeout (map Chunk pkts) xid1 = (msgs, xid', Spinning)"
    using Cons.IH [of xid1] Cons.prems by auto
  ultimately show ?case by simp
qed

lemma demo_packet: "framed [4, 0, 0, 8, 0, 0, 0, 7]" "parses_as po [4, 0, 0, 8, 0, 0, 0, 7] demo_hello"
proof -
  show "framed [4, 0, 0, 8, 0, 0, 0, 7]" by code_simp
  have "OfpHello_Parse [4, 0, 0, 8, 0, 0, 0, 7] = Returns (fst (NewOfpHello 7))" by code_simp
  then show "parses_as po [4, 0, 0, 8, 0, 0, 0, 7] demo_hello"
    by (simp add: parses_as_def ParseMessage_def Parse_def demo_hello_def)
qed

theorem handleConn_framed_witness:
  "\<exists>xid'. handleConn (\<lambda>t p. Returns NilMsg) (\<lambda>e. False)
     [Chunk [4, 0, 0, 8, 0, 0, 0, 7], Chunk [4, 0, 0, 8, 0, 0, 0, 7]] 0 = ([demo_hello, demo_hello], xid', Spinning)"
  using handleConn_framed [of "[[4, 0, 0, 8, 0, 0, 0, 7], [4, 0, 0, 8, 0, 0, 0, 7]]" _ "[demo_hello, demo_hello]"] demo_packet
  by simp

text \<open>
  C19: what the fresh reader of every turn costs. When a read returns a packet together with
  more bytes, all further bytes are dropped, whole messages included; and a packet that claims
  a length of zero or one crashes the program.
\<close>

theorem handleConn_misframed:
  assumes "length (pkt @ rest) \<le> 4096"
  shows "(framed pkt \<and> parses_as po pkt m \<longrightarrow>
      (\<exists>xid'. handleConn po timeout (Chunk (pkt @ rest) # rs) xid = handleConn po timeout (Chunk pkt # rs) xid \<and>
        handleConn po timeout (Chunk (pkt @ rest) # rs) xid =
          (case handleConn po timeout rs xid' of (msgs, r) \<Rightarrow> (m # msgs, r)))) \<and>
    (8 \<le> length pkt \<and> MessageLength (take 8 pkt) = Returns n \<and> n < 2 \<longrightarrow>
      handleConn po timeout (Chunk pkt # rs) xid = ([], xid, Panicked IndexOutOfRange))"
proof -
  have "handleConn po timeout (Chunk (pkt @ rest) # rs) xid = handleConn po timeout (Chunk pkt # rs) xid"
    if "framed pkt"
    using that assms handleConn_chunk [of pkt "length pkt"] handleConn_chunk [of "pkt @ rest" "length pkt"]
    by (auto simp: framed_def make_bytes_def)
  moreover have "ParseMessage po b xid = Panics IndexOutOfRange" if "length b < 2" for b
    using that by (simp add: ParseMessage_def Parse_def get_at_def)
  ultimately show ?thesis
    using assms handleConn_packet [of pkt po m rest timeout rs xid] handleConn_chunk [of pkt n po timeout rs xid]
    by (auto simp: make_bytes_def)
qed

theorem handleConn_misframed_witness:
  "handleConn (\<lambda>t p. Returns NilMsg) (\<lambda>e. False) [Chunk ([4, 0, 0, 8, 0, 0, 0, 7] @ [4, 0, 0, 8, 0, 0, 0, 7])] 0 =
     handleConn (\<lambda>t p. Returns NilMsg) (\<lambda>e. False) [Chunk [4, 0, 0, 8, 0, 0, 0, 7]] 0"
  using handleConn_misframed [of "[4, 0, 0, 8, 0, 0, 0, 7]" "[4, 0, 0, 8, 0, 0, 0, 7]" "\<lambda>t p. Returns NilMsg"
    demo_hello "\<lambda>e. False" "[]" 0] demo_packet
  by auto

end
