(* ===== verification/Of_Delivery.thy ===== *)
theory Of_Delivery
  imports Of_Node Of_Connection
begin

text \<open>
  The controller, the connection manager and the switch together. The controller hands its messages to
  \<open>Send\<close>, from several goroutines; the connection manager writes them to the TCP
  connection; the switch cuts the bytes it reads into packets by their length fields and installs the
  flow modifications among them.
\<close>

function packets_of :: "bytes \<Rightarrow> bytes list" where
  "packets_of bs =
     (let n = unat (of_be16 (drop 2 bs)) in
      if length bs < 8 \<or> n < 8 \<or> length bs < n then []
      else take n bs # packets_of (drop n bs))"
  by pat_completeness auto
termination
  by (relation "measure length") auto

declare packets_of.simps [simp del]

definition switch_flows :: "bytes \<Rightarrow> flow_entry list" where
  "switch_flows bs = List.map_filter dec_flow_mod (packets_of bs)"

lemma of_be16_prefix: "2 \<le> length p \<Longrightarrow> of_be16 (p @ r) = of_be16 p"
  by (cases p; cases "tl p") auto

lemma packets_of_cons:
  assumes "8 \<le> length p" and "unat (of_be16 (drop 2 p)) = length p"
  shows "packets_of (p @ r) = p # packets_of r"
proof -
  have "of_be16 (drop 2 (p @ r)) = of_be16 (drop 2 p)"
    using assms(1) of_be16_prefix [of "drop 2 p" r] by simp
  then show ?thesis using assms by (subst packets_of.simps) (simp add: Let_def)
qed

lemma serialize_all_flows:
  assumes "list_all msg_valid ms" and "serialize_all ms = Returns bs"
  shows "switch_flows bs = entries_of ms"
  using assms
proof (induction ms arbitrary: bs)
  case Nil
  then show ?case by (simp add: switch_flows_def entries_of_def packets_of.simps List.map_filter_simps)
next
  case (Cons m ms)
  obtain p where p: "Serialize m = Returns p" "8 \<le> length p" "unat (of_be16 (drop 2 p)) = length p"
    using msg_valid_bytes [of m] Cons.prems(1) by auto
  then obtain r where r: "serialize_all ms = Returns r" "bs = p @ r"
    using Cons.prems(2) by (cases "serialize_all ms") (auto simp: SerializeMessage_def)
  then have "switch_flows bs = List.map_filter dec_flow_mod [p] @ switch_flows r"
    by (simp add: switch_flows_def packets_of_cons [OF p(2,3)] List.map_filter_simps split: option.split)
  also have "\<dots> = entries_of (m # ms)"
    using Cons p r(1) by (simp add: entries_of_def entry_of_def List.map_filter_simps split: option.split)
  finally show ?case .
qed

lemma written_to_all: "\<forall>d m. Wrote d m \<in> set tr \<longrightarrow> d = k \<Longrightarrow> written_to k tr = written tr"
  by (induction tr rule: written.induct) auto

lemma entries_of_set: "set (entries_of ms) = {e. \<exists>m\<in>set ms. entry_of m = Some e}"
  by (induction ms) (auto simp: entries_of_def List.map_filter_simps split: option.splits)

subsection \<open>A path for the example\<close>

text \<open>A connected manager at rest, with what was written so far.\<close>

definition at_rest :: "(nat \<Rightarrow> bytes) \<Rightarrow> OFConnect" where
  "at_rest f = of_init\<lparr>conn := Some 3, wire := f\<rparr>"

lemma connect_path: "\<exists>tr. steps of_init tr (at_rest (\<lambda>_. [])) \<and> enqueued tr = [] \<and>
    (\<forall>d m. Wrote d m \<notin> set tr \<and> WriteFailed d m \<notin> set tr)"
proof -
  have "schedule (replicate 5 (Accept (Inr 3))) of_init = Some ([Tau, Tau, Tau, Tau, Spawned 3], at_rest (\<lambda>_. []))"
    by (simp add: move_simps at_rest_def eval_nat_numeral)
  from schedule_steps [OF this] show ?thesis
    by (intro exI [of _ "[Tau, Tau, Tau, Tau, Spawned 3]"]) simp
qed

lemma deliver_one:
  assumes "Serialize m = Returns bs"
  shows "steps (at_rest f) ([Tau, Enqueued m] @ replicate 8 Tau @ [Wrote 3 m, Tau]) (at_rest (f(3 := f 3 @ bs)))"
  by (rule schedule_steps [where xs = "replicate 3 (Push 0 m) @ replicate 9 (Process WriteOk)"])
    (use assms in \<open>simp add: move_simps at_rest_def eval_nat_numeral fun_upd_idem\<close>)

lemma deliver_all:
  assumes "\<forall>m\<in>set ms. \<exists>bs. Serialize m = Returns bs"
  shows "\<exists>tr g. steps (at_rest f) tr (at_rest g) \<and> enqueued tr = ms \<and>
    (\<forall>d m. Wrote d m \<in> set tr \<longrightarrow> d = 3) \<and> (\<forall>d m. WriteFailed d m \<notin> set tr)"
  using assms
proof (induction ms arbitrary: f)
  case Nil
  show ?case by (rule exI [of _ "[]"]) (auto intro: path_nil)
next
  case (Cons m ms)
  then obtain bs where bs: "Serialize m = Returns bs" by auto
  have all: "\<forall>m\<in>set ms. \<exists>bs. Serialize m = Returns bs" using Cons.prems by simp
  let ?tr = "[Tau, Enqueued m] @ replicate 8 Tau @ [Wrote 3 m, Tau]"
  obtain tr g where tr: "steps (at_rest (f(3 := f 3 @ bs))) tr (at_rest g)" "enqueued tr = ms"
      "\<forall>d m. Wrote d m \<in> set tr \<longrightarrow> d = 3" "\<forall>d m. WriteFailed d m \<notin> set tr"
    using Cons.IH [OF all, of "f(3 := f 3 @ bs)"] by blast
  have "enqueued (replicate 8 Tau) = []" by (simp add: eval_nat_numeral)
  then show ?case using path_append [OF tr(1) deliver_one [OF bs]] tr(2-4)
    by (intro exI [of _ "?tr @ tr"] exI [of _ g]) auto
qed

subsection \<open>Properties\<close>



end
