(* ===== verification/Vxlan_Ports.thy ===== *)
theory Vxlan_Ports
  imports Go_Exec Kube_Api Go_Strings
begin

text \<open>
  The remaining event handlers of a node. \<open>controllers/ports/vxlan.go\<close> keeps the VXLAN port on
  the bridge; \<open>controllers/endpoints.go\<close> and \<open>controllers/service.go\<close> only log the events they
  receive, so their model is the list of the names they log.
\<close>

subsection \<open>The VXLAN port\<close>

record vxlanPorts =
  vx_bridgeName :: string
  vx_localOverlayIP :: string
  vx_localTunnelID :: string

definition NewVxlanPorts :: "string \<Rightarrow> VSwitchConfig \<Rightarrow> vxlanPorts" where
  "NewVxlanPorts bridgeName vswitch =
     \<lparr>vx_bridgeName = bridgeName, vx_localOverlayIP = OverlayIP (Spec vswitch),
      vx_localTunnelID = strconv_Itoa (sint (tunnelID vswitch))\<rparr>"

definition vxlan_command :: "vxlanPorts \<Rightarrow> string list" where
  "vxlan_command v =
     [''--may-exist'', ''add-port'', vx_bridgeName v, ''vxlan0'',
      ''--'', ''set'', ''Interface'', ''vxlan0'', ''type=vxlan'',
      ''option:remote_ip=flow'', ''option:key=flow'']"

definition addVxLANPort :: "'e Exec \<Rightarrow> vxlanPorts \<Rightarrow> VSwitchConfig \<Rightarrow> ('e, unit) go" where
  "addVxLANPort ex v vswitchConfig =
     go_bind (go_wrap (Wrapf ''failed to setup vxlan port %q, err: %v, out: %q'' [''vxlan0''])
                (CombinedOutput ex ''ovs-vsctl'' (vxlan_command v)))
     (\<lambda>out. go_return ())"

definition log_and_return :: "('e, unit) go \<Rightarrow> ('e, unit) state" where
  "log_and_return m = State_Monad.bind m (\<lambda>_. State_Monad.return ())"

definition vxlan_OnAddVSwitch :: "'e Exec \<Rightarrow> vxlanPorts \<Rightarrow> runtime_object \<Rightarrow> ('e, unit) state" where
  "vxlan_OnAddVSwitch ex v obj =
     (case obj of VSwitchConfigObj vswitch \<Rightarrow> log_and_return (addVxLANPort ex v vswitch) | _ \<Rightarrow> State_Monad.return ())"

definition vxlan_OnUpdateVSwitch ::
    "'e Exec \<Rightarrow> vxlanPorts \<Rightarrow> runtime_object \<Rightarrow> runtime_object \<Rightarrow> ('e, unit) state" where
  "vxlan_OnUpdateVSwitch ex v oldObj newObj =
     (case newObj of VSwitchConfigObj vswitch \<Rightarrow> log_and_return (addVxLANPort ex v vswitch) | _ \<Rightarrow> State_Monad.return ())"

definition vxlan_OnDeleteVSwitch :: "'e Exec \<Rightarrow> vxlanPorts \<Rightarrow> runtime_object \<Rightarrow> ('e, unit) state" where
  "vxlan_OnDeleteVSwitch ex v obj = State_Monad.return ()"

fun vxlan_handle :: "'e Exec \<Rightarrow> vxlanPorts \<Rightarrow> informer_event \<Rightarrow> ('e, unit) state" where
  "vxlan_handle ex v (AddEvent obj) = vxlan_OnAddVSwitch ex v obj"
| "vxlan_handle ex v (UpdateEvent old new) = vxlan_OnUpdateVSwitch ex v old new"
| "vxlan_handle ex v (DeleteEvent obj) = vxlan_OnDeleteVSwitch ex v obj"

fun vxlan_run :: "'e Exec \<Rightarrow> vxlanPorts \<Rightarrow> informer_event list \<Rightarrow> 'e \<Rightarrow> 'e" where
  "vxlan_run ex v [] e = e"
| "vxlan_run ex v (ev # evs) e = vxlan_run ex v evs (snd (run_state (vxlan_handle ex v ev) e))"

fun shows_vswitch :: "informer_event \<Rightarrow> bool" where
  "shows_vswitch (AddEvent (VSwitchConfigObj v)) = True"
| "shows_vswitch (UpdateEvent old (VSwitchConfigObj v)) = True"
| "shows_vswitch _ = False"

subsection \<open>Endpoints and services\<close>

text \<open>\<open>conn\<close> is nil or not; nothing else of it is used.\<close>

record endpointsHandler =
  ep_conn :: "nat option"

record serviceHandler =
  svc_conn :: "nat option"

definition endpoints_OnAdd :: "endpointsHandler \<Rightarrow> runtime_object \<Rightarrow> string list" where
  "endpoints_OnAdd e obj =
     (if ep_conn e = None then [] else case obj of EndpointsObj ep \<Rightarrow> [''OnAdd '' @ Name ep] | _ \<Rightarrow> [])"

definition endpoints_OnUpdate :: "endpointsHandler \<Rightarrow> runtime_object \<Rightarrow> runtime_object \<Rightarrow> string list" where
  "endpoints_OnUpdate e oldObj newObj =
     (if ep_conn e = None then [] else case newObj of EndpointsObj ep \<Rightarrow> [''OnUpdate '' @ Name ep] | _ \<Rightarrow> [])"

definition endpoints_OnDelete :: "endpointsHandler \<Rightarrow> runtime_object \<Rightarrow> string list" where
  "endpoints_OnDelete e obj =
     (if ep_conn e = None then [] else case obj of EndpointsObj ep \<Rightarrow> [''OnDelete '' @ Name ep] | _ \<Rightarrow> [])"

definition service_OnAdd :: "serviceHandler \<Rightarrow> runtime_object \<Rightarrow> string list" where
  "service_OnAdd s obj =
     (if svc_conn s = None then [] else case obj of ServiceObj svc \<Rightarrow> [''OnAdd '' @ Name svc] | _ \<Rightarrow> [])"

definition service_OnUpdate :: "serviceHandler \<Rightarrow> runtime_object \<Rightarrow> runtime_object \<Rightarrow> string list" where
  "service_OnUpdate s oldObj newObj =
     (if svc_conn s = None then [] else case newObj of ServiceObj svc \<Rightarrow> [''OnUpdate '' @ Name svc] | _ \<Rightarrow> [])"

definition service_OnDelete :: "serviceHandler \<Rightarrow> runtime_object \<Rightarrow> string list" where
  "service_OnDelete s obj =
     (if svc_conn s = None then [] else case obj of ServiceObj svc \<Rightarrow> [''OnDelete '' @ Name svc] | _ \<Rightarrow> [])"

subsection \<open>Properties\<close>

lemma run_log_and_return [run_simps]: "run_state (log_and_return m) e = ((), snd (run_state m e))"
  by (simp add: log_and_return_def run_state_bind split: prod.split)

lemma vxlan_handle_shows:
  "snd (run_state (vxlan_handle ex v ev) e) =
     (if shows_vswitch ev then snd (run_state (CombinedOutput ex ''ovs-vsctl'' (vxlan_command v)) e) else e)"
  by (cases ev rule: shows_vswitch.cases)
    (auto simp: vxlan_OnAddVSwitch_def vxlan_OnUpdateVSwitch_def vxlan_OnDeleteVSwitch_def addVxLANPort_def run_simps
      split: prod.split sum.split runtime_object.split)

text \<open>
  The VXLAN port is set up at the first virtual switch and then left alone. When the
  command is idempotent on the host (\<open>--may-exist\<close>), any sequence of events leaves the host as one
  run of it does if some event shows a virtual switch, and untouched otherwise; in particular no
  event of another type, and no deletion, removes the port.
\<close>

theorem vxlan_port_idempotent:
  assumes "\<And>e. cmd (cmd e) = cmd e" and "cmd = (\<lambda>e. snd (run_state (CombinedOutput ex ''ovs-vsctl'' (vxlan_command v)) e))"
  shows "vxlan_run ex v evs e = (if list_ex shows_vswitch evs then cmd e else e)"
proof (induction evs arbitrary: e)
  case (Cons ev evs)
  then show ?case using assms(1) by (simp add: vxlan_handle_shows assms(2) [symmetric] fun_cong [OF assms(2), symmetric])
qed simp

text \<open>A host that remembers whether a command was run.\<close>

definition set_host :: "bool Exec" where
  "set_host = \<lparr>CombinedOutput = (\<lambda>c args. State (\<lambda>_. (Inr [], True))), Output = (\<lambda>c args. State (\<lambda>h. (Inr [], h)))\<rparr>"

abbreviation sample_vswitch :: VSwitchConfig where
  "sample_vswitch \<equiv> \<lparr>TypeMetaOf = \<lparr>Kind = [], APIVersion = []\<rparr>,
     Meta = \<lparr>Name = ''node1'', Namespace = [], ResourceVersion = [], Labels = []\<rparr>,
     Spec = \<lparr>PodCIDR = [], ClusterCIDR = [], ServiceCIDR = [], OverlayIP = ''192.168.0.1'', OverlayType = [], OverlayTunnelID = 100\<rparr>\<rparr>"

theorem vxlan_port_idempotent_witness:
  "vxlan_run set_host (NewVxlanPorts ''kube-ovs0'' sample_vswitch)
     [DeleteEvent (OtherObj []), AddEvent (VSwitchConfigObj sample_vswitch), UpdateEvent (OtherObj []) (VSwitchConfigObj sample_vswitch)] False = True"
proof -
  have "vxlan_run set_host v evs False = (if list_ex shows_vswitch evs then True else False)" for v evs
    by (rule vxlan_port_idempotent) (simp_all add: set_host_def)
  then show ?thesis by (simp del: vxlan_run.simps)
qed

end
