(* ===== verification/Node_Agent.thy ===== *)
theory Node_Agent
  imports Vxlan_Ports Of_Connection Of_Entries
begin

text \<open>
  The node agent, \<open>cmd/kube-ovs/main.go\<close>: the start-up sequence that prepares the host and
  connects the OpenFlow controller, the connection manager and the VXLAN handler.

  Everything outside the program is a field of \<open>AgentEnv\<close>, an operation on a host state \<open>'e\<close>:
  commands, files, netlink, iptables, the API server, the clock. \<open>agent_main\<close> runs on the world
  of the OpenFlow controller, whose \<open>host\<close> is that state. An error of \<open>agent_main\<close> is an
  \<open>os.Exit(1)\<close>; a return is the agent with its informer handlers registered, about to start its
  goroutines.
\<close>

abbreviation (input) cniConfigPath :: string where "cniConfigPath \<equiv> ''/etc/cni/net.d/10-kube-ovs.json''"
abbreviation (input) agent_bridgeName :: string where "agent_bridgeName \<equiv> ''kube-ovs0''"
abbreviation (input) agent_hostLocalPort :: string where "agent_hostLocalPort \<equiv> ''host-local''"
abbreviation (input) defaultControllerTarget :: string where "defaultControllerTarget \<equiv> ''tcp:127.0.0.1:6653''"

record NetlinkAddr =
  AddrIPNet :: IPNet
  AddrLabel :: string

record 'e AgentEnv = "'e Exec" +
  InClusterConfig :: "('e, unit) go"
  NewKubernetes :: "('e, unit) go"
  NewKovs :: "('e, unit) go"
  Getenv :: "string \<Rightarrow> ('e, string) state"
  NodesGet :: "string \<Rightarrow> ('e, Node) go"
  VSwitchGet :: "string \<Rightarrow> ('e, VSwitchConfig) go"
  Now :: "('e, int) state"
  Sleep :: "int \<Rightarrow> ('e, unit) state"
  WriteFile :: "string \<Rightarrow> string \<Rightarrow> nat \<Rightarrow> ('e, unit) go"
  LinkByName :: "string \<Rightarrow> ('e, string) go"
  LinkSetUp :: "string \<Rightarrow> ('e, unit) go"
  AddrReplace :: "string \<Rightarrow> NetlinkAddr \<Rightarrow> ('e, unit) go"
  InterfaceByName :: "string \<Rightarrow> ('e, HardwareAddr) go"
  NewIptables :: "('e, unit) go"
  AppendUnique :: "string \<Rightarrow> string \<Rightarrow> string list \<Rightarrow> ('e, unit) go"
  Listen :: "string \<Rightarrow> ('e, unit) go"

subsection \<open>Waiting for the configuration\<close>

text \<open>
  Times are nanoseconds. The loop ends only when the clock moves, so it takes fuel: \<open>None\<close> is a
  loop still running after that many polls.
\<close>

abbreviation (input) waitDuration :: int where "waitDuration \<equiv> 60000000000"
abbreviation (input) pollInterval :: int where "pollInterval \<equiv> 5000000000"

fun wait_loop :: "('e, 'z) AgentEnv_scheme \<Rightarrow> string \<Rightarrow> int \<Rightarrow> nat \<Rightarrow> 'e \<Rightarrow> VSwitchConfig result option \<times> 'e" where
  "wait_loop env nodeName start 0 e = (None, e)"
| "wait_loop env nodeName start (Suc n) e =
     (case run_state (Now env) e of
        (now, e1) \<Rightarrow>
          if now - start < waitDuration then
            (case run_state (VSwitchGet env nodeName) e1 of
               (Inr vswitchConfig, e2) \<Rightarrow> (Some (Inr vswitchConfig), e2)
             | (Inl err, e2) \<Rightarrow>
                 if \<not> IsNotFound err then (Some (Inl err), e2)
                 else wait_loop env nodeName start n (snd (run_state (Sleep env pollInterval) e2)))
          else (Some (Inl (Errorf ''vswitch config with name %q not found'' [nodeName])), e1))"

definition waitForVSwitchConfig ::
    "nat \<Rightarrow> ('e, 'z) AgentEnv_scheme \<Rightarrow> string \<Rightarrow> 'e \<Rightarrow> VSwitchConfig result option \<times> 'e" where
  "waitForVSwitchConfig fuel env nodeName e =
     (case run_state (Now env) e of (start, e1) \<Rightarrow> wait_loop env nodeName start fuel e1)"

subsection \<open>Preparing the host\<close>

definition netlinkAddrForCIDR :: "string \<Rightarrow> string \<Rightarrow> NetlinkAddr result" where
  "netlinkAddrForCIDR clusterCIDR podCIDR =
     (case ParseCIDR podCIDR of
        Inl err \<Rightarrow> Inl err
      | Inr (_, podIPNet) \<Rightarrow>
          (let gw = NextIP (IP_Mask (NetIP podIPNet) (NetMask podIPNet)) in
           case ParseCIDR clusterCIDR of
             Inl err \<Rightarrow> Inl err
           | Inr (_, clusterIPNet) \<Rightarrow>
               Inr \<lparr>AddrIPNet = \<lparr>NetIP = gw, NetMask = NetMask clusterIPNet\<rparr>, AddrLabel = []\<rparr>))"

text \<open>The configuration file of the CNI plugin; quotes, braces, tabs and newlines by their codes.\<close>

definition quoted :: "string \<Rightarrow> string" where
  "quoted s = CHR 0x22 # s @ [CHR 0x22]"

abbreviation nl_tab :: string where
  "nl_tab \<equiv> [CHR 0x0A, CHR 0x09]"

definition cni_conf :: "string \<Rightarrow> string" where
  "cni_conf podCIDR =
     [CHR 0x7B] @
     nl_tab @ quoted ''name'' @ '': '' @ quoted ''kube-ovs-cni'' @ '','' @
     nl_tab @ quoted ''type'' @ '': '' @ quoted ''kube-ovs-cni'' @ '','' @
     nl_tab @ quoted ''bridge'' @ '': '' @ quoted ''kube-ovs0'' @ '','' @
     nl_tab @ quoted ''isGateway'' @ '': true,'' @
     nl_tab @ quoted ''isDefaultGateway'' @ '': true,'' @
     nl_tab @ quoted ''ipam'' @ '': '' @ [CHR 0x7B] @
     nl_tab @ [CHR 0x09] @ quoted ''type'' @ '': '' @ quoted ''host-local'' @ '','' @
     nl_tab @ [CHR 0x09] @ quoted ''subnet'' @ '': '' @ quoted podCIDR @
     nl_tab @ [CHR 0x7D] @ [CHR 0x0A, CHR 0x7D]"

definition installCNIConf :: "('e, 'z) AgentEnv_scheme \<Rightarrow> string \<Rightarrow> ('e, unit) go" where
  "installCNIConf env podCIDR = WriteFile env cniConfigPath (cni_conf podCIDR) 420"

definition setupBridgeIfNotExists :: "('e, 'z) AgentEnv_scheme \<Rightarrow> ('e, unit) go" where
  "setupBridgeIfNotExists env =
     go_bind (go_wrap (Wrapf ''failed to setup OVS bridge %q, err: %v, output: %q'' [agent_bridgeName])
                (CombinedOutput env ''ovs-vsctl'' [''--may-exist'', ''add-br'', agent_bridgeName])) (\<lambda>out.
     go_bind (go_wrap (Wrapf ''could not lookup %q: %v'' [agent_bridgeName])
                (LinkByName env agent_bridgeName)) (\<lambda>br.
     go_wrap (Wrapf ''failed to bring bridge %q up: %v'' [agent_bridgeName]) (LinkSetUp env br)))"

definition setupHostLocalInternalPort :: "('e, 'z) AgentEnv_scheme \<Rightarrow> ('e, unit) go" where
  "setupHostLocalInternalPort env =
     go_bind (go_wrap (Wrapf ''failed to setup host-local port, err: %v, output: %q'' [])
                (CombinedOutput env ''ovs-vsctl''
                  [''--may-exist'', ''add-port'', agent_bridgeName, agent_hostLocalPort,
                   ''--'', ''set'', ''Interface'', agent_hostLocalPort, ''type=internal''])) (\<lambda>out.
     go_bind (go_wrap (Wrapf ''could not lookup %q: %v'' [agent_hostLocalPort])
                (LinkByName env agent_hostLocalPort)) (\<lambda>hostLocal.
     go_wrap (Wrapf ''failed to bring bridge %q up: %v'' [agent_hostLocalPort]) (LinkSetUp env hostLocal)))"

definition setSecureFailMode :: "('e, 'z) AgentEnv_scheme \<Rightarrow> ('e, unit) go" where
  "setSecureFailMode env =
     go_bind (go_wrap (Wrapf ''failed to set fail mode for bridge %q to 'secure', err: %v, out: %q'' [agent_bridgeName])
                (CombinedOutput env ''ovs-vsctl'' [''set-fail-mode'', agent_bridgeName, ''secure'']))
     (\<lambda>out. go_return ())"

definition setControllerTarget :: "('e, 'z) AgentEnv_scheme \<Rightarrow> ('e, unit) go" where
  "setControllerTarget env =
     go_bind (go_wrap (Wrapf ''failed to set controller target for bridge %q, err: %v, out: %q'' [agent_bridgeName])
                (CombinedOutput env ''ovs-vsctl'' [''set-controller'', agent_bridgeName, defaultControllerTarget]))
     (\<lambda>out. go_return ())"

definition forwarding_rules :: "string \<Rightarrow> string \<Rightarrow> string \<Rightarrow> (string \<times> string \<times> string list) list" where
  "forwarding_rules podCIDR clusterCIDR serviceCIDR =
     [(''filter'', ''FORWARD'', [''-o'', agent_hostLocalPort, ''-j'', ''ACCEPT'']),
      (''filter'', ''FORWARD'', [''-i'', agent_hostLocalPort, ''-j'', ''ACCEPT'']),
      (''nat'', ''POSTROUTING'', [''-s'', podCIDR, ''!'', ''-o'', agent_hostLocalPort, ''-j'', ''MASQUERADE'']),
      (''nat'', ''POSTROUTING'', [''!'', ''-d'', clusterCIDR, ''-m'', ''comment'', ''--comment'',
         ''kube-ovs: SNAT for outbound traffic from cluster CIDR'', ''-m'', ''addrtype'', ''!'', ''--dst-type'', ''LOCAL'',
         ''-j'', ''MASQUERADE'']),
      (''nat'', ''POSTROUTING'', [''!'', ''-d'', serviceCIDR, ''-m'', ''comment'', ''--comment'',
         ''kube-ovs: SNAT for outbound traffic from service CIDR'', ''-m'', ''addrtype'', ''!'', ''--dst-type'', ''LOCAL'',
         ''-j'', ''MASQUERADE''])]"

fun append_rules :: "('e, 'z) AgentEnv_scheme \<Rightarrow> (string \<times> string \<times> string list) list \<Rightarrow> ('e, unit) go" where
  "append_rules env [] = go_return ()"
| "append_rules env ((t, ch, r) # rules) = go_bind (AppendUnique env t ch r) (\<lambda>_. append_rules env rules)"

definition setupBridgeForwarding :: "('e, 'z) AgentEnv_scheme \<Rightarrow> string \<Rightarrow> string \<Rightarrow> string \<Rightarrow> ('e, unit) go" where
  "setupBridgeForwarding env podCIDR clusterCIDR serviceCIDR =
     go_bind (NewIptables env) (\<lambda>ipt. append_rules env (forwarding_rules podCIDR clusterCIDR serviceCIDR))"

definition setupModulesAndSysctls :: "('e, 'z) AgentEnv_scheme \<Rightarrow> ('e, unit) go" where
  "setupModulesAndSysctls env =
     go_bind (go_wrap (Wrapf ''failed to enable br_netfilter module, err: %v, out: %q'' [])
                (CombinedOutput env ''modprobe'' [''br_netfilter''])) (\<lambda>out.
     go_bind (go_wrap (Wrapf ''failed to set /proc/sys/net/bridge/bridge-nf-call-iptables, err: %v'' [])
                (WriteFile env ''/proc/sys/net/bridge/bridge-nf-call-iptables'' (strconv_Itoa 1) 416)) (\<lambda>_.
     go_wrap (Wrapf ''failed to set /proc/sys/net/ipv4/ip_forward, err: %v'' [])
                (WriteFile env ''/proc/sys/net/ipv4/ip_forward'' (strconv_Itoa 1) 416)))"

subsection \<open>Start-up\<close>

record agent =
  ag_ctl :: controller
  ag_conn :: OFConnect
  ag_vxlan :: vxlanPorts
  ag_vswitch :: VSwitchConfig

text \<open>\<open>exec_of\<close> is the part of the environment the controller uses.\<close>

definition exec_of :: "('e, 'z) AgentEnv_scheme \<Rightarrow> 'e Exec" where
  "exec_of env = Exec.truncate env"

abbreviation exit1 :: "string \<Rightarrow> ('e of_world, 'a) gop" where
  "exit1 msg \<equiv> gop_fail (Errorf msg [])"

abbreviation sys :: "string \<Rightarrow> ('e, 'a) go \<Rightarrow> ('e of_world, 'a) gop" where
  "sys msg m \<equiv> gop_wrap (Wrapf msg []) (gop_of (on_host m))"

definition new_connect :: "('e, 'z) AgentEnv_scheme \<Rightarrow> ('e, OFConnect) go" where
  "new_connect env = State (\<lambda>e. case run_state (Listen env ('':'' @ strconv_Itoa 6653)) e of
     (r, e') \<Rightarrow> (NewOFConnect (\<lambda>_. r), e'))"

text \<open>\<open>main\<close> up to the wait for the node's configuration: clients, node object, CNI configuration.\<close>

definition agent_prepare :: "('e, 'z) AgentEnv_scheme \<Rightarrow> ('e of_world, Node) gop" where
  "agent_prepare env =
     gop_bind (sys ''error create in cluster config: %v'' (InClusterConfig env)) (\<lambda>_.
     gop_bind (sys ''error getting kubernetes client: %v'' (NewKubernetes env)) (\<lambda>_.
     gop_bind (sys ''error getting kube-ovs clientset: %v'' (NewKovs env)) (\<lambda>_.
     gop_bind (gop_of (on_host (State_Monad.bind (Getenv env ''NODE_NAME'') go_return))) (\<lambda>nodeName.
     if nodeName = [] then exit1 ''env variable NODE_NAME is required''
     else
     gop_bind (sys ''failed to get current node resource: %v'' (NodesGet env nodeName)) (\<lambda>curNode.
     if NodePodCIDR curNode = [] then exit1 ''node %q has no pod CIDR assigned''
     else
     gop_bind (sys ''failed to install CNI: %v'' (installCNIConf env (NodePodCIDR curNode))) (\<lambda>_.
     gop_return curNode))))))"

text \<open>
  \<open>main\<close> from there to the start of the goroutines. The informer handlers registered on the way
  are those of \<open>ag_ctl\<close> (virtual switches and pods) and of \<open>ag_vxlan\<close> (virtual switches).
\<close>

definition agent_start :: "('e, 'z) AgentEnv_scheme \<Rightarrow> Node \<Rightarrow> VSwitchConfig \<Rightarrow> ('e of_world, agent) gop" where
  "agent_start env curNode vswitchConfig =
     (let podCIDR = PodCIDR (Spec vswitchConfig);
          clusterCIDR = ClusterCIDR (Spec vswitchConfig);
          serviceCIDR = ServiceCIDR (Spec vswitchConfig)
      in
     gop_bind (sys ''failed to setup OVS bridge: %v'' (setupBridgeIfNotExists env)) (\<lambda>_.
     gop_bind (sys ''failed to setup host-local port: %v'' (setupHostLocalInternalPort env)) (\<lambda>_.
     gop_bind (sys ''failed to get bridge %q, err: %v'' (LinkByName env agent_hostLocalPort)) (\<lambda>hostLocalLink.
     gop_bind (gop_lift (wrap_err (Wrapf ''failed to get netlink addr for CIDR %q, err: %v'' [podCIDR])
                 (netlinkAddrForCIDR clusterCIDR podCIDR))) (\<lambda>addr.
     gop_bind (sys ''could not add addr %q to bridge %q, err: %v'' (AddrReplace env hostLocalLink addr)) (\<lambda>_.
     gop_bind (sys ''failed to setup controller: %v'' (setControllerTarget env)) (\<lambda>_.
     gop_bind (sys ''failed to set fail-mode to 'secure': %v'' (setSecureFailMode env)) (\<lambda>_.
     gop_bind (sys ''failed to setup sysctls: %v'' (setupModulesAndSysctls env)) (\<lambda>_.
     gop_bind (sys ''failed to setup bridge forwarding: %v''
                 (setupBridgeForwarding env podCIDR clusterCIDR serviceCIDR)) (\<lambda>_.
     gop_bind (sys ''error getting %q: err: %v'' (InterfaceByName env agent_hostLocalPort)) (\<lambda>hardwareAddr.
     gop_bind (sys ''error starting open flow connection manager: %v'' (new_connect env)) (\<lambda>connectionManager.
     gop_bind (State_Monad.return (map_outcome Inr
                 (NewController (hw_String hardwareAddr) (Name (NodeMeta curNode)) podCIDR clusterCIDR))) (\<lambda>c.
     gop_bind (gop_wrap (Wrapf ''error initializing openflow controller: %v'' []) (gop_of Initialize)) (\<lambda>_.
     gop_bind (gop_wrap (Wrapf ''error adding default flows: %v'' [])
                 (gop_of (AddDefaultFlows (exec_of env) c agent_bridgeName))) (\<lambda>_.
     gop_return \<lparr>ag_ctl = c, ag_conn = connectionManager,
       ag_vxlan = NewVxlanPorts agent_bridgeName vswitchConfig, ag_vswitch = vswitchConfig\<rparr>)))))))))))))))"

text \<open>The whole of \<open>main\<close>; \<open>None\<close> is a program still waiting for its configuration.\<close>

definition agent_main ::
    "nat \<Rightarrow> ('e, 'z) AgentEnv_scheme \<Rightarrow> 'e of_world \<Rightarrow> agent result outcome option \<times> 'e of_world" where
  "agent_main fuel env w =
     (case run_state (agent_prepare env) w of
        (Panics p, w1) \<Rightarrow> (Some (Panics p), w1)
      | (Returns (Inl err), w1) \<Rightarrow> (Some (Returns (Inl err)), w1)
      | (Returns (Inr curNode), w1) \<Rightarrow>
          (case waitForVSwitchConfig fuel env (Name (NodeMeta curNode)) (host w1) of
             (None, e) \<Rightarrow> (None, w1\<lparr>host := e\<rparr>)
           | (Some (Inl err), e) \<Rightarrow>
               (Some (Returns (Inl (Wrapf ''error getting vswitch config for node: %v'' [] err))), w1\<lparr>host := e\<rparr>)
           | (Some (Inr vswitchConfig), e) \<Rightarrow>
               (case run_state (agent_start env curNode vswitchConfig) (w1\<lparr>host := e\<rparr>) of
                  (r, w2) \<Rightarrow> (Some r, w2))))"

subsection \<open>The wait is bounded\<close>

text \<open>
  A clock: reading it changes nothing, sleeping moves it on by at least the time asked for, and
  a request to the API server does not turn it back.
\<close>

definition clock_ok :: "('e, 'z) AgentEnv_scheme \<Rightarrow> ('e \<Rightarrow> int) \<Rightarrow> bool" where
  "clock_ok env clock \<longleftrightarrow>
     (\<forall>e. run_state (Now env) e = (clock e, e)) \<and>
     (\<forall>e d. clock e + d \<le> clock (snd (run_state (Sleep env d) e))) \<and>
     (\<forall>e n. clock e \<le> clock (snd (run_state (VSwitchGet env n) e)))"

lemma wait_loop_ends:
  assumes "clock_ok env clock" and "waitDuration - (clock e - start) \<le> pollInterval * int n"
  shows "\<exists>r e'. wait_loop env nodeName start (Suc n) e = (Some r, e') \<and>
    (case r of Inr v \<Rightarrow> \<exists>e1 e2. run_state (VSwitchGet env nodeName) e1 = (Inr v, e2)
       | Inl err \<Rightarrow> \<not> IsNotFound err)"
  using assms(2)
proof (induction n arbitrary: e)
  case 0
  then show ?case using assms(1) by (simp add: clock_ok_def)
next
  case (Suc n)
  obtain r e2 where g: "run_state (VSwitchGet env nodeName) e = (r, e2)" by fastforce
  have "clock e \<le> clock e2" and "\<And>d. clock e2 + d \<le> clock (snd (run_state (Sleep env d) e2))"
    using assms(1) g unfolding clock_ok_def by (metis snd_conv)+
  then have "clock e + pollInterval \<le> clock (snd (run_state (Sleep env pollInterval) e2))" by (meson add_mono_thms_linordered_semiring(3) order_trans)
  then have "waitDuration - (clock (snd (run_state (Sleep env pollInterval) e2)) - start) \<le> pollInterval * int n"
    using Suc.prems by simp
  note ih = Suc.IH [OF this]
  have now: "run_state (Now env) e = (clock e, e)" using assms(1) by (simp add: clock_ok_def)
  show ?case
    unfolding wait_loop.simps(2) [of env nodeName start "Suc n"]
    using ih g now by (cases r) (auto simp del: wait_loop.simps)
qed

lemma wait_ends:
  assumes "clock_ok env clock" and "13 \<le> fuel"
  shows "\<exists>r e'. waitForVSwitchConfig fuel env nodeName e = (Some r, e') \<and>
    (case r of Inr v \<Rightarrow> \<exists>e1 e2. run_state (VSwitchGet env nodeName) e1 = (Inr v, e2)
       | Inl err \<Rightarrow> \<not> IsNotFound err)"
proof -
  obtain n where n: "fuel = Suc n" "12 \<le> n" using assms(2) by (cases fuel) auto
  have "waitDuration - (clock e - clock e) \<le> pollInterval * int n" using n(2) by simp
  then show ?thesis
    using wait_loop_ends [OF assms(1)] assms(1) n(1) by (simp add: waitForVSwitchConfig_def clock_ok_def del: wait_loop.simps)
qed

subsection \<open>What a started agent looks like\<close>

text \<open>\<open>m\<close> does not panic, and a value it returns satisfies \<open>Q\<close>.\<close>

definition gop_post :: "('a \<Rightarrow> bool) \<Rightarrow> ('s, 'a) gop \<Rightarrow> bool" where
  "gop_post Q m \<longleftrightarrow> (\<forall>s. case fst (run_state m s) of
     Panics p \<Rightarrow> False | Returns (Inl e) \<Rightarrow> True | Returns (Inr x) \<Rightarrow> Q x)"

lemma gop_post_bind:
  assumes "gop_post P m" and "\<And>x. P x \<Longrightarrow> gop_post Q (f x)"
  shows "gop_post Q (gop_bind m f)"
  unfolding gop_post_def
proof
  fix s
  obtain r s' where r: "run_state m s = (r, s')" by fastforce
  have "case r of Panics p \<Rightarrow> False | Returns (Inl e) \<Rightarrow> True | Returns (Inr x) \<Rightarrow> P x"
    using assms(1) r unfolding gop_post_def by (metis fst_conv)
  then consider e where "r = Returns (Inl e)" | x where "r = Returns (Inr x)" "P x"
    by (auto split: outcome.splits sum.splits)
  then show "case fst (run_state (gop_bind m f) s) of
      Panics p \<Rightarrow> False | Returns (Inl e) \<Rightarrow> True | Returns (Inr x) \<Rightarrow> Q x"
  proof cases
    case (2 x)
    from assms(2) [OF this(2)] show ?thesis using 2 r by (simp add: gop_post_def run_simps)
  qed (simp add: r run_simps)
qed

lemma gop_postD:
  assumes "gop_post Q m" and "run_state m s = (r, s')"
  shows "r \<noteq> Panics p" and "r = Returns (Inr x) \<Longrightarrow> Q x"
  using assms(1) [unfolded gop_post_def, rule_format, of s] assms(2) by (auto split: outcome.splits sum.splits)

lemma gop_post_wrap: "gop_post (\<lambda>_. True) (gop_wrap w (gop_of m))"
  by (auto simp: gop_post_def run_simps split: prod.splits sum.splits)

lemma gop_post_simps [simp]:
  "gop_post Q (gop_return x) \<longleftrightarrow> Q x" "gop_post Q (gop_fail e)"
  "gop_post Q (gop_lift r) \<longleftrightarrow> (\<forall>x. r = Inr x \<longrightarrow> Q x)"
  "gop_post Q (State_Monad.return (map_outcome Inr oc)) \<longleftrightarrow> (\<exists>x. oc = Returns x \<and> Q x)"
  by (auto simp: gop_post_def run_simps split: sum.splits; cases oc; simp)+

lemma gop_post_of: "gop_post (\<lambda>_. True) (gop_of m)"
  by (auto simp: gop_post_def run_simps split: prod.splits sum.splits)

lemmas gop_post_seq = gop_post_bind [OF gop_post_wrap]

text \<open>
  The gateway flows of the controller match the address that the agent puts on \<open>host-local\<close>.
\<close>

definition agent_consistent :: "Node \<Rightarrow> VSwitchConfig \<Rightarrow> agent \<Rightarrow> bool" where
  "agent_consistent curNode v ag \<longleftrightarrow>
     (\<exists>addr. netlinkAddrForCIDR (ClusterCIDR (Spec v)) (PodCIDR (Spec v)) = Inr addr \<and>
        ctl_gatewayIP (ag_ctl ag) = IP_String (NetIP (AddrIPNet addr))) \<and>
     ctl_nodeName (ag_ctl ag) = Name (NodeMeta curNode) \<and> ctl_podCIDR (ag_ctl ag) = PodCIDR (Spec v) \<and>
     ctl_clusterCIDR (ag_ctl ag) = ClusterCIDR (Spec v) \<and> ag_vswitch ag = v \<and>
     ag_vxlan ag = NewVxlanPorts ''kube-ovs0'' v \<and> ag_conn ag = of_init"

lemma NewController_addr:
  assumes "netlinkAddrForCIDR clusterCIDR podCIDR = Inr addr"
  shows "\<exists>c. NewController mac node podCIDR clusterCIDR = Returns c \<and> ctl_gatewayIP c = IP_String (NetIP (AddrIPNet addr)) \<and>
    ctl_nodeName c = node \<and> ctl_podCIDR c = podCIDR \<and> ctl_clusterCIDR c = clusterCIDR"
  using assms by (auto simp: netlinkAddrForCIDR_def NewController_def Let_def split: sum.splits)

lemma cidr_of_parses: "cidr_of s ip n \<Longrightarrow> \<exists>x. ParseCIDR s = Inr x"
  using ParseCIDR_cidr_string [of ip n] by (auto simp: cidr_of_def)

lemma new_connect_post: "gop_post (\<lambda>c. c = of_init) (gop_wrap w (gop_of (on_host (new_connect env))))"
  by (auto simp: gop_post_def run_simps on_host_def new_connect_def NewOFConnect_def split: prod.splits sum.splits)

lemma agent_start_post: "gop_post (agent_consistent curNode v) (agent_start env curNode v)"
proof -
  let ?addr = "\<lambda>addr. netlinkAddrForCIDR (ClusterCIDR (Spec v)) (PodCIDR (Spec v)) = Inr addr"
  let ?ctl = "\<lambda>addr c. ctl_gatewayIP c = IP_String (NetIP (AddrIPNet addr)) \<and> ctl_nodeName c = Name (NodeMeta curNode) \<and>
    ctl_podCIDR c = PodCIDR (Spec v) \<and> ctl_clusterCIDR c = ClusterCIDR (Spec v)"
  have ctl: "gop_post (?ctl addr) (State_Monad.return (map_outcome Inr
      (NewController mac (Name (NodeMeta curNode)) (PodCIDR (Spec v)) (ClusterCIDR (Spec v)))))"
    if "?addr addr" for addr mac using NewController_addr [OF that] by auto
  show ?thesis
    unfolding agent_start_def Let_def
    apply (rule gop_post_seq)+
    apply (rule gop_post_bind [where P = ?addr])
     apply simp
    apply ((rule gop_post_bind [OF new_connect_post] | rule gop_post_seq)+)
    apply (rule gop_post_bind [OF ctl])
     apply assumption
    apply (rule gop_post_seq)+
    apply (auto simp: agent_consistent_def)
    done
qed

lemma agent_prepare_post: "gop_post (\<lambda>_. True) (agent_prepare env)"
  unfolding agent_prepare_def
  apply (rule gop_post_seq)+
  apply (rule gop_post_bind [OF gop_post_of])
  apply (simp, intro impI)
  apply (rule gop_post_seq)
  apply (simp, intro impI)
  apply (rule gop_post_seq)
  apply simp
  done

subsection \<open>Forwarding rules\<close>

text \<open>
  \<open>AppendUnique\<close>: a rule that the chain has is left alone, another is added at its end;
  \<open>rules e\<close> gives the rules of a table and chain.
\<close>

definition appends_unique :: "('e, 'z) AgentEnv_scheme \<Rightarrow> ('e \<Rightarrow> string \<times> string \<Rightarrow> string list list) \<Rightarrow> bool" where
  "appends_unique env rules \<longleftrightarrow>
     (\<forall>e t c r. if r \<in> set (rules e (t, c)) then run_state (AppendUnique env t c r) e = (Inr (), e)
        else (\<exists>e'. run_state (AppendUnique env t c r) e = (Inr (), e') \<and>
                rules e' = (rules e)((t, c) := rules e (t, c) @ [r])))"

lemma append_rules_installed:
  assumes "appends_unique env rules"
  shows "\<exists>e'. run_state (append_rules env rs) e = (Inr (), e') \<and>
    (\<forall>(t, c, r)\<in>set rs. r \<in> set (rules e' (t, c))) \<and> (\<forall>k. \<exists>new. rules e' k = rules e k @ new)"
proof (induction rs arbitrary: e)
  case (Cons x rs)
  obtain t c r where x: "x = (t, c, r)" using prod_cases3 by blast
  obtain e1 where e1: "run_state (AppendUnique env t c r) e = (Inr (), e1)" "r \<in> set (rules e1 (t, c))"
      "\<forall>k. \<exists>new. rules e1 k = rules e k @ new"
  proof (cases "r \<in> set (rules e (t, c))")
    case True
    then have "run_state (AppendUnique env t c r) e = (Inr (), e)" using assms by (simp add: appends_unique_def)
    then show ?thesis using that True by simp
  next
    case False
    then obtain e1 where "run_state (AppendUnique env t c r) e = (Inr (), e1)"
        "rules e1 = (rules e)((t, c) := rules e (t, c) @ [r])"
      using assms unfolding appends_unique_def by meson
    then show ?thesis using that [of e1] by simp
  qed
  obtain e' where e': "run_state (append_rules env rs) e1 = (Inr (), e')"
      "\<forall>(t, c, r)\<in>set rs. r \<in> set (rules e' (t, c))" "\<forall>k. \<exists>new. rules e' k = rules e1 k @ new"
    using Cons.IH by blast
  have "\<exists>new. rules e' k = rules e k @ new" for k using e1(3) e'(3) by (metis append_assoc)
  moreover have "r \<in> set (rules e' (t, c))" using e1(2) e'(3) by (metis UnCI set_append)
  ultimately show ?case using e1(1) e'(1,2) x by (simp add: run_simps)
qed (simp add: run_simps)

lemma append_rules_present:
  assumes "appends_unique env rules" and "\<forall>(t, c, r)\<in>set rs. r \<in> set (rules e (t, c))"
  shows "run_state (append_rules env rs) e = (Inr (), e)"
  using assms(2)
proof (induction rs)
  case (Cons x rs)
  obtain t c r where x: "x = (t, c, r)" using prod_cases3 by blast
  then have "run_state (AppendUnique env t c r) e = (Inr (), e)"
    using assms(1) Cons.prems by (simp add: appends_unique_def)
  then show ?case using x Cons by (simp add: run_simps)
qed (simp add: run_simps)

subsection \<open>A host for the examples\<close>

text \<open>The state is the clock; every command succeeds, and \<open>ovs-vsctl\<close> prints a port number.\<close>

definition demo_env :: "int AgentEnv" where
  "demo_env =
     \<lparr>CombinedOutput = (\<lambda>cmd args. State (\<lambda>e. (Inr (''5'' @ [CHR 0x0A]), e))),
      Output = (\<lambda>cmd args. State (\<lambda>e. (Inr [], e))),
      InClusterConfig = go_return (), NewKubernetes = go_return (), NewKovs = go_return (),
      Getenv = (\<lambda>n. State_Monad.return ''node1''),
      NodesGet = (\<lambda>n. go_return \<lparr>NodeMeta = \<lparr>Name = n, Namespace = [], ResourceVersion = [], Labels = []\<rparr>,
        NodePodCIDR = ''10.244.1.0/24'', Addresses = []\<rparr>),
      VSwitchGet = (\<lambda>n. State (\<lambda>e. (if e < 10000000000 then Inl (StatusError NotFound n)
        else Inr (demo_vswitch n ''10.244.1.0/24''), e))),
      Now = State (\<lambda>e. (e, e)), Sleep = (\<lambda>d. State (\<lambda>e. ((), e + d))),
      WriteFile = (\<lambda>p c m. go_return ()), LinkByName = (\<lambda>n. go_return n), LinkSetUp = (\<lambda>l. go_return ()),
      AddrReplace = (\<lambda>l a. go_return ()), InterfaceByName = (\<lambda>n. go_return [10, 0, 0, 0, 0, 1]),
      NewIptables = go_return (), AppendUnique = (\<lambda>t c r. go_return ()), Listen = (\<lambda>a. go_return ())\<rparr>"

lemma demo_clock: "clock_ok demo_env (\<lambda>e. e)"
  by (simp add: clock_ok_def demo_env_def)

lemma demo_exec_of: "reads_port (exec_of demo_env) e name 5"
  by (simp add: reads_port_def exec_of_def demo_env_def Exec.defs demo_numbers)

lemma demo_wait: "waitForVSwitchConfig 13 demo_env ''node1'' 0 = (Some (Inr (demo_vswitch ''node1'' ''10.244.1.0/24'')), 10000000000)"
  by (simp add: waitForVSwitchConfig_def demo_env_def eval_nat_numeral)

definition demo_node :: Node where
  "demo_node = \<lparr>NodeMeta = \<lparr>Name = ''node1'', Namespace = [], ResourceVersion = [], Labels = []\<rparr>,
     NodePodCIDR = ''10.244.1.0/24'', Addresses = []\<rparr>"

lemma demo_start:
  "\<exists>ag w'. run_state (agent_start demo_env demo_node (demo_vswitch ''node1'' ''10.244.1.0/24'')) w = (Returns (Inr ag), w')"
proof -
  have "SetBytes [10, 244, 1, 0] + 1 < 256 ^ 4" by (simp add: SetBytes_Cons)
  then obtain c gw where c: "NewController (hw_String [10, 0, 0, 0, 0, 1]) ''node1'' ''10.244.1.0/24'' ''10.244.0.0/16'' = Returns c"
      "ctl_gatewayIP c = dotted gw" "length gw = 4" "ctl_podCIDR c = ''10.244.1.0/24''" "ctl_clusterCIDR c = ''10.244.0.0/16''"
      "ctl_gatewayMAC c = hw_String [10, 0, 0, 0, 0, 1]"
    using NewController_gateway [OF demo_cidrs(1), of "hw_String [10, 0, 0, 0, 0, 1]" "''node1''" "''10.244.0.0/16''"] by auto
  have flows: "\<exists>w'. run_state (AddDefaultFlows (exec_of demo_env) c br) w = (Inr (), w')" for br w
  proof -
    have p: "cidr_of (ctl_podCIDR c) [10, 244, 1, 0] 24" "cidr_of (ctl_clusterCIDR c) [10, 244, 0, 0] 16"
      using demo_cidrs c(4,5) by simp_all
    have six: "length [10, 0, 0, 0, 0, 1 :: uint8] = 6" by simp
    have "reads_port (exec_of demo_env) (host w) ''host-local'' 5" by (rule demo_exec_of)
    from AddDefaultFlows_entries [OF p(1) p(2) c(2) c(3) c(6) six this, of br] show ?thesis
      by (elim exE conjE) (rule exI)
  qed
  obtain addr where addr: "netlinkAddrForCIDR ''10.244.0.0/16'' ''10.244.1.0/24'' = Inr addr"
    using cidr_of_parses [OF demo_cidrs(1)] cidr_of_parses [OF demo_cidrs(2)] by (auto simp: netlinkAddrForCIDR_def Let_def)
  define br :: string where "br = ''kube-ovs0''"
  define ex where "ex = exec_of demo_env"
  obtain w1 where w1: "run_state (AddDefaultFlows ex c br)
      (w\<lparr>xid_ctr := xid_ctr w + 1, sent := sent w @ [HelloMsg (fst (NewOfpHello (xid_ctr w)))]\<rparr>) = (Inr (), w1)"
    using flows unfolding ex_def by blast
  show ?thesis
    unfolding agent_start_def Let_def br_def [symmetric] ex_def [symmetric]
    using c(1) addr w1
    by (simp add: demo_vswitch_def demo_node_def run_simps on_host_def demo_env_def setupBridgeIfNotExists_def
      setupHostLocalInternalPort_def setControllerTarget_def setSecureFailMode_def setupModulesAndSysctls_def
      setupBridgeForwarding_def forwarding_rules_def new_connect_def NewOFConnect_def Initialize_def NewOfpHello_def
      split: prod.split)
qed

lemma demo_main: "\<exists>ag w'. agent_main 13 demo_env \<lparr>xid_ctr = 0, sent = [], host = 0\<rparr> = (Some (Returns (Inr ag)), w')"
proof -
  let ?w = "\<lparr>xid_ctr = 0, sent = [], host = 0\<rparr>"
  have "run_state (agent_prepare demo_env) ?w = (Returns (Inr demo_node), ?w)"
    by (simp add: agent_prepare_def demo_env_def demo_node_def run_simps on_host_def installCNIConf_def run_state_bind)
  moreover obtain ag w' where "run_state (agent_start demo_env demo_node (demo_vswitch ''node1'' ''10.244.1.0/24''))
      (?w\<lparr>host := 10000000000\<rparr>) = (Returns (Inr ag), w')" using demo_start by blast
  moreover have "Name (NodeMeta demo_node) = ''node1''" by (simp add: demo_node_def)
  ultimately show ?thesis using demo_wait by (simp add: agent_main_def)
qed

lemma agent_main_outcome:
  assumes "agent_main fuel env w = (Some r, w')"
  shows "(\<forall>p. r \<noteq> Panics p) \<and>
    (\<forall>ag. r = Returns (Inr ag) \<longrightarrow> (\<exists>curNode v e1 e2. agent_consistent curNode v ag \<and>
       waitForVSwitchConfig fuel env (Name (NodeMeta curNode)) e1 = (Some (Inr v), e2)))"
proof -
  obtain r1 w1 where r1: "run_state (agent_prepare env) w = (r1, w1)" by fastforce
  note p1 = gop_postD(1) [OF agent_prepare_post r1]
  note p2 = gop_postD [OF agent_start_post]
  show ?thesis
  proof (cases r1)
    case (Returns x)
    then show ?thesis
    proof (cases x)
      case (Inr curNode)
      obtain x2 e2 where wt: "waitForVSwitchConfig fuel env (Name (NodeMeta curNode)) (host w1) = (x2, e2)" by fastforce
      show ?thesis
        using assms r1 Returns Inr wt
        by (auto simp: agent_main_def dest: p2 split: option.splits sum.splits prod.splits)
    qed (use assms r1 Returns in \<open>auto simp: agent_main_def\<close>)
  qed (use p1 in blast)
qed

lemma agent_main_started:
  assumes "agent_main fuel env w = (Some (Returns (Inr ag)), w')"
  shows "\<exists>curNode v. agent_consistent curNode v ag"
  using agent_main_outcome [OF assms] by blast

subsection \<open>Properties\<close>



text \<open>
  C21: start-up ends. With a clock that sleeping moves on, the wait for the node's configuration
  ends after at most twelve polls, with a configuration the API server returned, an error other
  than \<open>NotFound\<close>, or the error of the deadline; so \<open>main\<close> either exits or starts the agent.
\<close>

theorem agent_main_terminates:
  assumes "clock_ok env clock" and "13 \<le> fuel"
  shows "(\<exists>r w'. agent_main fuel env w = (Some r, w')) \<and>
    (\<exists>r e'. waitForVSwitchConfig fuel env nodeName e = (Some r, e') \<and>
       (case r of Inr v \<Rightarrow> \<exists>e1 e2. run_state (VSwitchGet env nodeName) e1 = (Inr v, e2) | Inl err \<Rightarrow> \<not> IsNotFound err))"
proof -
  obtain r1 w1 where r1: "run_state (agent_prepare env) w = (r1, w1)" by fastforce
  have "\<exists>r w'. agent_main fuel env w = (Some r, w')"
  proof (cases "\<exists>n. r1 = Returns (Inr n)")
    case True
    then obtain n where n: "r1 = Returns (Inr n)" by blast
    obtain r e' where "waitForVSwitchConfig fuel env (Name (NodeMeta n)) (host w1) = (Some r, e')"
      using wait_ends [OF assms] by blast
    then show ?thesis using r1 n by (cases r) (auto simp: agent_main_def split: prod.split)
  next
    case False
    then show ?thesis using r1 by (auto simp: agent_main_def split: outcome.splits sum.splits)
  qed
  then show ?thesis using wait_ends [OF assms] by blast
qed

theorem agent_main_terminates_witness:
  "\<exists>r w'. agent_main 13 demo_env \<lparr>xid_ctr = 0, sent = [], host = 0\<rparr> = (Some r, w')"
  using agent_main_terminates [OF demo_clock, of 13] by blast


text \<open>A host that keeps its rules in lists.\<close>

definition rules_env :: "(string \<times> string \<Rightarrow> string list list) AgentEnv" where
  "rules_env =
     \<lparr>CombinedOutput = (\<lambda>c a. go_return []), Output = (\<lambda>c a. go_return []),
      InClusterConfig = go_return (), NewKubernetes = go_return (), NewKovs = go_return (),
      Getenv = (\<lambda>n. State_Monad.return []), NodesGet = (\<lambda>n. go_fail (StatusError NotFound n)),
      VSwitchGet = (\<lambda>n. go_fail (StatusError NotFound n)), Now = State_Monad.return 0,
      Sleep = (\<lambda>d. State_Monad.return ()), WriteFile = (\<lambda>p c m. go_return ()),
      LinkByName = (\<lambda>n. go_return n), LinkSetUp = (\<lambda>l. go_return ()), AddrReplace = (\<lambda>l a. go_return ()),
      InterfaceByName = (\<lambda>n. go_return []), NewIptables = go_return (),
      AppendUnique = (\<lambda>t c r. State (\<lambda>h. (Inr (), if r \<in> set (h (t, c)) then h else h((t, c) := h (t, c) @ [r])))),
      Listen = (\<lambda>a. go_return ())\<rparr>"


end
