(* ===== verification/Cni_Result.thy ===== *)
theory Cni_Result
  imports Go_Json
begin

text \<open>
  The results a CNI plugin exchanges with its caller and with the address management plugin it
  delegates to, in the two layouts of the protocol: the current one (\<open>cni/pkg/types/current\<close>) and
  that of the versions up to 0.2.0 (\<open>cni/pkg/types/020\<close>), with the conversions between them and
  the checks of \<open>cni/pkg/version\<close>. The text layout of a result, its \<open>json\<close> marshalling, is left to
  the operations that read and write it.
\<close>

subsection \<open>Layouts\<close>

record DNS =
  Nameservers :: "string list"
  Domain :: string
  Search :: "string list"
  Options :: "string list"

record Interface =
  IfaceName :: string
  Mac :: string
  Sandbox :: string

record IPConfig =
  IPVersion :: string
  IfIndex :: "int option"
  IPAddress :: IPNet
  Gateway :: IP

record Route =
  RouteDst :: IPNet
  RouteGW :: IP

record Result =
  ResVersion :: string
  Interfaces :: "Interface list"
  IPs :: "IPConfig list"
  Routes :: "Route list"
  ResDNS :: DNS

record IPConfig020 =
  IP020 :: IPNet
  Gateway020 :: IP
  Routes020 :: "Route list"

record Result020 =
  CNIVersion020 :: string
  IP4 :: "IPConfig020 option"
  IP6 :: "IPConfig020 option"
  DNS020 :: DNS

text \<open>A value of the Go interface \<open>types.Result\<close>.\<close>

datatype AnyResult = Current Result | Old Result020

definition current_ImplementedSpecVersion :: string where "current_ImplementedSpecVersion = ''0.3.1''"
definition current_SupportedVersions :: "string list" where "current_SupportedVersions = [''0.3.0'', ''0.3.1'']"
definition types020_ImplementedSpecVersion :: string where "types020_ImplementedSpecVersion = ''0.2.0''"
definition types020_SupportedVersions :: "string list" where "types020_SupportedVersions = [[], ''0.1.0'', ''0.2.0'']"

definition rbind :: "'a result \<Rightarrow> ('a \<Rightarrow> 'b result) \<Rightarrow> 'b result" where
  "rbind r f = (case r of Inl e \<Rightarrow> Inl e | Inr x \<Rightarrow> f x)"

subsection \<open>Conversion to the older layout\<close>

text \<open>The first address of each version; the loop is left once both are found.\<close>

definition to020_one :: "IPConfig \<Rightarrow> IPConfig020 option \<times> IPConfig020 option \<Rightarrow> IPConfig020 option \<times> IPConfig020 option" where
  "to020_one ipc = (\<lambda>(ip4, ip6).
     if IPVersion ipc = ''4'' \<and> ip4 = None
     then (Some \<lparr>IP020 = IPAddress ipc, Gateway020 = Gateway ipc, Routes020 = []\<rparr>, ip6)
     else if IPVersion ipc = ''6'' \<and> ip6 = None
     then (ip4, Some \<lparr>IP020 = IPAddress ipc, Gateway020 = Gateway ipc, Routes020 = []\<rparr>)
     else (ip4, ip6))"

fun to020_ips :: "IPConfig list \<Rightarrow> IPConfig020 option \<times> IPConfig020 option \<Rightarrow> IPConfig020 option \<times> IPConfig020 option" where
  "to020_ips [] acc = acc"
| "to020_ips (ipc # ips) acc =
     (let acc = to020_one ipc acc
      in if fst acc \<noteq> None \<and> snd acc \<noteq> None then acc else to020_ips ips acc)"

definition is_v4 :: "Route \<Rightarrow> bool" where
  "is_v4 route \<longleftrightarrow> To4 (NetIP (RouteDst route)) \<noteq> None"

definition add_route020 :: "Route \<Rightarrow> IPConfig020 \<Rightarrow> IPConfig020" where
  "add_route020 route c = c\<lparr>Routes020 := Routes020 c @ [route]\<rparr>"

fun to020_routes :: "Route list \<Rightarrow> IPConfig020 option \<times> IPConfig020 option \<Rightarrow> IPConfig020 option \<times> IPConfig020 option" where
  "to020_routes [] acc = acc"
| "to020_routes (route # routes) (ip4, ip6) =
     (if is_v4 route \<and> ip4 \<noteq> None then to020_routes routes (map_option (add_route020 route) ip4, ip6)
      else if \<not> is_v4 route \<and> ip6 \<noteq> None then to020_routes routes (ip4, map_option (add_route020 route) ip6)
      else to020_routes routes (ip4, ip6))"

definition no_valid_addresses :: go_error where
  "no_valid_addresses = Errorf ''cannot convert: no valid IP addresses'' []"

definition convertTo020 :: "Result \<Rightarrow> Result020 result" where
  "convertTo020 r =
     (case to020_routes (Routes r) (to020_ips (IPs r) (None, None)) of (ip4, ip6) \<Rightarrow>
        if ip4 = None \<and> ip6 = None then Inl no_valid_addresses
        else Inr \<lparr>CNIVersion020 = types020_ImplementedSpecVersion, IP4 = ip4, IP6 = ip6, DNS020 = ResDNS r\<rparr>)"

definition current_GetAsVersion :: "Result \<Rightarrow> string \<Rightarrow> AnyResult result" where
  "current_GetAsVersion r version =
     (if version \<in> {''0.3.0'', current_ImplementedSpecVersion} then Inr (Current (r\<lparr>ResVersion := version\<rparr>))
      else if version \<in> set types020_SupportedVersions then rbind (convertTo020 r) (\<lambda>old. Inr (Old old))
      else Inl (Errorf ''cannot convert version 0.3.x to %q'' [version]))"

definition types020_GetAsVersion :: "Result020 \<Rightarrow> string \<Rightarrow> AnyResult result" where
  "types020_GetAsVersion r version =
     (if version \<in> set types020_SupportedVersions then Inr (Old (r\<lparr>CNIVersion020 := version\<rparr>))
      else Inl (Errorf ''cannot convert version %q to %s'' (types020_SupportedVersions @ [version])))"

subsection \<open>Conversion from the older layout\<close>

definition from020_ip :: "string \<Rightarrow> IPConfig020 \<Rightarrow> IPConfig" where
  "from020_ip version c = \<lparr>IPVersion = version, IfIndex = None, IPAddress = IP020 c, Gateway = Gateway020 c\<rparr>"

definition from020_routes :: "IPConfig020 \<Rightarrow> Route list" where
  "from020_routes c =
     map (\<lambda>r. r\<lparr>RouteGW := (if RouteGW r = [] then Gateway020 c else RouteGW r)\<rparr>) (Routes020 c)"

definition opt :: "('a \<Rightarrow> 'b list) \<Rightarrow> 'a option \<Rightarrow> 'b list" where
  "opt f x = (case x of None \<Rightarrow> [] | Some y \<Rightarrow> f y)"

definition types020_GetResult :: "AnyResult \<Rightarrow> Result020 result" where
  "types020_GetResult r =
     rbind (case r of Old old \<Rightarrow> types020_GetAsVersion old types020_ImplementedSpecVersion
            | Current c \<Rightarrow> current_GetAsVersion c types020_ImplementedSpecVersion) (\<lambda>r'.
     case r' of Old old \<Rightarrow> Inr old | Current _ \<Rightarrow> Inl (Errorf ''failed to convert result'' []))"

definition convertFrom020 :: "AnyResult \<Rightarrow> Result result" where
  "convertFrom020 result =
     rbind (types020_GetResult result) (\<lambda>old.
     let ips = opt (\<lambda>c. [from020_ip ''4'' c]) (IP4 old) @ opt (\<lambda>c. [from020_ip ''6'' c]) (IP6 old)
     in if ips = [] then Inl no_valid_addresses
        else Inr \<lparr>ResVersion = current_ImplementedSpecVersion, Interfaces = [], IPs = ips,
               Routes = opt from020_routes (IP4 old) @ opt from020_routes (IP6 old), ResDNS = DNS020 old\<rparr>)"

definition convertFrom030 :: "AnyResult \<Rightarrow> Result result" where
  "convertFrom030 result =
     (case result of Current r \<Rightarrow> Inr (r\<lparr>ResVersion := current_ImplementedSpecVersion\<rparr>)
      | Old _ \<Rightarrow> Inl (Errorf ''failed to convert result'' []))"

definition result_Version :: "AnyResult \<Rightarrow> string" where
  "result_Version r = (case r of Current _ \<Rightarrow> current_ImplementedSpecVersion | Old _ \<Rightarrow> types020_ImplementedSpecVersion)"

definition NewResultFromResult :: "AnyResult \<Rightarrow> Result result" where
  "NewResultFromResult result =
     (let version = result_Version result
      in if version \<in> set types020_SupportedVersions then convertFrom020 result
         else if version \<in> set current_SupportedVersions then convertFrom030 result
         else Inl (Errorf ''unsupported CNI result22 version %q'' [version]))"

subsection \<open>Versions\<close>

text \<open>\<open>ConfigDecoder.Decode\<close>: a configuration that names no version has version 0.1.0.\<close>

definition dec_struct :: "((string \<times> json) list \<Rightarrow> 'a \<Rightarrow> 'a result) \<Rightarrow> json \<Rightarrow> 'a \<Rightarrow> 'a result" where
  "dec_struct dec v x =
     (case v of JObj kvs \<Rightarrow> dec kvs x | JNull \<Rightarrow> Inr x | _ \<Rightarrow> Inl unmarshal_type_error)"

definition field :: "string \<Rightarrow> (json \<Rightarrow> 'a \<Rightarrow> 'a result) \<Rightarrow> (string \<times> json) list \<Rightarrow> 'a \<Rightarrow> 'a result" where
  "field name dec kvs x = store_field dec (json_fields name kvs) x"

definition ConfigDecoder_Decode :: "string \<Rightarrow> string result" where
  "ConfigDecoder_Decode jsonBytes =
     rbind (wrap_err (Wrapf ''decoding version from network config: %s'' [])
              (case json_Parse jsonBytes of
                 None \<Rightarrow> Inl (OpaqueError ''json: syntax error'')
               | Some v \<Rightarrow> dec_struct (field ''cniVersion'' dec_string) v [])) (\<lambda>version.
     Inr (if version = [] then ''0.1.0'' else version))"

record PluginInfo =
  PluginCNIVersion :: string
  PluginVersions :: "string list"

record ErrorIncompatible =
  Config :: string
  Supported :: "string list"

definition version_Current :: string where "version_Current = ''0.3.1''"

definition PluginSupports :: "string list \<Rightarrow> PluginInfo outcome" where
  "PluginSupports supportedVersions =
     (if length supportedVersions < 1 then Panics ExplicitPanic
      else Returns \<lparr>PluginCNIVersion = version_Current, PluginVersions = supportedVersions\<rparr>)"

definition version_All :: "PluginInfo outcome" where
  "version_All = PluginSupports [''0.1.0'', ''0.2.0'', ''0.3.0'', ''0.3.1'']"

fun CheckRaw_loop :: "string \<Rightarrow> string list \<Rightarrow> bool" where
  "CheckRaw_loop configVersion [] = False"
| "CheckRaw_loop configVersion (supportedVersion # vs) =
     (if configVersion = supportedVersion then True else CheckRaw_loop configVersion vs)"

definition CheckRaw :: "string \<Rightarrow> string list \<Rightarrow> ErrorIncompatible option" where
  "CheckRaw configVersion supportedVersions =
     (if CheckRaw_loop configVersion supportedVersions then None
      else Some \<lparr>Config = configVersion, Supported = supportedVersions\<rparr>)"

definition Reconciler_Check :: "string \<Rightarrow> PluginInfo \<Rightarrow> ErrorIncompatible option" where
  "Reconciler_Check configVersion pluginInfo = CheckRaw configVersion (PluginVersions pluginInfo)"

text \<open>\<open>version.NewResult\<close>: the layout by the version; \<open>current_NewResult\<close> and \<open>types020_NewResult\<close> unmarshal.\<close>

record ResultDecoder =
  current_NewResult :: "string \<Rightarrow> Result result"
  types020_NewResult :: "string \<Rightarrow> Result020 result"

definition version_NewResult :: "'z ResultDecoder_scheme \<Rightarrow> string \<Rightarrow> string \<Rightarrow> AnyResult result" where
  "version_NewResult dec version resultBytes =
     (if CheckRaw version current_SupportedVersions = None
      then rbind (current_NewResult dec resultBytes) (\<lambda>r. Inr (Current r))
      else if CheckRaw version types020_SupportedVersions = None
      then rbind (types020_NewResult dec resultBytes) (\<lambda>r. Inr (Old r))
      else Inl (Errorf ''unsupported CNI result version %q'' [version]))"

subsection \<open>What the conversions keep\<close>

lemma rbind_simps [simp]: "rbind (Inl e) f = Inl e" "rbind (Inr x) f = f x"
  by (simp_all add: rbind_def)

lemma rbind_Inr_iff: "rbind r f = Inr y \<longleftrightarrow> (\<exists>x. r = Inr x \<and> f x = Inr y)"
  by (cases r) simp_all

definition first_of :: "string \<Rightarrow> IPConfig list \<Rightarrow> IPConfig020 option" where
  "first_of version ips =
     map_option (\<lambda>c. \<lparr>IP020 = IPAddress c, Gateway020 = Gateway c, Routes020 = []\<rparr>) (find (\<lambda>c. IPVersion c = version) ips)"

lemma first_of_simps [simp]:
  "first_of v [] = None"
  "first_of v (c # cs) = (if IPVersion c = v then Some \<lparr>IP020 = IPAddress c, Gateway020 = Gateway c, Routes020 = []\<rparr> else first_of v cs)"
  by (simp_all add: first_of_def)

lemma first_of_None_iff: "first_of v ips = None \<longleftrightarrow> (\<forall>c\<in>set ips. IPVersion c \<noteq> v)"
  by (induction ips) auto

definition or_else :: "'a option \<Rightarrow> 'a option \<Rightarrow> 'a option" where
  "or_else a b = (case a of None \<Rightarrow> b | Some _ \<Rightarrow> a)"

lemma or_else_simps [simp]: "or_else None b = b" "or_else (Some x) b = Some x"
  by (simp_all add: or_else_def)

lemma to020_ips_eq: "to020_ips ips (a, b) = (or_else a (first_of ''4'' ips), or_else b (first_of ''6'' ips))"
  by (induction ips arbitrary: a b; case_tac a; case_tac b) (auto simp: to020_one_def Let_def)

lemma to020_routes_eq: "to020_routes routes (a, b) =
    (map_option (\<lambda>c. c\<lparr>Routes020 := Routes020 c @ filter is_v4 routes\<rparr>) a,
     map_option (\<lambda>c. c\<lparr>Routes020 := Routes020 c @ filter (\<lambda>r. \<not> is_v4 r) routes\<rparr>) b)"
  by (induction routes "(a, b)" arbitrary: a b rule: to020_routes.induct)
    (auto simp: add_route020_def option.map_comp comp_def map_option_case split: option.splits)

lemma convertTo020_eq: "convertTo020 r =
    (if \<forall>c\<in>set (IPs r). IPVersion c \<noteq> ''4'' \<and> IPVersion c \<noteq> ''6'' then Inl no_valid_addresses
     else Inr \<lparr>CNIVersion020 = ''0.2.0'',
       IP4 = map_option (\<lambda>c. c\<lparr>Routes020 := filter is_v4 (Routes r)\<rparr>) (first_of ''4'' (IPs r)),
       IP6 = map_option (\<lambda>c. c\<lparr>Routes020 := filter (\<lambda>r. \<not> is_v4 r) (Routes r)\<rparr>) (first_of ''6'' (IPs r)),
       DNS020 = ResDNS r\<rparr>)"
proof -
  have nil: "map_option (\<lambda>c. c\<lparr>Routes020 := Routes020 c @ rs\<rparr>) (first_of v ips) = map_option (\<lambda>c. c\<lparr>Routes020 := rs\<rparr>) (first_of v ips)"
    for rs v ips by (induction ips) simp_all
  have none: "first_of ''4'' (IPs r) = None \<and> first_of ''6'' (IPs r) = None \<longleftrightarrow>
      (\<forall>c\<in>set (IPs r). IPVersion c \<noteq> ''4'' \<and> IPVersion c \<noteq> ''6'')"
    by (auto simp: first_of_None_iff)
  show ?thesis
    unfolding none [symmetric]
    by (simp add: convertTo020_def to020_ips_eq to020_routes_eq nil types020_ImplementedSpecVersion_def)
qed

text \<open>The versions the plugin library knows are those a result can be printed in.\<close>

definition known_version :: "string \<Rightarrow> bool" where
  "known_version v \<longleftrightarrow> v \<in> set types020_SupportedVersions \<union> set current_SupportedVersions"

lemma GetAsVersion_fails:
  assumes "known_version v"
  shows "current_GetAsVersion r v = Inl err \<longleftrightarrow>
    err = no_valid_addresses \<and> v \<in> set types020_SupportedVersions \<and> (\<forall>c\<in>set (IPs r). IPVersion c \<noteq> ''4'' \<and> IPVersion c \<noteq> ''6'')"
  using assms
  by (auto simp: current_GetAsVersion_def known_version_def convertTo020_eq current_ImplementedSpecVersion_def
    types020_SupportedVersions_def current_SupportedVersions_def)

lemma CheckRaw_None: "CheckRaw v vs = None \<longleftrightarrow> v \<in> set vs"
proof -
  have "CheckRaw_loop v vs \<longleftrightarrow> v \<in> set vs" by (induction vs) auto
  then show ?thesis by (simp add: CheckRaw_def)
qed

definition accepted :: "string \<Rightarrow> bool" where
  "accepted v \<longleftrightarrow> v \<in> {''0.1.0'', ''0.2.0'', ''0.3.0'', ''0.3.1''}"

lemma Check_All: "version_All = Returns info \<Longrightarrow> Reconciler_Check v info = None \<longleftrightarrow> accepted v"
  by (auto simp: version_All_def PluginSupports_def Reconciler_Check_def CheckRaw_None accepted_def)

text \<open>Every route of an older result belongs to the family of its address, and names its gateway.\<close>

definition wellformed020 :: "Result020 \<Rightarrow> bool" where
  "wellformed020 old \<longleftrightarrow> (IP4 old \<noteq> None \<or> IP6 old \<noteq> None) \<and>
     (\<forall>c. IP4 old = Some c \<longrightarrow> (\<forall>r\<in>set (Routes020 c). is_v4 r)) \<and>
     (\<forall>c. IP6 old = Some c \<longrightarrow> (\<forall>r\<in>set (Routes020 c). \<not> is_v4 r))"

definition routed_by_gateway :: "IPConfig020 \<Rightarrow> IPConfig020" where
  "routed_by_gateway c = c\<lparr>Routes020 := from020_routes c\<rparr>"

lemma is_v4_gateway [simp]: "is_v4 (r\<lparr>RouteGW := g\<rparr>) = is_v4 r"
  by (simp add: is_v4_def)

lemma convert_roundtrip:
  assumes "wellformed020 old"
  shows "\<exists>r. convertFrom020 (Old old) = Inr r \<and>
    convertTo020 r = Inr (old\<lparr>CNIVersion020 := ''0.2.0'', IP4 := map_option routed_by_gateway (IP4 old), IP6 := map_option routed_by_gateway (IP6 old)\<rparr>)"
proof -
  have keep: "filter is_v4 (from020_routes c) = from020_routes c" if "\<forall>r\<in>set (Routes020 c). is_v4 r" for c
    using that by (auto simp: from020_routes_def filter_id_conv)
  have drop: "filter is_v4 (from020_routes c) = []" if "\<forall>r\<in>set (Routes020 c). \<not> is_v4 r" for c
    using that by (auto simp: from020_routes_def filter_empty_conv)
  have keep': "filter (\<lambda>r. \<not> is_v4 r) (from020_routes c) = from020_routes c" if "\<forall>r\<in>set (Routes020 c). \<not> is_v4 r" for c
    using that by (auto simp: from020_routes_def filter_id_conv)
  have drop': "filter (\<lambda>r. \<not> is_v4 r) (from020_routes c) = []" if "\<forall>r\<in>set (Routes020 c). is_v4 r" for c
    using that by (auto simp: from020_routes_def filter_empty_conv)
  show ?thesis
    using assms
    by (cases "IP4 old"; cases "IP6 old")
      (auto simp: wellformed020_def convertFrom020_def types020_GetResult_def types020_GetAsVersion_def types020_ImplementedSpecVersion_def
        types020_SupportedVersions_def opt_def from020_ip_def Let_def convertTo020_eq routed_by_gateway_def keep drop keep' drop')
qed

subsection \<open>Properties\<close>



end
