(* ===== verification/Cni_Plugin.thy ===== *)
theory Cni_Plugin
  imports Go_Exec Cni_Result
begin

text \<open>
  The CNI plugin, \<open>cmd/kube-ovs-cni/plugin.go\<close>: the kubelet runs it to attach a pod to the
  bridge (\<open>cmdAdd\<close>) and to detach it (\<open>cmdDel\<close>).

  Netlink, network namespaces, iptables, files, the process environment and the run of the
  address management plugin (IPAM) are fields of \<open>CniEnv\<close>, operations on a host state. Entering and leaving a network namespace
  around a closure (\<open>netns.Do\<close>) are the operations \<open>EnterNS\<close> and \<open>LeaveNS\<close>. A nil \<open>net.IP\<close> is
  the empty list.
\<close>

abbreviation (input) defaultBridgeName :: string where "defaultBridgeName \<equiv> ''kube-ovs0''"
abbreviation (input) FAMILY_V4 :: nat where "FAMILY_V4 \<equiv> 2"
abbreviation (input) FAMILY_V6 :: nat where "FAMILY_V6 \<equiv> 10"

subsection \<open>Configuration\<close>

record NetConf =
  CNIVersion :: string
  NetName :: string
  NetType :: string
  Capabilities :: "(string \<times> bool) list"
  IPAMType :: string
  NetDNS :: DNS
  BridgeName :: string
  IsGW :: bool
  IsDefaultGW :: bool
  ForceAddress :: bool
  IPMasq :: bool
  MTU :: int
  HairpinMode :: bool
  PromiscMode :: bool

fun dec_caps :: "(string \<times> json) list \<Rightarrow> (string \<times> bool) list \<Rightarrow> (string \<times> bool) list result" where
  "dec_caps [] m = Inr m"
| "dec_caps ((k, v) # kvs) m = (case dec_bool v False of Inl e \<Rightarrow> Inl e | Inr b \<Rightarrow> dec_caps kvs ((k, b) # m))"

definition dec_dns :: "(string \<times> json) list \<Rightarrow> DNS \<Rightarrow> DNS result" where
  "dec_dns kvs d =
     rbind (field ''nameservers'' (dec_slice dec_string []) kvs (Nameservers d)) (\<lambda>a.
     rbind (field ''domain'' dec_string kvs (Domain d)) (\<lambda>b.
     rbind (field ''search'' (dec_slice dec_string []) kvs (Search d)) (\<lambda>c.
     rbind (field ''options'' (dec_slice dec_string []) kvs (Options d)) (\<lambda>e.
     Inr \<lparr>Nameservers = a, Domain = b, Search = c, Options = e\<rparr>))))"

text \<open>
  The keys of \<open>NetConf\<close>. The tag of \<open>IsGW\<close> lacks its closing quote; \<open>encoding/json\<close> ignores a
  malformed tag, so the key of that field is its Go name.
\<close>

definition dec_netconf :: "(string \<times> json) list \<Rightarrow> NetConf \<Rightarrow> NetConf result" where
  "dec_netconf kvs n =
     rbind (field ''cniVersion'' dec_string kvs (CNIVersion n)) (\<lambda>version.
     rbind (field ''name'' dec_string kvs (NetName n)) (\<lambda>nm.
     rbind (field ''type'' dec_string kvs (NetType n)) (\<lambda>ty.
     rbind (field ''capabilities'' (dec_struct dec_caps) kvs (Capabilities n)) (\<lambda>caps.
     rbind (field ''ipam'' (dec_struct (field ''type'' dec_string)) kvs (IPAMType n)) (\<lambda>ipam.
     rbind (field ''dns'' (dec_struct dec_dns) kvs (NetDNS n)) (\<lambda>dns.
     rbind (field ''bridge'' dec_string kvs (BridgeName n)) (\<lambda>bridge.
     rbind (field ''IsGW'' dec_bool kvs (IsGW n)) (\<lambda>isGW.
     rbind (field ''isDefaultGateway'' dec_bool kvs (IsDefaultGW n)) (\<lambda>isDefaultGW.
     rbind (field ''forceAddress'' dec_bool kvs (ForceAddress n)) (\<lambda>force.
     rbind (field ''ipMasq'' dec_bool kvs (IPMasq n)) (\<lambda>masq.
     rbind (field ''mtu'' dec_int kvs (MTU n)) (\<lambda>mtu.
     rbind (field ''hairpinMode'' dec_bool kvs (HairpinMode n)) (\<lambda>hairpin.
     rbind (field ''promiscMode'' dec_bool kvs (PromiscMode n)) (\<lambda>promisc.
     Inr \<lparr>CNIVersion = version, NetName = nm, NetType = ty, Capabilities = caps, IPAMType = ipam,
       NetDNS = dns, BridgeName = bridge, IsGW = isGW, IsDefaultGW = isDefaultGW, ForceAddress = force,
       IPMasq = masq, MTU = mtu, HairpinMode = hairpin, PromiscMode = promisc\<rparr>))))))))))))))"

definition new_netconf :: NetConf where
  "new_netconf = \<lparr>CNIVersion = [], NetName = [], NetType = [], Capabilities = [], IPAMType = [],
     NetDNS = \<lparr>Nameservers = [], Domain = [], Search = [], Options = []\<rparr>,
     BridgeName = defaultBridgeName, IsGW = False, IsDefaultGW = False, ForceAddress = False,
     IPMasq = False, MTU = 0, HairpinMode = False, PromiscMode = False\<rparr>"

definition loadNetConf :: "string \<Rightarrow> (NetConf \<times> string) result" where
  "loadNetConf bytes =
     (case json_Parse bytes of
        None \<Rightarrow> Inl (Wrapf ''failed to load netconf: %v'' [] (OpaqueError ''json: syntax error''))
      | Some v \<Rightarrow>
          (case dec_struct dec_netconf v new_netconf of
             Inl err \<Rightarrow> Inl (Wrapf ''failed to load netconf: %v'' [] err)
           | Inr n \<Rightarrow> Inr (n, CNIVersion n)))"

subsection \<open>Interfaces, addresses and the environment\<close>

record CmdArgs =
  ContainerID :: string
  Netns :: string
  ArgIfName :: string
  CniArgs :: string
  CniPath :: string
  StdinData :: string

text \<open>A netlink link, by its name and hardware address.\<close>

record Link =
  LinkName :: string
  LinkHardwareAddr :: HardwareAddr

record 'e CniEnv = "'e Exec" +
  env_Getenv :: "string \<Rightarrow> ('e, string) state"
  env_Setenv :: "string \<Rightarrow> string \<Rightarrow> ('e, unit) state"
  env_LinkByName :: "string \<Rightarrow> ('e, Link) go"
  env_LinkSetUp :: "Link \<Rightarrow> ('e, unit) go"
  env_LinkSetHardwareAddr :: "Link \<Rightarrow> HardwareAddr \<Rightarrow> ('e, unit) go"
  env_AddrList :: "Link \<Rightarrow> nat \<Rightarrow> ('e, IPNet list) go"
  env_AddrAdd :: "Link \<Rightarrow> IPNet \<Rightarrow> ('e, unit) go"
  env_AddrDel :: "Link \<Rightarrow> IPNet \<Rightarrow> ('e, unit) go"
  env_GetNS :: "string \<Rightarrow> ('e, unit) go"
  env_CloseNS :: "string \<Rightarrow> ('e, unit) state"
  env_EnterNS :: "string \<Rightarrow> ('e, unit) go"
  env_LeaveNS :: "string \<Rightarrow> ('e, unit) state"
  env_SetupVeth :: "string \<Rightarrow> int \<Rightarrow> ('e, string \<times> Link) go"
  env_InterfaceByName :: "string \<Rightarrow> ('e, unit) go"
  env_DelLinkByNameAddr :: "string \<Rightarrow> ('e, IPNet list) go"
  env_ReadFile :: "string \<Rightarrow> ('e, string) go"
  env_WriteFile :: "string \<Rightarrow> string \<Rightarrow> nat \<Rightarrow> ('e, unit) go"
  env_Join :: "string \<Rightarrow> string \<Rightarrow> string"
  env_IsRegular :: "string \<Rightarrow> bool"
  env_ExecPlugin :: "string \<Rightarrow> string \<Rightarrow> ('e, string) go"
  env_Decoder :: ResultDecoder
  env_ConfigureIface :: "string \<Rightarrow> Result \<Rightarrow> ('e, unit) go"
  env_GratuitousArp :: "IP \<Rightarrow> string \<Rightarrow> ('e, unit) go"
  env_EnableIP4Forward :: "('e, unit) go"
  env_EnableIP6Forward :: "('e, unit) go"
  env_FormatChainName :: "string \<Rightarrow> string \<Rightarrow> string"
  env_FormatComment :: "string \<Rightarrow> string \<Rightarrow> string"
  env_SetupIPMasq :: "IPNet \<Rightarrow> string \<Rightarrow> string \<Rightarrow> ('e, unit) go"
  env_TeardownIPMasq :: "IPNet \<Rightarrow> string \<Rightarrow> string \<Rightarrow> ('e, unit) go"
  env_PrintCurrent :: "Result \<Rightarrow> ('e, unit) go"
  env_Print020 :: "Result020 \<Rightarrow> ('e, unit) go"

text \<open>\<open>netns.Do(m)\<close> and \<open>ns.WithNetNSPath\<close>: \<open>m\<close> runs in the namespace, which is left in any case.\<close>

definition ns_Do :: "('e, 'z) CniEnv_scheme \<Rightarrow> string \<Rightarrow> ('e, 'a) go \<Rightarrow> ('e, 'a) go" where
  "ns_Do env path m =
     go_bind (env_EnterNS env path) (\<lambda>_.
     State_Monad.bind m (\<lambda>r. State_Monad.bind (env_LeaveNS env path) (\<lambda>_. State_Monad.return r)))"

definition bridgeByName :: "('e, 'z) CniEnv_scheme \<Rightarrow> string \<Rightarrow> ('e, Link) go" where
  "bridgeByName env nm = go_wrap (Wrapf ''could not lookup %q: %v'' [nm]) (env_LinkByName env nm)"

definition getBridgeInterface :: "('e, 'z) CniEnv_scheme \<Rightarrow> ('e, Interface) go" where
  "getBridgeInterface env =
     go_bind (go_wrap (Wrapf ''failed to fetch bridge %q: %v'' [defaultBridgeName]) (bridgeByName env defaultBridgeName))
     (\<lambda>br. go_return \<lparr>IfaceName = LinkName br, Mac = hw_String (LinkHardwareAddr br), Sandbox = []\<rparr>)"

subsection \<open>The address management plugin and the printed result\<close>

text \<open>
  \<open>ipam.ExecAdd\<close> and \<open>ipam.ExecDel\<close>, the delegation of \<open>cni/pkg/invoke\<close>: both ask the process
  environment which command runs, look the plugin up in \<open>CNI_PATH\<close> and run it with the environment
  of this process. \<open>env_Join\<close> is \<open>filepath.Join\<close>, \<open>env_IsRegular\<close> tells whether a path is a regular file.
\<close>

fun FindInPath_loop :: "('e, 'z) CniEnv_scheme \<Rightarrow> string \<Rightarrow> string list \<Rightarrow> string option" where
  "FindInPath_loop env plugin [] = None"
| "FindInPath_loop env plugin (path # paths) =
     (let fullpath = env_Join env path plugin
      in if env_IsRegular env fullpath then Some fullpath else FindInPath_loop env plugin paths)"

definition FindInPath :: "('e, 'z) CniEnv_scheme \<Rightarrow> string \<Rightarrow> string list \<Rightarrow> string result" where
  "FindInPath env plugin paths =
     (if plugin = [] then Inl (Errorf ''no plugin name provided'' [])
      else if paths = [] then Inl (Errorf ''no paths provided'' [])
      else (case FindInPath_loop env plugin paths of
              Some fullpath \<Rightarrow> Inr fullpath
            | None \<Rightarrow> Inl (Errorf ''failed to find plugin %q in path %s'' (plugin # paths))))"

definition filepath_SplitList :: "string \<Rightarrow> string list" where
  "filepath_SplitList path = (if path = [] then [] else strings_Split path (CHR '':''))"

definition exec_delegate :: "('e, 'z) CniEnv_scheme \<Rightarrow> string \<Rightarrow> string \<Rightarrow> ('e, string) go" where
  "exec_delegate env delegatePlugin netconf =
     State_Monad.bind (env_Getenv env ''CNI_PATH'') (\<lambda>paths.
     go_bind (go_lift (FindInPath env delegatePlugin (filepath_SplitList paths))) (\<lambda>pluginPath.
     env_ExecPlugin env pluginPath netconf))"

text \<open>The result comes in the version the configuration asks for.\<close>

definition decode_delegated :: "('e, 'z) CniEnv_scheme \<Rightarrow> string \<Rightarrow> string \<Rightarrow> AnyResult result" where
  "decode_delegated env netconf stdoutBytes =
     rbind (ConfigDecoder_Decode netconf) (\<lambda>confVersion. version_NewResult (env_Decoder env) confVersion stdoutBytes)"

definition ExecAdd :: "('e, 'z) CniEnv_scheme \<Rightarrow> string \<Rightarrow> string \<Rightarrow> ('e, AnyResult) go" where
  "ExecAdd env delegatePlugin netconf =
     State_Monad.bind (env_Getenv env ''CNI_COMMAND'') (\<lambda>command.
     if command \<noteq> ''ADD'' then go_fail (Errorf ''CNI_COMMAND is not ADD'' [])
     else go_bind (exec_delegate env delegatePlugin netconf) (\<lambda>stdoutBytes.
          go_lift (decode_delegated env netconf stdoutBytes)))"

definition ExecDel :: "('e, 'z) CniEnv_scheme \<Rightarrow> string \<Rightarrow> string \<Rightarrow> ('e, unit) go" where
  "ExecDel env delegatePlugin netconf =
     State_Monad.bind (env_Getenv env ''CNI_COMMAND'') (\<lambda>command.
     if command \<noteq> ''DEL'' then go_fail (Errorf ''CNI_COMMAND is not DEL'' [])
     else go_bind (exec_delegate env delegatePlugin netconf) (\<lambda>_. go_return ()))"

text \<open>\<open>types.PrintResult\<close>.\<close>

definition PrintResult :: "('e, 'z) CniEnv_scheme \<Rightarrow> Result \<Rightarrow> string \<Rightarrow> ('e, unit) go" where
  "PrintResult env result version =
     go_bind (go_lift (current_GetAsVersion result version)) (\<lambda>newResult.
     case newResult of Current r \<Rightarrow> env_PrintCurrent env r | Old r \<Rightarrow> env_Print020 env r)"

subsection \<open>The pod and its port\<close>

fun podInfo_loop :: "string list \<Rightarrow> string \<times> string \<Rightarrow> string \<times> string" where
  "podInfo_loop [] (podNamespace, podName) = (podNamespace, podName)"
| "podInfo_loop (arg # args) (podNamespace, podName) =
     (if strings_Contains arg ''K8S_POD_NAMESPACE''
      then podInfo_loop args (strings_TrimPrefix arg ''K8S_POD_NAMESPACE='', podName)
      else if strings_Contains arg ''K8S_POD_NAME''
      then podInfo_loop args (podNamespace, strings_TrimPrefix arg ''K8S_POD_NAME='')
      else podInfo_loop args (podNamespace, podName))"

definition getPodInfo :: "('e, 'z) CniEnv_scheme \<Rightarrow> ('e, string \<times> string) go" where
  "getPodInfo env =
     State_Monad.bind (env_Getenv env ''CNI_ARGS'') (\<lambda>cniArgs.
     if cniArgs = [] then go_fail (Errorf ''env var CNI_ARGS was empty'' [])
     else go_return (podInfo_loop (strings_Split cniArgs (CHR '';'')) ([], [])))"

definition normalizedNetNS :: "string \<Rightarrow> string" where
  "normalizedNetNS netns = strings_Remove netns (CHR ''/'')"

definition pod_ids :: "string \<Rightarrow> string \<Rightarrow> string \<Rightarrow> string list" where
  "pod_ids netNS podNamespace podName =
     [''external-ids:netns='' @ normalizedNetNS netNS,
      ''external-ids:k8s_pod_namespace='' @ podNamespace,
      ''external-ids:k8s_pod_name='' @ podName]"

definition addPort ::
    "('e, 'z) CniEnv_scheme \<Rightarrow> string \<Rightarrow> string \<Rightarrow> string \<Rightarrow> string \<Rightarrow> string \<Rightarrow> string \<Rightarrow> ('e, unit) go" where
  "addPort env bridgeName port containerMac netNS podNamespace podName =
     go_bind (go_wrap (Wrapf ''failed to add OVS port %q to bridge %q, err: %v'' [port, bridgeName])
       (CombinedOutput env ''ovs-vsctl''
         ([''--may-exist'', ''add-port'', bridgeName, port, ''--'', ''set'', ''port'', port] @
          pod_ids netNS podNamespace podName @
          [''--'', ''set'', ''interface'', port] @ pod_ids netNS podNamespace podName @
          [''--'', ''set'', ''port'', port, ''mac='' @ [CHR 0x22] @ containerMac @ [CHR 0x22]])))
     (\<lambda>_. go_return ())"

definition delPort :: "('e, 'z) CniEnv_scheme \<Rightarrow> string \<Rightarrow> string \<Rightarrow> ('e, unit) go" where
  "delPort env bridge port =
     go_bind (go_wrap (Wrapf ''failed to delete OVS port %q on bridge %q, err: %v, output: %q'' [port, bridge])
       (CombinedOutput env ''ovs-vsctl'' [''--if-exists'', ''del-port'', bridge, port]))
     (\<lambda>_. go_return ())"

definition cni_findPort ::
    "('e, 'z) CniEnv_scheme \<Rightarrow> string \<Rightarrow> string \<Rightarrow> string \<Rightarrow> string \<Rightarrow> ('e, string) gop" where
  "cni_findPort env bridge netNS podNamespace podName =
     gop_bind (gop_wrap (Wrapf ''failed to get OVS port with net namespace %q from bridge %q, err: %v'' [netNS, bridge])
       (gop_of (Output env ''ovs-vsctl''
         ([''--format=json'', ''--column=name'', ''find'', ''port''] @ pod_ids netNS podNamespace podName)))) (\<lambda>out.
     gop_bind (gop_lift (unmarshal_Data out)) (\<lambda>data.
     case data of
       [] \<Rightarrow> gop_fail (Errorf ''OVS port for %s/%s was not found, OVS DB data: %v, output: %q''
               [podNamespace, podName, [], out])
     | row # _ \<Rightarrow> (case row of [] \<Rightarrow> gop_panic IndexOutOfRange | portName # _ \<Rightarrow> gop_return portName)))"

definition setupVeth :: "('e, 'z) CniEnv_scheme \<Rightarrow> string \<Rightarrow> string \<Rightarrow> ('e, Interface \<times> Interface) go" where
  "setupVeth env netns ifName =
     go_bind (ns_Do env netns (env_SetupVeth env ifName 1500)) (\<lambda>(hostName, containerVeth).
     let contIface = \<lparr>IfaceName = LinkName containerVeth, Mac = hw_String (LinkHardwareAddr containerVeth), Sandbox = netns\<rparr>
     in
     go_bind (go_wrap (Wrapf ''failed to lookup %q: %v'' [hostName]) (env_LinkByName env hostName)) (\<lambda>hostVeth.
     go_return (\<lparr>IfaceName = hostName, Mac = hw_String (LinkHardwareAddr hostVeth), Sandbox = []\<rparr>, contIface)))"

subsection \<open>Gateways\<close>

definition calcGatewayIP :: "IPNet \<Rightarrow> IP" where
  "calcGatewayIP ipn = NextIP (IP_Mask (NetIP ipn) (NetMask ipn))"

text \<open>\<open>net.IPNet.String\<close>: the mask as a length when it is one, otherwise in hexadecimal.\<close>

fun simpleMaskLength :: "IPMask \<Rightarrow> nat option" where
  "simpleMaskLength [] = Some 0"
| "simpleMaskLength (v # ms) =
     (if v = 0xff then map_option ((+) 8) (simpleMaskLength ms)
      else (case find (\<lambda>n. v = mask_byte n) [0..<8] of
              Some n \<Rightarrow> if list_all (\<lambda>m. m = 0) ms then Some n else None
            | None \<Rightarrow> None))"

definition IPNet_String :: "IPNet \<Rightarrow> string" where
  "IPNet_String n =
     (case networkNumberAndMask n of
        None \<Rightarrow> ''<nil>''
      | Some (nn, m) \<Rightarrow>
          (case simpleMaskLength m of
             None \<Rightarrow> IP_String nn @ ''/'' @ concat (map hex2 m)
           | Some l \<Rightarrow> IP_String nn @ ''/'' @ nat_string l))"

record gwInfo =
  gws :: "IPNet list"
  family :: nat
  defaultRouteFound :: bool

definition IPv4zero :: IP where
  "IPv4zero = v4InV6Prefix @ [0, 0, 0, 0]"

definition IPv6zero :: IP where
  "IPv6zero = replicate 16 0"

text \<open>
  One turn of the loop of \<open>calcGateways\<close> on an address and the two \<open>gwInfo\<close> and the routes so
  far; the address is returned with its interface and gateway filled in.
\<close>

definition default_route :: "IP \<Rightarrow> IP \<Rightarrow> bool \<Rightarrow> gwInfo \<Rightarrow> Route list \<Rightarrow> gwInfo \<times> Route list" where
  "default_route zero gateway isDefaultGW g routes =
     (if isDefaultGW \<and> \<not> defaultRouteFound g then
        (let defaultNet = \<lparr>NetIP = zero, NetMask = zero\<rparr>;
             found = list_ex (\<lambda>r. RouteGW r \<noteq> [] \<and> IPNet_String defaultNet = IPNet_String (RouteDst r)) routes
         in (g\<lparr>defaultRouteFound := True\<rparr>,
             if found then routes else routes @ [\<lparr>RouteDst = defaultNet, RouteGW = gateway\<rparr>]))
      else (g, routes))"

definition calc_one :: "NetConf \<Rightarrow> nat \<Rightarrow> IP \<Rightarrow> IPConfig \<Rightarrow> gwInfo \<Rightarrow> Route list \<Rightarrow> IPConfig \<times> gwInfo \<times> Route list" where
  "calc_one n fam zero ipc g routes =
     (let g = g\<lparr>family := fam\<rparr>;
          ipc = ipc\<lparr>IfIndex := Some 2\<rparr>;
          ipc = (if Gateway ipc = [] \<and> IsGW n then ipc\<lparr>Gateway := calcGatewayIP (IPAddress ipc)\<rparr> else ipc);
          (g, routes) = default_route zero (Gateway ipc) (IsDefaultGW n) g routes;
          g = (if IsGW n then g\<lparr>gws := gws g @ [\<lparr>NetIP = Gateway ipc, NetMask = NetMask (IPAddress ipc)\<rparr>]\<rparr> else g)
      in (ipc, g, routes))"

fun calc_loop ::
    "NetConf \<Rightarrow> IPConfig list \<Rightarrow> gwInfo \<Rightarrow> gwInfo \<Rightarrow> Route list \<Rightarrow> (IPConfig list \<times> gwInfo \<times> gwInfo \<times> Route list) result" where
  "calc_loop n [] g4 g6 routes = Inr ([], g4, g6, routes)"
| "calc_loop n (ipc # ips) g4 g6 routes =
     (if To4 (NetIP (IPAddress ipc)) \<noteq> None then
        (case calc_one n FAMILY_V4 IPv4zero ipc g4 routes of
           (ipc', g4', routes') \<Rightarrow> rbind (calc_loop n ips g4' g6 routes') (\<lambda>(ips', r). Inr (ipc' # ips', r)))
      else if length (NetIP (IPAddress ipc)) = 16 then
        (case calc_one n FAMILY_V6 IPv6zero ipc g6 routes of
           (ipc', g6', routes') \<Rightarrow> rbind (calc_loop n ips g4 g6' routes') (\<lambda>(ips', r). Inr (ipc' # ips', r)))
      else Inl (Errorf ''Unknown IP object: %v'' []))"

definition new_gwInfo :: gwInfo where
  "new_gwInfo = \<lparr>gws = [], family = 0, defaultRouteFound = False\<rparr>"

text \<open>The result with the addresses and routes updated, and the gateways of the two families.\<close>

definition calcGateways :: "Result \<Rightarrow> NetConf \<Rightarrow> (Result \<times> gwInfo \<times> gwInfo) result" where
  "calcGateways res n =
     rbind (calc_loop n (IPs res) new_gwInfo new_gwInfo (Routes res)) (\<lambda>(ips, g4, g6, routes).
     Inr (res\<lparr>IPs := ips, Routes := routes\<rparr>, g4, g6))"

definition disableIPV6DAD :: "('e, 'z) CniEnv_scheme \<Rightarrow> string \<Rightarrow> ('e, unit) go" where
  "disableIPV6DAD env ifName =
     State_Monad.bind (env_ReadFile env (''/proc/sys/net/ipv6/conf/'' @ ifName @ ''/enhanced_dad'')) (\<lambda>enh.
     if enh = Inr (''1'' @ [CHR 0x0A]) then go_return ()
     else env_WriteFile env (''/proc/sys/net/ipv6/conf/'' @ ifName @ ''/accept_dad'') ''0'' 420)"

definition enableIPForward :: "('e, 'z) CniEnv_scheme \<Rightarrow> nat \<Rightarrow> ('e, unit) go" where
  "enableIPForward env fam = (if fam = FAMILY_V4 then env_EnableIP4Forward env else env_EnableIP6Forward env)"

subsection \<open>The bridge address\<close>

definition ENOENT :: go_error where
  "ENOENT = OpaqueError ''no such file or directory''"

definition deleteBridgeAddr :: "('e, 'z) CniEnv_scheme \<Rightarrow> Link \<Rightarrow> IPNet \<Rightarrow> ('e, unit) go" where
  "deleteBridgeAddr env br ipn =
     go_wrap (Wrapf ''could not remove IP address from %q: %v'' [LinkName br]) (env_AddrDel env br ipn)"

text \<open>The loop over the addresses: \<open>True\<close> when the address is there already and the function returns.\<close>

fun bridge_addr_loop ::
    "('e, 'z) CniEnv_scheme \<Rightarrow> Link \<Rightarrow> nat \<Rightarrow> IPNet \<Rightarrow> bool \<Rightarrow> IPNet list \<Rightarrow> ('e, bool) go" where
  "bridge_addr_loop env br fam ipn forceAddress [] = go_return False"
| "bridge_addr_loop env br fam ipn forceAddress (a # addrs) =
     (if IPNet_String a = IPNet_String ipn then go_return True
      else if fam = FAMILY_V4 \<or> IPNet_Contains a (NetIP ipn) \<or> IPNet_Contains ipn (NetIP a) then
        (if forceAddress
         then go_bind (deleteBridgeAddr env br a) (\<lambda>_. bridge_addr_loop env br fam ipn forceAddress addrs)
         else go_fail (Errorf ''%q already has an IP address different from %v'' [LinkName br, IPNet_String ipn]))
      else bridge_addr_loop env br fam ipn forceAddress addrs)"

definition ensureBridgeAddr :: "('e, 'z) CniEnv_scheme \<Rightarrow> Link \<Rightarrow> nat \<Rightarrow> IPNet \<Rightarrow> bool \<Rightarrow> ('e, unit) go" where
  "ensureBridgeAddr env br fam ipn forceAddress =
     State_Monad.bind (env_AddrList env br fam) (\<lambda>r.
     case (case r of Inl err \<Rightarrow> if err = ENOENT then Inr [] else Inl err | Inr addrs \<Rightarrow> Inr addrs) of
       Inl err \<Rightarrow> go_fail (Wrapf ''could not get list of IP addresses: %v'' [] err)
     | Inr addrs \<Rightarrow>
         go_bind (bridge_addr_loop env br fam ipn forceAddress addrs) (\<lambda>present.
         if present then go_return ()
         else
           go_bind (go_wrap (Wrapf ''could not add IP address to %q: %v'' [LinkName br]) (env_AddrAdd env br ipn)) (\<lambda>_.
           go_wrap (Wrapf ''could not set bridge's mac: %v'' []) (env_LinkSetHardwareAddr env br (LinkHardwareAddr br)))))"

subsection \<open>Adding a pod\<close>

fun for_each :: "('a \<Rightarrow> ('e, unit) go) \<Rightarrow> 'a list \<Rightarrow> ('e, unit) go" where
  "for_each f [] = go_return ()"
| "for_each f (x # xs) = go_bind (f x) (\<lambda>_. for_each f xs)"

text \<open>A call whose error is dropped.\<close>

definition ignore :: "('e, 'a) go \<Rightarrow> ('e, unit) go" where
  "ignore m = State_Monad.bind m (\<lambda>_. go_return ())"

text \<open>The closure that configures the container's interface.\<close>

definition configure_container :: "('e, 'z) CniEnv_scheme \<Rightarrow> CmdArgs \<Rightarrow> NetConf \<Rightarrow> Result \<Rightarrow> ('e, unit) go" where
  "configure_container env args netConf res =
     go_bind (env_InterfaceByName env (ArgIfName args)) (\<lambda>contVeth.
     go_bind (if list_ex (\<lambda>ipc. IPVersion ipc = ''6'' \<and> (HairpinMode netConf \<or> PromiscMode netConf)) (IPs res)
              then disableIPV6DAD env (ArgIfName args) else go_return ()) (\<lambda>_.
     go_bind (env_ConfigureIface env (ArgIfName args) res) (\<lambda>_.
     for_each (\<lambda>ipc. if IPVersion ipc = ''4''
                     then ignore (env_GratuitousArp env (NetIP (IPAddress ipc)) (ArgIfName args))
                     else go_return ()) (IPs res))))"

definition setup_gateways :: "('e, 'z) CniEnv_scheme \<Rightarrow> NetConf \<Rightarrow> gwInfo \<Rightarrow> ('e, unit) go" where
  "setup_gateways env netConf g =
     go_bind (for_each (\<lambda>gw.
        go_bind (go_wrap (Wrapf ''failed to get bridge link: %v'' []) (bridgeByName env (BridgeName netConf))) (\<lambda>br.
        go_wrap (Wrapf ''failed to set bridge addr: %v'' []) (ensureBridgeAddr env br (family g) gw True))) (gws g)) (\<lambda>_.
     if gws g \<noteq> [] then go_wrap (Wrapf ''failed to enable forwarding: %v'' []) (enableIPForward env (family g))
     else go_return ())"

text \<open>From the result of the IPAM plugin to the end of its block.\<close>

definition configure_addresses ::
    "('e, 'z) CniEnv_scheme \<Rightarrow> CmdArgs \<Rightarrow> NetConf \<Rightarrow> Result \<Rightarrow> AnyResult \<Rightarrow> ('e, Result) go" where
  "configure_addresses env args netConf res r =
     go_bind (go_lift (NewResultFromResult r)) (\<lambda>ipamResult.
     let res = res\<lparr>IPs := IPs ipamResult, Routes := Routes ipamResult\<rparr> in
     if IPs res = [] then go_fail (Errorf ''IPAM plugin returned missing IP config'' [])
     else
     go_bind (go_lift (calcGateways res netConf)) (\<lambda>(res, gwsV4, gwsV6).
     go_bind (go_wrap (Wrapf ''failed to configure container addresses: %v'' [])
                (ns_Do env (Netns args) (configure_container env args netConf res))) (\<lambda>_.
     go_bind (if IsGW netConf then for_each (setup_gateways env netConf) [gwsV4, gwsV6] else go_return ()) (\<lambda>_.
     go_bind (if IPMasq netConf then
                for_each (\<lambda>ipc. env_SetupIPMasq env (ip_Network (IPAddress ipc))
                  (env_FormatChainName env (NetName netConf) (ContainerID args))
                  (env_FormatComment env (NetName netConf) (ContainerID args))) (IPs res)
              else go_return ()) (\<lambda>_.
     go_return res)))))"

text \<open>The bridge is fetched again at the end; its address goes into the first interface.\<close>

definition refetch_bridge :: "('e, 'z) CniEnv_scheme \<Rightarrow> NetConf \<Rightarrow> Interface \<Rightarrow> Result \<Rightarrow> ('e, Result) go" where
  "refetch_bridge env netConf bridge res =
     go_bind (bridgeByName env (BridgeName netConf)) (\<lambda>br.
     go_return (res\<lparr>Interfaces := (bridge\<lparr>Mac := hw_String (LinkHardwareAddr br)\<rparr>) # tl (Interfaces res),
       ResDNS := NetDNS netConf\<rparr>))"

text \<open>The deferred release of the address: it runs when \<open>m\<close> fails.\<close>

definition release_on_error :: "('e, 'z) CniEnv_scheme \<Rightarrow> CmdArgs \<Rightarrow> NetConf \<Rightarrow> ('e, 'a) go \<Rightarrow> ('e, 'a) go" where
  "release_on_error env args netConf m =
     State_Monad.bind m (\<lambda>r. case r of
        Inr x \<Rightarrow> go_return x
      | Inl err \<Rightarrow>
          State_Monad.bind (env_Setenv env ''CNI_COMMAND'' ''DEL'') (\<lambda>_.
          State_Monad.bind (ExecDel env (IPAMType netConf) (StdinData args)) (\<lambda>_.
          State_Monad.bind (env_Setenv env ''CNI_COMMAND'' ''ADD'') (\<lambda>_.
          go_fail err))))"

text \<open>
  The addresses and the result; \<open>success\<close> is set before the result is printed, so an error of
  \<open>PrintResult\<close> releases nothing.
\<close>

definition assign_addresses ::
    "('e, 'z) CniEnv_scheme \<Rightarrow> CmdArgs \<Rightarrow> NetConf \<Rightarrow> string \<Rightarrow> Interface \<Rightarrow> Result \<Rightarrow> ('e, unit) go" where
  "assign_addresses env args netConf cniVersion bridge res =
     go_bind
       (if IPAMType netConf \<noteq> [] then
          go_bind (ExecAdd env (IPAMType netConf) (StdinData args)) (\<lambda>r.
          release_on_error env args netConf
            (go_bind (configure_addresses env args netConf res r) (refetch_bridge env netConf bridge)))
        else refetch_bridge env netConf bridge res) (\<lambda>res.
     PrintResult env res cniVersion)"

text \<open>\<open>cmdAdd\<close> between \<open>netns.Open\<close> and its deferred \<open>netns.Close\<close>.\<close>

definition cmdAdd_in_ns :: "('e, 'z) CniEnv_scheme \<Rightarrow> CmdArgs \<Rightarrow> NetConf \<Rightarrow> string \<Rightarrow> Interface \<Rightarrow> ('e, unit) go" where
  "cmdAdd_in_ns env args netConf cniVersion bridge =
     go_bind (setupVeth env (Netns args) (ArgIfName args)) (\<lambda>(hostInterface, containerInterface).
     go_bind (getPodInfo env) (\<lambda>(podNamespace, podName).
     go_bind (addPort env (BridgeName netConf) (IfaceName hostInterface) (Mac containerInterface) (Netns args)
                podNamespace podName) (\<lambda>_.
     go_bind (env_LinkByName env (IfaceName hostInterface)) (\<lambda>hostLink.
     go_bind (env_LinkSetUp env hostLink) (\<lambda>_.
     assign_addresses env args netConf cniVersion bridge
       \<lparr>ResVersion = cniVersion, Interfaces = [bridge, hostInterface, containerInterface], IPs = [],
         Routes = [], ResDNS = \<lparr>Nameservers = [], Domain = [], Search = [], Options = []\<rparr>\<rparr>)))))"

definition cmdAdd :: "('e, 'z) CniEnv_scheme \<Rightarrow> CmdArgs \<Rightarrow> ('e, unit) go" where
  "cmdAdd env args =
     go_bind (go_lift (loadNetConf (StdinData args))) (\<lambda>(netConf, cniVersion).
     go_bind (go_wrap (Wrapf ''failed to setup bridge: %v'' []) (getBridgeInterface env)) (\<lambda>bridge.
     go_bind (go_wrap (Wrapf ''failed to open netns %q: %v'' [Netns args]) (env_GetNS env (Netns args))) (\<lambda>_.
     State_Monad.bind (cmdAdd_in_ns env args netConf cniVersion bridge) (\<lambda>r.
     State_Monad.bind (env_CloseNS env (Netns args)) (\<lambda>_. State_Monad.return r)))))"

subsection \<open>Deleting a pod\<close>

definition ErrLinkNotFound :: go_error where
  "ErrLinkNotFound = OpaqueError ''link not found''"

definition delete_link :: "('e, 'z) CniEnv_scheme \<Rightarrow> string \<Rightarrow> ('e, IPNet list) go" where
  "delete_link env ifName =
     State_Monad.bind (env_DelLinkByNameAddr env ifName) (\<lambda>r. case r of
        Inr ipnets \<Rightarrow> go_return ipnets
      | Inl err \<Rightarrow> if err = ErrLinkNotFound then go_return [] else go_fail err)"

text \<open>From the release of the address to the end.\<close>

definition release_container :: "('e, 'z) CniEnv_scheme \<Rightarrow> CmdArgs \<Rightarrow> NetConf \<Rightarrow> ('e, unit) go" where
  "release_container env args netConf =
     go_bind (if IPAMType netConf \<noteq> [] then ExecDel env (IPAMType netConf) (StdinData args) else go_return ()) (\<lambda>_.
     if Netns args = [] then go_return ()
     else
     go_bind (ns_Do env (Netns args) (delete_link env (ArgIfName args))) (\<lambda>ipnets.
     if IPAMType netConf \<noteq> [] \<and> IPMasq netConf then
       for_each (\<lambda>ipn. env_TeardownIPMasq env ipn
         (env_FormatChainName env (NetName netConf) (ContainerID args))
         (env_FormatComment env (NetName netConf) (ContainerID args))) ipnets
     else go_return ()))"

definition cmdDel :: "('e, 'z) CniEnv_scheme \<Rightarrow> CmdArgs \<Rightarrow> ('e, unit) gop" where
  "cmdDel env args =
     gop_bind (gop_lift (loadNetConf (StdinData args))) (\<lambda>(netConf, _).
     gop_bind (gop_of (getPodInfo env)) (\<lambda>(podNamespace, podName).
     gop_bind
       (if Netns args \<noteq> [] then
          gop_bind (cni_findPort env (BridgeName netConf) (Netns args) podNamespace podName) (\<lambda>portName.
          gop_of (delPort env (BridgeName netConf) portName))
        else gop_return ()) (\<lambda>_.
     gop_of (release_container env args netConf))))"

end
