(* ===== verification/Cni_Properties.thy ===== *)
theory Cni_Properties
  imports Cni_Plugin Node_Agent
begin

text \<open>
  Properties of the CNI plugin: it loads the configuration the node agent installs, it does not
  leak addresses, it attaches and finds ports by the same keys, and it keeps the bridge address.
\<close>

subsection \<open>The installed configuration\<close>

definition plain :: "char \<Rightarrow> bool" where
  "plain c \<longleftrightarrow> c \<noteq> CHR 0x22 \<and> c \<noteq> CHR 0x5C \<and> 0x20 \<le> (of_char c :: nat)"

lemma json_string_plain: "list_all plain s \<Longrightarrow> json_string (s @ CHR 0x22 # r) = Some (s, r)"
  by (induction s) (simp_all add: plain_def)

lemma digit_plain: "is_digit c \<Longrightarrow> plain c"
  by (auto simp: is_digit_def plain_def)

lemma plain_nat_string: "list_all plain (nat_string n)"
  using nat_string_digits [of n] digit_plain by (auto simp: list_all_iff)

lemma plain_cidr: "cidr_of s ip n \<Longrightarrow> list_all plain s"
proof -
  assume "cidr_of s ip n"
  then have s: "s = cidr_string ip n" and "length ip = 4" by (auto simp: cidr_of_def)
  then obtain a b c d where "ip = [a, b, c, d]" by (auto simp: length_Suc_conv eval_nat_numeral)
  then show ?thesis
    using plain_nat_string by (simp add: s cidr_string_def) (simp add: plain_def)
qed

abbreviation conf_ipam :: "string \<Rightarrow> json" where
  "conf_ipam podCIDR \<equiv> JObj [(''type'', JStr ''host-local''), (''subnet'', JStr podCIDR)]"

lemma json_Parse_cni_conf:
  assumes "list_all plain podCIDR"
  shows "json_Parse (cni_conf podCIDR) = Some (JObj
    [(''name'', JStr ''kube-ovs-cni''), (''type'', JStr ''kube-ovs-cni''), (''bridge'', JStr ''kube-ovs0''),
     (''isGateway'', JBool True), (''isDefaultGateway'', JBool True), (''ipam'', conf_ipam podCIDR)])"
proof -
  obtain m where m: "2 * length (cni_conf podCIDR) + 2 = Suc (Suc (Suc (Suc (Suc (Suc (Suc (Suc (Suc (Suc (Suc (Suc m)))))))))))"
    by (rule that [of "2 * length (cni_conf podCIDR) - 10"]) (simp add: cni_conf_def quoted_def)
  show ?thesis
    unfolding json_Parse_def m
    using json_string_plain [OF assms]
    by (simp add: cni_conf_def quoted_def skip_ws_def json_space_def)
qed

definition installed_conf :: NetConf where
  "installed_conf = new_netconf\<lparr>NetName := ''kube-ovs-cni'', NetType := ''kube-ovs-cni'', IPAMType := ''host-local'',
     IsDefaultGW := True\<rparr>"

lemma loadNetConf_cni_conf:
  assumes "list_all plain podCIDR"
  shows "loadNetConf (cni_conf podCIDR) = Inr (installed_conf, [])"
  unfolding loadNetConf_def json_Parse_cni_conf [OF assms]
  by (simp add: dec_struct_def dec_netconf_def field_def json_fields_def EqualFold_def lower_def rbind_def
    new_netconf_def installed_conf_def)

text \<open>It names no version, which the plugin library reads as 0.1.0.\<close>

lemma Decode_cni_conf:
  assumes "list_all plain podCIDR"
  shows "ConfigDecoder_Decode (cni_conf podCIDR) = Inr ''0.1.0''"
  unfolding ConfigDecoder_Decode_def json_Parse_cni_conf [OF assms]
  by (simp add: dec_struct_def field_def json_fields_def EqualFold_def lower_def)

subsection \<open>What a call leaves unchanged\<close>

named_theorems keeps \<open>calls that keep an observation of the host\<close>

definition keeps_obs :: "('e \<Rightarrow> 'b) \<Rightarrow> ('e, 'a) state \<Rightarrow> bool" where
  "keeps_obs obs m \<longleftrightarrow> (\<forall>e. obs (snd (run_state m e)) = obs e)"

lemma keeps_obsD: "keeps_obs obs m \<Longrightarrow> run_state m e = (r, e') \<Longrightarrow> obs e' = obs e"
  by (metis keeps_obs_def snd_conv)

lemma keeps_return [keeps]:
  "keeps_obs obs (go_return x)" "keeps_obs obs (go_fail err)" "keeps_obs obs (go_lift r)" "keeps_obs obs (State_Monad.return y)"
  by (simp_all add: keeps_obs_def run_simps)

lemma keeps_bind [keeps]:
  assumes "keeps_obs obs m" and "\<And>x. keeps_obs obs (f x)"
  shows "keeps_obs obs (State_Monad.bind m f)"
  using assms by (simp add: keeps_obs_def run_state_bind split: prod.split) (metis snd_conv)

lemma keeps_go_bind [keeps]:
  assumes "keeps_obs obs m" and "\<And>x. keeps_obs obs (f x)"
  shows "keeps_obs obs (go_bind m f)"
  unfolding go_bind_def using assms by (intro keeps_bind) (auto split: sum.split intro: keeps)

lemma keeps_go_wrap [keeps]: "keeps_obs obs m \<Longrightarrow> keeps_obs obs (go_wrap w m)"
  unfolding go_wrap_def by (intro keeps_bind) (auto split: sum.split intro: keeps)

lemma keeps_if [keeps]: "keeps_obs obs a \<Longrightarrow> keeps_obs obs b \<Longrightarrow> keeps_obs obs (if c then a else b)"
  by simp

lemma keeps_case_prod [keeps]: "(\<And>a b. keeps_obs obs (f a b)) \<Longrightarrow> keeps_obs obs (case p of (a, b) \<Rightarrow> f a b)"
  by (simp split: prod.split)

lemma keeps_case_sum [keeps]:
  "(\<And>a. keeps_obs obs (f a)) \<Longrightarrow> (\<And>b. keeps_obs obs (g b)) \<Longrightarrow> keeps_obs obs (case r of Inl a \<Rightarrow> f a | Inr b \<Rightarrow> g b)"
  by (simp split: sum.split)

lemma keeps_pair: "keeps_obs (\<lambda>e. (f e, g e)) m \<longleftrightarrow> keeps_obs f m \<and> keeps_obs g m"
  by (auto simp: keeps_obs_def)

lemma keeps_for_each [keeps]: "(\<And>x. keeps_obs obs (f x)) \<Longrightarrow> keeps_obs obs (for_each f xs)"
  by (induction xs) (auto intro: keeps)

text \<open>
  The host operations other than commands, runs of the address management plugin and changes of the
  process environment keep \<open>obs\<close>.
\<close>

definition network_only :: "('e, 'z) CniEnv_scheme \<Rightarrow> ('e \<Rightarrow> 'b) \<Rightarrow> bool" where
  "network_only env obs \<longleftrightarrow>
     (\<forall>k. keeps_obs obs (env_Getenv env k)) \<and>
     (\<forall>n. keeps_obs obs (env_LinkByName env n)) \<and> (\<forall>l. keeps_obs obs (env_LinkSetUp env l)) \<and>
     (\<forall>l a. keeps_obs obs (env_LinkSetHardwareAddr env l a)) \<and> (\<forall>l f. keeps_obs obs (env_AddrList env l f)) \<and>
     (\<forall>l a. keeps_obs obs (env_AddrAdd env l a)) \<and> (\<forall>l a. keeps_obs obs (env_AddrDel env l a)) \<and>
     (\<forall>p. keeps_obs obs (env_GetNS env p)) \<and> (\<forall>p. keeps_obs obs (env_CloseNS env p)) \<and>
     (\<forall>p. keeps_obs obs (env_EnterNS env p)) \<and> (\<forall>p. keeps_obs obs (env_LeaveNS env p)) \<and>
     (\<forall>n m. keeps_obs obs (env_SetupVeth env n m)) \<and> (\<forall>n. keeps_obs obs (env_InterfaceByName env n)) \<and>
     (\<forall>n. keeps_obs obs (env_DelLinkByNameAddr env n)) \<and> (\<forall>p. keeps_obs obs (env_ReadFile env p)) \<and>
     (\<forall>p c m. keeps_obs obs (env_WriteFile env p c m)) \<and> (\<forall>n r. keeps_obs obs (env_ConfigureIface env n r)) \<and>
     (\<forall>i n. keeps_obs obs (env_GratuitousArp env i n)) \<and> keeps_obs obs (env_EnableIP4Forward env) \<and>
     keeps_obs obs (env_EnableIP6Forward env) \<and> (\<forall>i c m. keeps_obs obs (env_SetupIPMasq env i c m)) \<and>
     (\<forall>i c m. keeps_obs obs (env_TeardownIPMasq env i c m)) \<and> (\<forall>r. keeps_obs obs (env_PrintCurrent env r)) \<and>
     (\<forall>r. keeps_obs obs (env_Print020 env r))"

definition commands_keep :: "('e, 'z) CniEnv_scheme \<Rightarrow> ('e \<Rightarrow> 'b) \<Rightarrow> bool" where
  "commands_keep env obs \<longleftrightarrow>
     (\<forall>c a. keeps_obs obs (CombinedOutput env c a)) \<and> (\<forall>c a. keeps_obs obs (Output env c a))"

lemma network_only_pair: "network_only env f \<Longrightarrow> network_only env g \<Longrightarrow> network_only env (\<lambda>e. (f e, g e))"
  by (simp add: network_only_def keeps_pair)

lemma keeps_case_AnyResult [keeps]:
  "(\<And>a. keeps_obs obs (f a)) \<Longrightarrow> (\<And>b. keeps_obs obs (g b)) \<Longrightarrow> keeps_obs obs (case r of Current a \<Rightarrow> f a | Old b \<Rightarrow> g b)"
  by (simp split: AnyResult.split)

lemma keeps_ops:
  assumes "network_only env obs"
  shows "keeps_obs obs (setupVeth env ns n)" "keeps_obs obs (getPodInfo env)"
    "keeps_obs obs (getBridgeInterface env)" "keeps_obs obs (refetch_bridge env nc br res)"
    "keeps_obs obs (env_LinkByName env x)" "keeps_obs obs (env_LinkSetUp env l)" "keeps_obs obs (PrintResult env r v)"
    "keeps_obs obs (env_GetNS env p)" "keeps_obs obs (env_CloseNS env p)"
    "keeps_obs obs (ns_Do env p (delete_link env i))" "keeps_obs obs (env_TeardownIPMasq env ipn c m)"
  using assms unfolding network_only_def
  by (auto simp: setupVeth_def ns_Do_def getPodInfo_def getBridgeInterface_def bridgeByName_def
    refetch_bridge_def delete_link_def PrintResult_def Let_def intro!: keeps)

lemma keeps_delegate:
  assumes "network_only env obs" and "\<And>p c. keeps_obs obs (env_ExecPlugin env p c)"
  shows "keeps_obs obs (ExecAdd env t d)" "keeps_obs obs (ExecDel env t d)"
  using assms unfolding network_only_def
  by (auto simp: ExecAdd_def ExecDel_def exec_delegate_def intro!: keeps)

lemma keeps_commands:
  assumes "commands_keep env obs"
  shows "keeps_obs obs (addPort env a b c d f g)" "keeps_obs obs (delPort env a b)" "keeps_obs obs (Output env a as)"
  using assms unfolding commands_keep_def by (auto simp: addPort_def delPort_def intro!: keeps)

lemma keeps_bridge_loop: "network_only env obs \<Longrightarrow> keeps_obs obs (bridge_addr_loop env br fam ipn f addrs)"
  by (induction addrs) (auto simp: deleteBridgeAddr_def network_only_def intro!: keeps)

lemma keeps_gateways: "network_only env obs \<Longrightarrow> keeps_obs obs (setup_gateways env nc g)"
  unfolding setup_gateways_def ensureBridgeAddr_def bridgeByName_def enableIPForward_def
  using keeps_bridge_loop [of env obs] by (auto simp: network_only_def intro!: keeps)

lemma keeps_configure: "network_only env obs \<Longrightarrow> keeps_obs obs (configure_addresses env args nc res r)"
  unfolding configure_addresses_def ns_Do_def configure_container_def disableIPV6DAD_def ignore_def Let_def
  using keeps_gateways [of env obs nc] by (auto simp: network_only_def intro!: keeps)

subsection \<open>The process environment\<close>

text \<open>
  What \<open>os.Getenv\<close> and \<open>os.Setenv\<close> document, \<open>vars e\<close> being the variables: only \<open>Setenv\<close> changes
  them. The plugin sets no other variable than \<open>CNI_COMMAND\<close>.
\<close>

definition os_env :: "('e, 'z) CniEnv_scheme \<Rightarrow> ('e \<Rightarrow> string \<Rightarrow> string) \<Rightarrow> bool" where
  "os_env env vars \<longleftrightarrow> network_only env vars \<and> commands_keep env vars \<and>
     (\<forall>p d. keeps_obs vars (env_ExecPlugin env p d)) \<and>
     (\<forall>k e. run_state (env_Getenv env k) e = (vars e k, e)) \<and>
     (\<forall>c e. vars (snd (run_state (env_Setenv env ''CNI_COMMAND'' c) e)) = (vars e)(''CNI_COMMAND'' := c))"

lemma os_envD:
  assumes "os_env env vars"
  shows "network_only env vars" "commands_keep env vars" "keeps_obs vars (env_ExecPlugin env p d)"
    "run_state (env_Getenv env k) e = (vars e k, e)"
    "run_state (env_Setenv env ''CNI_COMMAND'' c) e = (u, e') \<Longrightarrow> vars e' = (vars e)(''CNI_COMMAND'' := c)"
  using assms unfolding os_env_def by (blast, blast, blast, blast, metis snd_conv)

text \<open>The plugin a type names, in the process environment \<open>vs\<close>.\<close>

definition plugin_path :: "('e, 'z) CniEnv_scheme \<Rightarrow> string \<Rightarrow> (string \<Rightarrow> string) \<Rightarrow> string result" where
  "plugin_path env t vs = FindInPath env t (filepath_SplitList (vs ''CNI_PATH''))"

lemma run_exec_delegate:
  assumes "os_env env vars"
  shows "run_state (exec_delegate env t d) e =
    (case plugin_path env t (vars e) of Inl err \<Rightarrow> (Inl err, e) | Inr p \<Rightarrow> run_state (env_ExecPlugin env p d) e)"
  by (simp add: exec_delegate_def run_state_bind run_simps os_envD(4) [OF assms] plugin_path_def split: sum.split)

lemma run_ExecAdd:
  assumes "os_env env vars" and "vars e ''CNI_COMMAND'' = ''ADD''"
  shows "run_state (ExecAdd env t d) e =
    (case plugin_path env t (vars e) of Inl err \<Rightarrow> (Inl err, e)
     | Inr p \<Rightarrow> (case run_state (env_ExecPlugin env p d) e of
         (Inl err, e') \<Rightarrow> (Inl err, e') | (Inr out, e') \<Rightarrow> (decode_delegated env d out, e')))"
  using assms(2)
  by (simp add: ExecAdd_def run_state_bind run_simps os_envD(4) [OF assms(1)] run_exec_delegate [OF assms(1)]
    split: sum.split prod.split)

lemma run_ExecDel:
  assumes "os_env env vars"
  shows "run_state (ExecDel env t d) e =
    (if vars e ''CNI_COMMAND'' \<noteq> ''DEL'' then (Inl (Errorf ''CNI_COMMAND is not DEL'' []), e)
     else case plugin_path env t (vars e) of Inl err \<Rightarrow> (Inl err, e)
     | Inr p \<Rightarrow> (case run_state (env_ExecPlugin env p d) e of (r, e') \<Rightarrow> (map_sum id (\<lambda>_. ()) r, e')))"
  by (simp add: ExecDel_def run_state_bind run_simps os_envD(4) [OF assms(1)] run_exec_delegate [OF assms(1)]
    split: sum.split prod.split)

subsection \<open>Leases\<close>

text \<open>
  \<open>lease e\<close>: the address management plugin holds an address for the container. A successful
  run of it with \<open>ADD\<close> takes one, a failed one keeps none it did not hold, a run with \<open>DEL\<close> gives it
  back, nothing else touches it.
\<close>

definition manages :: "('e, 'z) CniEnv_scheme \<Rightarrow> ('e \<Rightarrow> string \<Rightarrow> string) \<Rightarrow> ('e \<Rightarrow> bool) \<Rightarrow> bool" where
  "manages env vars lease \<longleftrightarrow> os_env env vars \<and> network_only env lease \<and> commands_keep env lease \<and>
     (\<forall>k v. keeps_obs lease (env_Setenv env k v)) \<and>
     (\<forall>p d e r e'. run_state (env_ExecPlugin env p d) e = (r, e') \<longrightarrow>
        (vars e ''CNI_COMMAND'' = ''ADD'' \<longrightarrow> (if isl r then lease e' = lease e else lease e')) \<and>
        (vars e ''CNI_COMMAND'' = ''DEL'' \<longrightarrow> \<not> lease e'))"

lemma managesD:
  assumes "manages env vars lease"
  shows "os_env env vars" "network_only env lease" "commands_keep env lease" "keeps_obs lease (env_Setenv env k v)"
    "run_state (env_ExecPlugin env p d) e = (Inl err, e') \<Longrightarrow> vars e ''CNI_COMMAND'' = ''ADD'' \<Longrightarrow> lease e' = lease e"
    "run_state (env_ExecPlugin env p d) e = (Inr out, e') \<Longrightarrow> vars e ''CNI_COMMAND'' = ''ADD'' \<Longrightarrow> lease e'"
    "run_state (env_ExecPlugin env p d) e = (r, e') \<Longrightarrow> vars e ''CNI_COMMAND'' = ''DEL'' \<Longrightarrow> \<not> lease e'"
  using assms unfolding manages_def by (blast, blast, blast, blast, metis sum.disc(1), metis sum.disc(2), metis)

text \<open>
  The results the address management plugin gives for the configuration \<open>d\<close>, and those that \<open>cmdAdd\<close>
  prints then: they have the addresses of such a result.
\<close>

definition ipam_results :: "('e, 'z) CniEnv_scheme \<Rightarrow> ('e \<Rightarrow> string \<Rightarrow> string) \<Rightarrow> string \<Rightarrow> Result \<Rightarrow> bool" where
  "ipam_results env vars d r \<longleftrightarrow> (\<exists>p e out e' any. vars e ''CNI_COMMAND'' = ''ADD'' \<and>
     run_state (env_ExecPlugin env p d) e = (Inr out, e') \<and>
     decode_delegated env d out = Inr any \<and> NewResultFromResult any = Inr r)"

definition prints :: "('e, 'z) CniEnv_scheme \<Rightarrow> ('e \<Rightarrow> string \<Rightarrow> string) \<Rightarrow> string \<Rightarrow> Result \<Rightarrow> bool" where
  "prints env vars d res \<longleftrightarrow>
     (\<exists>r. ipam_results env vars d r \<and> IPs r \<noteq> [] \<and> map IPVersion (IPs res) = map IPVersion (IPs r))"

text \<open>
  An error that comes too late for the release: the result could not be printed, or what the address
  management plugin printed could not be read.
\<close>

definition print_fails :: "('e, 'z) CniEnv_scheme \<Rightarrow> ('e \<Rightarrow> string \<Rightarrow> string) \<Rightarrow> string \<Rightarrow> go_error \<Rightarrow> bool" where
  "print_fails env vars d err \<longleftrightarrow> (\<exists>nc v res e. loadNetConf d = Inr (nc, v) \<and> IPAMType nc \<noteq> [] \<and> prints env vars d res \<and>
     fst (run_state (PrintResult env res v) e) = Inl err)"

definition garbled :: "('e, 'z) CniEnv_scheme \<Rightarrow> ('e \<Rightarrow> string \<Rightarrow> string) \<Rightarrow> string \<Rightarrow> go_error \<Rightarrow> bool" where
  "garbled env vars d err \<longleftrightarrow> (\<exists>p e out e'. vars e ''CNI_COMMAND'' = ''ADD'' \<and>
     run_state (env_ExecPlugin env p d) e = (Inr out, e') \<and> decode_delegated env d out = Inl err)"

lemma ExecAdd_lease:
  assumes "manages env vars lease" and "vars e ''CNI_COMMAND'' = ''ADD''" and "\<not> lease e"
    and "run_state (ExecAdd env t d) e = (r, e')"
  shows "vars e' = vars e" and "r = Inl err \<Longrightarrow> \<not> lease e' \<or> garbled env vars d err"
    and "r = Inr out \<Longrightarrow> lease e' \<and> (\<exists>p. plugin_path env t (vars e) = Inr p)"
proof -
  note m = managesD [OF assms(1)]
  have run: "(case plugin_path env t (vars e) of Inl err \<Rightarrow> (Inl err, e)
     | Inr p \<Rightarrow> (case run_state (env_ExecPlugin env p d) e of
         (Inl err, e') \<Rightarrow> (Inl err, e') | (Inr out, e') \<Rightarrow> (decode_delegated env d out, e'))) = (r, e')"
    using assms(4) by (simp only: run_ExecAdd [OF m(1), OF assms(2)])
  show "vars e' = vars e"
    by (rule keeps_obsD [OF keeps_delegate(1) assms(4)]) (rule os_envD [OF m(1)])+
  show "r = Inl err \<Longrightarrow> \<not> lease e' \<or> garbled env vars d err"
  proof -
    assume r: "r = Inl err"
    show "\<not> lease e' \<or> garbled env vars d err"
    proof (cases "plugin_path env t (vars e)")
      case (Inl x)
      then show ?thesis using run assms(3) by simp
    next
      case (Inr p)
      obtain x e1 where x: "run_state (env_ExecPlugin env p d) e = (x, e1)" by (rule prod.exhaust)
      show ?thesis
      proof (cases x)
        case (Inl y)
        then show ?thesis using run Inr x m(5) [OF _ assms(2)] assms(3) by auto
      next
        case (Inr out)
        then show ?thesis using run r \<open>plugin_path env t (vars e) = Inr p\<close> x assms(2) unfolding garbled_def by auto
      qed
    qed
  qed
  show "r = Inr out \<Longrightarrow> lease e' \<and> (\<exists>p. plugin_path env t (vars e) = Inr p)"
    using run m(6) [OF _ assms(2)] by (auto split: sum.splits prod.splits)
qed

lemma ExecDel_lease:
  assumes "manages env vars lease" and "run_state (ExecDel env t d) e = (r, e')"
    and "r = Inr () \<or> vars e ''CNI_COMMAND'' = ''DEL'' \<and> (\<exists>p. plugin_path env t (vars e) = Inr p)"
  shows "\<not> lease e'"
  using assms(2,3) managesD(7) [OF assms(1)] unfolding run_ExecDel [OF managesD(1) [OF assms(1)]]
  by (auto split: sum.splits prod.splits if_splits)

lemma release_lease:
  assumes "manages env vars lease" and "keeps_obs lease m" and "keeps_obs vars m"
    and "plugin_path env (IPAMType nc) (vars e) = Inr p"
    and "run_state (release_on_error env args nc m) e = (r, e')"
  shows "if isl r then \<not> lease e' else lease e' = lease e"
proof -
  note mg = managesD [OF assms(1)]
  obtain x e1 where m: "run_state m e = (x, e1)" by (rule prod.exhaust)
  have k: "lease e1 = lease e" using keeps_obsD [OF assms(2) m] .
  show ?thesis
  proof (cases x)
    case (Inr y)
    then show ?thesis using assms(5) m k by (auto simp: release_on_error_def run_state_bind run_simps)
  next
    case (Inl err)
    obtain u e2 where e2: "run_state (env_Setenv env ''CNI_COMMAND'' ''DEL'') e1 = (u, e2)" by (rule prod.exhaust)
    obtain d e3 where e3: "run_state (ExecDel env (IPAMType nc) (StdinData args)) e2 = (d, e3)"
      by (rule prod.exhaust)
    obtain v e4 where e4: "run_state (env_Setenv env ''CNI_COMMAND'' ''ADD'') e3 = (v, e4)" by (rule prod.exhaust)
    have v2: "vars e2 = (vars e)(''CNI_COMMAND'' := ''DEL'')"
      using os_envD(5) [OF mg(1) e2] keeps_obsD [OF assms(3) m] by simp
    then have "plugin_path env (IPAMType nc) (vars e2) = Inr p" using assms(4) by (simp add: plugin_path_def)
    then have "\<not> lease e3" using ExecDel_lease [OF assms(1) e3] v2 by simp
    then have "\<not> lease e4" using keeps_obsD [OF mg(4) e4] by simp
    then show ?thesis
      using assms(5) m Inl e2 e3 e4 by (auto simp: release_on_error_def run_state_bind run_simps)
  qed
qed

text \<open>
  A step of \<open>cmdAdd\<close> on the configuration \<open>d\<close> that starts without an address: it ends with one exactly
  when it succeeds and \<open>held\<close>, unless its error came too late.
\<close>

definition lease_safe ::
    "('e, 'z) CniEnv_scheme \<Rightarrow> ('e \<Rightarrow> string \<Rightarrow> string) \<Rightarrow> ('e \<Rightarrow> bool) \<Rightarrow> string \<Rightarrow> bool \<Rightarrow> ('e, 'a) go \<Rightarrow> bool" where
  "lease_safe env vars lease d held m \<longleftrightarrow>
     (\<forall>e r e'. \<not> lease e \<and> vars e ''CNI_COMMAND'' = ''ADD'' \<and> run_state m e = (r, e') \<longrightarrow>
        (\<not> isl r \<longrightarrow> lease e' = held) \<and>
        (\<forall>err. r = Inl err \<longrightarrow> \<not> lease e' \<or> print_fails env vars d err \<or> garbled env vars d err))"

lemma lease_safe_bind:
  assumes "keeps_obs lease m" and "keeps_obs vars m" and "\<And>x. lease_safe env vars lease d held (f x)"
  shows "lease_safe env vars lease d held (go_bind m f)"
  unfolding lease_safe_def
proof (intro allI impI, elim conjE)
  fix e r e' assume l: "\<not> lease e" and v: "vars e ''CNI_COMMAND'' = ''ADD''" and "run_state (go_bind m f) e = (r, e')"
  from this(3) show "(\<not> isl r \<longrightarrow> lease e' = held) \<and>
      (\<forall>err. r = Inl err \<longrightarrow> \<not> lease e' \<or> print_fails env vars d err \<or> garbled env vars d err)"
  proof (cases rule: go_bind_cases)
    case (fails err)
    then show ?thesis using keeps_obsD [OF assms(1) fails(1)] l by simp
  next
    case (runs x e1)
    have "\<not> lease e1" "vars e1 ''CNI_COMMAND'' = ''ADD''"
      using keeps_obsD [OF assms(1) runs(1)] keeps_obsD [OF assms(2) runs(1)] l v by simp_all
    then show ?thesis using assms(3) [of x] runs(2) unfolding lease_safe_def by blast
  qed
qed

text \<open>What the block of \<open>cmdAdd\<close> that takes an address and configures it returns.\<close>

lemma calc_one_version: "calc_one n fam zero ipc g routes = (ipc', r) \<Longrightarrow> IPVersion ipc' = IPVersion ipc"
  by (auto simp: calc_one_def Let_def split: prod.splits if_splits)

lemma calc_loop_versions:
  "calc_loop n ips g4 g6 routes = Inr (ips', r) \<Longrightarrow> map IPVersion ips' = map IPVersion ips"
proof (induction ips arbitrary: g4 g6 routes ips')
  case (Cons ipc ips)
  then show ?case
    by (auto simp: rbind_def split: if_splits prod.splits sum.splits dest: calc_one_version)
qed simp

lemma configure_addresses_versions:
  assumes "run_state (configure_addresses env args nc res any) e = (Inr res', e')"
  obtains r where "NewResultFromResult any = Inr r" and "IPs r \<noteq> []" and "map IPVersion (IPs res') = map IPVersion (IPs r)"
proof -
  obtain r where r: "NewResultFromResult any = Inr r" "IPs r \<noteq> []"
    using assms by (auto simp: configure_addresses_def run_simps Let_def split: sum.splits prod.splits if_splits)
  obtain g4 g6 where "calcGateways (res\<lparr>IPs := IPs r, Routes := Routes r\<rparr>) nc = Inr (res', g4, g6)"
    using assms r by (auto simp: configure_addresses_def run_simps Let_def split: sum.splits prod.splits if_splits)
  then have "map IPVersion (IPs res') = map IPVersion (IPs r)"
    by (auto simp: calcGateways_def rbind_Inr_iff dest: calc_loop_versions)
  then show ?thesis using that r by blast
qed

lemma refetch_bridge_IPs: "run_state (refetch_bridge env nc br res) e = (Inr res', e') \<Longrightarrow> IPs res' = IPs res"
  by (auto simp: refetch_bridge_def run_simps split: prod.splits sum.splits)

abbreviation ipam_block :: "('e, 'z) CniEnv_scheme \<Rightarrow> CmdArgs \<Rightarrow> NetConf \<Rightarrow> Interface \<Rightarrow> Result \<Rightarrow> ('e, Result) go" where
  "ipam_block env args nc bridge res \<equiv>
     (if IPAMType nc \<noteq> [] then
          go_bind (ExecAdd env (IPAMType nc) (StdinData args)) (\<lambda>r.
          release_on_error env args nc (go_bind (configure_addresses env args nc res r) (refetch_bridge env nc bridge)))
        else refetch_bridge env nc bridge res)"

lemma release_on_error_Inr:
  "run_state (release_on_error env args nc m) e = (Inr x, e') \<Longrightarrow> run_state m e = (Inr x, e')"
  by (auto simp: release_on_error_def run_state_bind run_simps split: prod.splits sum.splits)

lemma ipam_block_prints:
  assumes "os_env env vars" and "run_state (ipam_block env args nc bridge res) e = (Inr res', e')" and "IPAMType nc \<noteq> []"
  shows "prints env vars (StdinData args) res'"
proof -
  obtain any e1 where x: "run_state (ExecAdd env (IPAMType nc) (StdinData args)) e = (Inr any, e1)"
    and rel: "run_state (release_on_error env args nc (go_bind (configure_addresses env args nc res any) (refetch_bridge env nc bridge))) e1
      = (Inr res', e')"
    using assms(2,3) by (auto elim: go_bind_Inr_elim)
  obtain res1 e2 where c: "run_state (configure_addresses env args nc res any) e1 = (Inr res1, e2)"
    and b: "run_state (refetch_bridge env nc bridge res1) e2 = (Inr res', e')"
    using release_on_error_Inr [OF rel] by (rule go_bind_Inr_elim)
  obtain r where r: "NewResultFromResult any = Inr r" "IPs r \<noteq> []" "map IPVersion (IPs res1) = map IPVersion (IPs r)"
    by (rule configure_addresses_versions [OF c])
  have "\<exists>p e0 out e1. vars e0 ''CNI_COMMAND'' = ''ADD'' \<and> run_state (env_ExecPlugin env p (StdinData args)) e0 = (Inr out, e1) \<and>
      decode_delegated env (StdinData args) out = Inr any"
    using x os_envD(4) [OF assms(1)]
    by (auto simp: ExecAdd_def exec_delegate_def run_simps run_state_bind split: prod.splits sum.splits if_splits)
  then show ?thesis using r refetch_bridge_IPs [OF b] unfolding prints_def ipam_results_def by metis
qed

text \<open>The block of \<open>cmdAdd\<close> that takes an address and configures it.\<close>

lemma ipam_block_lease:
  assumes "manages env vars lease" and "\<not> lease e" and "vars e ''CNI_COMMAND'' = ''ADD''"
    and "run_state (ipam_block env args nc bridge res) e = (r, e')"
  shows "lease e' = (\<not> isl r \<and> IPAMType nc \<noteq> []) \<or> (\<exists>err. r = Inl err \<and> garbled env vars (StdinData args) err)"
proof (cases "IPAMType nc = []")
  case True
  then have "run_state (refetch_bridge env nc bridge res) e = (r, e')" using assms(4) by simp
  from keeps_obsD [OF keeps_ops(4) [OF managesD(2) [OF assms(1)]] this] show ?thesis using assms(2) True by simp
next
  case False
  then have run: "run_state (go_bind (ExecAdd env (IPAMType nc) (StdinData args)) (\<lambda>r.
      release_on_error env args nc (go_bind (configure_addresses env args nc res r) (refetch_bridge env nc bridge)))) e = (r, e')"
    using assms(4) by simp
  then show ?thesis
  proof (cases rule: go_bind_cases)
    case (fails err)
    then show ?thesis using ExecAdd_lease(2) [OF assms(1), OF assms(3,2) fails(1)] by auto
  next
    case (runs x e1)
    obtain p where l: "lease e1" and p: "plugin_path env (IPAMType nc) (vars e1) = Inr p"
      using ExecAdd_lease [OF assms(1), OF assms(3,2) runs(1)] by auto
    have k: "keeps_obs obs (go_bind (configure_addresses env args nc res x) (refetch_bridge env nc bridge))"
      if "network_only env obs" for obs :: "'a \<Rightarrow> 'x"
      using that by (intro keeps_go_bind keeps_configure keeps_ops(4))
    from release_lease [OF assms(1) k k p runs(2)] show ?thesis
      using l False managesD(2) [OF assms(1)] os_envD(1) [OF managesD(1) [OF assms(1)]] by (auto split: if_splits)
  qed
qed

lemma assign_addresses_lease:
  assumes "manages env vars lease" and "loadNetConf (StdinData args) = Inr (nc, v)"
  shows "lease_safe env vars lease (StdinData args) (IPAMType nc \<noteq> []) (assign_addresses env args nc v bridge res)"
  unfolding assign_addresses_def lease_safe_def
proof (intro allI impI, elim conjE, goal_cases)
  case (1 e r e')
  from 1(3) show ?case
  proof (cases rule: go_bind_cases)
    case (fails err)
    then show ?thesis using ipam_block_lease [OF assms(1), OF 1(1,2) fails(1)] by auto
  next
    case (runs res1 e1)
    have "lease e' = (IPAMType nc \<noteq> [])"
      using ipam_block_lease [OF assms(1), OF 1(1,2) runs(1)] keeps_obsD [OF keeps_ops(7) runs(2), of lease]
        managesD(2) [OF assms(1)] by simp
    moreover have "print_fails env vars (StdinData args) err" if "r = Inl err" and "IPAMType nc \<noteq> []" for err
      using runs(2) that ipam_block_prints [OF managesD(1) [OF assms(1)] runs(1)] assms(2)
      unfolding print_fails_def by (metis fst_conv)
    ultimately show ?thesis by blast
  qed
qed

lemma cmdAdd_in_ns_lease:
  assumes "manages env vars lease" and "loadNetConf (StdinData args) = Inr (nc, v)"
  shows "lease_safe env vars lease (StdinData args) (IPAMType nc \<noteq> []) (cmdAdd_in_ns env args nc v bridge)"
proof -
  note o = os_envD [OF managesD(1) [OF assms(1)]]
  show ?thesis
    using keeps_ops [OF managesD(2) [OF assms(1)]] keeps_commands [OF managesD(3) [OF assms(1)]]
      keeps_ops [OF o(1)] keeps_commands [OF o(2)] unfolding cmdAdd_in_ns_def
    by (auto intro!: lease_safe_bind assign_addresses_lease [OF assms])
qed

subsection \<open>The pod's name\<close>

text \<open>\<open>CNI_ARGS\<close> as the kubelet sets it; names are in the character set of Kubernetes names.\<close>

definition kubelet_args :: "string \<Rightarrow> string \<Rightarrow> string \<Rightarrow> string" where
  "kubelet_args ns nm cid = ''IgnoreUnknown=1;K8S_POD_NAMESPACE='' @ ns @ '';K8S_POD_NAME='' @ nm @
     '';K8S_POD_INFRA_CONTAINER_ID='' @ cid"

definition dns_char :: "char \<Rightarrow> bool" where
  "dns_char c \<longleftrightarrow> (let n = (of_char c :: nat) in 97 \<le> n \<and> n \<le> 122 \<or> 48 \<le> n \<and> n \<le> 57 \<or> n = 45 \<or> n = 46)"

abbreviation dns_name :: "string \<Rightarrow> bool" where
  "dns_name \<equiv> list_all dns_char"

lemma dns_char_simps [simp]: "\<not> dns_char (CHR ''K'')" "\<not> dns_char (CHR '';'')"
  by (simp_all add: dns_char_def)

lemma dns_name_Contains: "dns_name s \<Longrightarrow> \<not> strings_Contains s (CHR ''K'' # sub)"
  by (induction s) auto

lemma dns_name_sep: "dns_name s \<Longrightarrow> CHR '';'' \<notin> set s"
  by (auto simp: list_all_iff)

lemma kubelet_args_Split:
  assumes "dns_name ns" and "dns_name nm" and "dns_name cid"
  shows "strings_Split (kubelet_args ns nm cid) (CHR '';'') =
    [''IgnoreUnknown=1'', ''K8S_POD_NAMESPACE='' @ ns, ''K8S_POD_NAME='' @ nm, ''K8S_POD_INFRA_CONTAINER_ID='' @ cid]"
proof -
  have args: "kubelet_args ns nm cid = ''IgnoreUnknown=1'' @ CHR '';'' # (''K8S_POD_NAMESPACE='' @ ns) @ CHR '';'' #
      (''K8S_POD_NAME='' @ nm) @ CHR '';'' # (''K8S_POD_INFRA_CONTAINER_ID='' @ cid)"
    by (simp add: kubelet_args_def)
  show ?thesis
    using assms [THEN dns_name_sep] unfolding args
    by (subst strings_Split_sep, simp)+ (simp add: strings_Split_nosep)
qed

lemma podInfo_kubelet:
  assumes "dns_name ns" and "dns_name nm" and "dns_name cid"
  shows "podInfo_loop (strings_Split (kubelet_args ns nm cid) (CHR '';'')) ([], []) = (ns, nm)"
  unfolding kubelet_args_Split [OF assms]
  using assms [THEN dns_name_Contains] by (simp add: strings_TrimPrefix_def)

lemma getPodInfo_kubelet:
  assumes "run_state (env_Getenv env ''CNI_ARGS'') e = (kubelet_args ns nm cid, e')"
    and "dns_name ns" and "dns_name nm" and "dns_name cid"
  shows "run_state (getPodInfo env) e = (Inr (ns, nm), e')"
proof -
  have "kubelet_args ns nm cid \<noteq> []" by (simp add: kubelet_args_def)
  then show ?thesis using assms(1) podInfo_kubelet [OF assms(2-4)] by (simp add: getPodInfo_def run_state_bind run_simps)
qed

text \<open>Around \<open>cmdAdd_in_ns\<close>, \<open>cmdAdd\<close> only reads.\<close>

lemma cmdAdd_cases:
  assumes "network_only env obs" and "run_state (cmdAdd env args) e = (r, e')"
  obtains (early) "isl r" and "obs e' = obs e"
    | (inner) nc v bridge e1 e2 where "loadNetConf (StdinData args) = Inr (nc, v)" and "obs e1 = obs e"
        and "run_state (cmdAdd_in_ns env args nc v bridge) e1 = (r, e2)" and "obs e' = obs e2"
proof (cases "loadNetConf (StdinData args)")
  case (Inl err)
  then show ?thesis using assms(2) early by (auto simp: cmdAdd_def run_simps)
next
  case (Inr cv)
  obtain nc v where cv: "cv = (nc, v)" by (rule prod.exhaust)
  note k = keeps_ops [OF assms(1)]
  have run: "run_state (go_bind (go_wrap (Wrapf ''failed to setup bridge: %v'' []) (getBridgeInterface env)) (\<lambda>bridge.
     go_bind (go_wrap (Wrapf ''failed to open netns %q: %v'' [Netns args]) (env_GetNS env (Netns args))) (\<lambda>_.
     State_Monad.bind (cmdAdd_in_ns env args nc v bridge) (\<lambda>r.
     State_Monad.bind (env_CloseNS env (Netns args)) (\<lambda>_. State_Monad.return r))))) e = (r, e')"
    using assms(2) by (simp add: cmdAdd_def run_simps Inr cv)
  from run show ?thesis
  proof (cases rule: go_bind_cases)
    case (fails err)
    then show ?thesis using early keeps_obsD [OF keeps_go_wrap [OF k(3)] fails(1)] by simp
  next
    case (runs bridge e0)
    have o0: "obs e0 = obs e" using keeps_obsD [OF keeps_go_wrap [OF k(3)] runs(1)] .
    from runs(2) show ?thesis
    proof (cases rule: go_bind_cases)
      case (fails err)
      then show ?thesis using early keeps_obsD [OF keeps_go_wrap [OF k(8)] fails(1)] o0 by simp
    next
      case (runs u e1)
      obtain r2 e2 where i: "run_state (cmdAdd_in_ns env args nc v bridge) e1 = (r2, e2)" by (rule prod.exhaust)
      obtain w e3 where c: "run_state (env_CloseNS env (Netns args)) e2 = (w, e3)" by (rule prod.exhaust)
      have "r = r2" and e3: "e' = e3" using runs(2) i c by (simp_all add: run_state_bind run_simps)
      then have i: "run_state (cmdAdd_in_ns env args nc v bridge) e1 = (r, e2)" using i by simp
      show ?thesis
        using e3 inner [OF Inr [unfolded cv] _ i] keeps_obsD [OF keeps_go_wrap [OF k(8)] runs(1)] o0 keeps_obsD [OF k(9) c]
        by simp
    qed
  qed
qed

end
