(* ===== verification/Pod_Attachment.thy ===== *)
theory Pod_Attachment
  imports Cni_Properties Of_Entries
begin

text \<open>
  Attaching and detaching a pod: what the CNI plugin writes into the switch database and the
  address management plugin, and what the OpenFlow controller and a later \<open>cmdDel\<close> read of it.
\<close>

subsection \<open>The port table of the switch database\<close>

record ovs_row =
  row_name :: string
  row_ids :: "string list"
  row_mac :: string
  row_ofport :: nat

definition add_port_args :: "string \<Rightarrow> string \<Rightarrow> string list \<Rightarrow> string \<Rightarrow> string list" where
  "add_port_args bridge port ids mac =
     [''--may-exist'', ''add-port'', bridge, port, ''--'', ''set'', ''port'', port] @ ids @
     [''--'', ''set'', ''interface'', port] @ ids @
     [''--'', ''set'', ''port'', port, ''mac='' @ [CHR 0x22] @ mac @ [CHR 0x22]]"

definition matching :: "string list \<Rightarrow> ovs_row list \<Rightarrow> ovs_row list" where
  "matching q rows = filter (\<lambda>r. set q \<subseteq> set (row_ids r)) rows"

text \<open>
  What \<open>ovs-vsctl\<close> documents of its commands, \<open>rows h\<close> being the port table: \<open>add-port\<close> with
  \<open>set\<close> leaves one row of that name with the given external ids and MAC, \<open>del-port\<close> removes the
  row of that name, \<open>find\<close> prints the names of the rows with the given ids, and \<open>get\<close> a column.
\<close>

definition ovs_ports :: "('e, 'z) Exec_scheme \<Rightarrow> ('e \<Rightarrow> ovs_row list) \<Rightarrow> bool" where
  "ovs_ports ex rows \<longleftrightarrow>
     (\<forall>b p ids mac h out h'.
        run_state (CombinedOutput ex ''ovs-vsctl'' (add_port_args b p ids mac)) h = (Inr out, h') \<longrightarrow>
        (\<exists>r. row_name r = p \<and> set ids \<subseteq> set (row_ids r) \<and> row_mac r = mac \<and>
           set (rows h') = insert r {r'. r' \<in> set (rows h) \<and> row_name r' \<noteq> p})) \<and>
     (\<forall>b p h out h'.
        run_state (CombinedOutput ex ''ovs-vsctl'' [''--if-exists'', ''del-port'', b, p]) h = (Inr out, h') \<longrightarrow>
        set (rows h') = {r. r \<in> set (rows h) \<and> row_name r \<noteq> p}) \<and>
     (\<forall>q h. \<exists>out.
        run_state (Output ex ''ovs-vsctl'' ([''--format=json'', ''--column=name'', ''find'', ''port''] @ q)) h = (Inr out, h) \<and>
        unmarshal_Data out = Inr (map (\<lambda>r. [row_name r]) (matching q (rows h)))) \<and>
     (\<forall>h r. r \<in> set (rows h) \<longrightarrow>
        run_state (Output ex ''ovs-vsctl'' [''get'', ''port'', row_name r, ''mac'']) h =
          (Inr (CHR 0x22 # row_mac r @ [CHR 0x22, CHR 0x0A]), h) \<and>
        reads_port (Exec.truncate ex) h (row_name r) (row_ofport r))"

lemma ovs_find:
  assumes "ovs_ports ex rows"
  obtains out where
    "run_state (Output ex ''ovs-vsctl'' ([''--format=json'', ''--column=name'', ''find'', ''port''] @ q)) h = (Inr out, h)"
    and "unmarshal_Data out = Inr (map (\<lambda>r. [row_name r]) (matching q (rows h)))"
  using assms [unfolded ovs_ports_def, THEN conjunct2, THEN conjunct2, THEN conjunct1, rule_format, of q h] by blast

lemma ovs_get:
  assumes "ovs_ports ex rows" and "r \<in> set (rows h)"
  shows "run_state (Output ex ''ovs-vsctl'' [''get'', ''port'', row_name r, ''mac'']) h =
      (Inr (CHR 0x22 # row_mac r @ [CHR 0x22, CHR 0x0A]), h)"
    and "reads_port (Exec.truncate ex) h (row_name r) (row_ofport r)"
  using assms(1) [unfolded ovs_ports_def, THEN conjunct2, THEN conjunct2, THEN conjunct2, rule_format, OF assms(2)] by blast+

lemma ovs_add:
  assumes "ovs_ports env rows" and "run_state (addPort env b p mac netns ns nm) h = (Inr u, h')"
  obtains r where "row_name r = p" and "set (pod_ids netns ns nm) \<subseteq> set (row_ids r)" and "row_mac r = mac"
    and "set (rows h') = insert r {r'. r' \<in> set (rows h) \<and> row_name r' \<noteq> p}"
proof -
  have "\<exists>out. run_state (CombinedOutput env ''ovs-vsctl'' (add_port_args b p (pod_ids netns ns nm) mac)) h = (Inr out, h')"
    using assms(2) by (auto simp: addPort_def add_port_args_def run_simps split: prod.splits sum.splits)
  then show ?thesis using assms(1) that unfolding ovs_ports_def by meson
qed

lemma ovs_del:
  assumes "ovs_ports env rows" and "run_state (delPort env b p) h = (Inr u, h')"
  shows "set (rows h') = {r. r \<in> set (rows h) \<and> row_name r \<noteq> p}"
proof -
  have "\<exists>out. run_state (CombinedOutput env ''ovs-vsctl'' [''--if-exists'', ''del-port'', b, p]) h = (Inr out, h')"
    using assms(2) by (auto simp: delPort_def run_simps split: prod.splits sum.splits)
  then show ?thesis using assms(1) unfolding ovs_ports_def by meson
qed

text \<open>The ids by which the OpenFlow controller looks a pod's port up: those of the plugin, less the namespace path.\<close>

definition pod_key :: "string \<Rightarrow> string \<Rightarrow> string list" where
  "pod_key ns nm = [''external-ids:k8s_pod_namespace='' @ ns, ''external-ids:k8s_pod_name='' @ nm]"

lemma pod_ids_key: "pod_ids netns ns nm = (''external-ids:netns='' @ normalizedNetNS netns) # pod_key ns nm"
  by (simp add: pod_ids_def pod_key_def)

lemma truncate_simps [simp]:
  "Output (Exec.truncate ex) = Output ex" "CombinedOutput (Exec.truncate ex) = CombinedOutput ex"
  by (simp_all add: Exec.defs)

lemma matching_single:
  assumes "set (rows h) = insert r R" and "set q \<subseteq> set (row_ids r)" and "\<And>x. x \<in> R \<Longrightarrow> \<not> set q \<subseteq> set (row_ids x)"
  obtains rs where "matching q (rows h) = r # rs"
proof -
  have "set (matching q (rows h)) = {r}" using assms by (auto simp: matching_def)
  then have "matching q (rows h) \<noteq> []" and "\<forall>x \<in> set (matching q (rows h)). x = r" by auto
  then show ?thesis using that by (cases "matching q (rows h)") auto
qed

subsection \<open>After a successful \<open>cmdAdd\<close>\<close>

definition ipam_keeps :: "('e, 'z) CniEnv_scheme \<Rightarrow> ('e \<Rightarrow> 'b) \<Rightarrow> bool" where
  "ipam_keeps env obs \<longleftrightarrow> (\<forall>p d. keeps_obs obs (env_ExecPlugin env p d)) \<and> (\<forall>k v. keeps_obs obs (env_Setenv env k v))"

lemma keeps_ipam:
  assumes "network_only env obs" and "ipam_keeps env obs"
  shows "keeps_obs obs (ExecAdd env t d)" "keeps_obs obs (ExecDel env t d)" "keeps_obs obs (env_Setenv env k v)"
  using keeps_delegate [OF assms(1)] assms(2) unfolding ipam_keeps_def by blast+

text \<open>The part of \<open>cmdAdd\<close> after the port is added.\<close>

lemma keeps_assign_addresses:
  assumes "network_only env obs" and "ipam_keeps env obs"
  shows "keeps_obs obs (assign_addresses env args nc v bridge res)"
  unfolding assign_addresses_def release_on_error_def
  using keeps_ipam [OF assms] keeps_ops [OF assms(1)] keeps_configure [OF assms(1)]
  by (auto intro!: keeps)

lemma cmdAdd_in_ns_rows:
  assumes db: "ovs_ports env rows" and keep: "network_only env rows" "ipam_keeps env rows"
    and pod: "\<And>e. fst (run_state (getPodInfo env) e) = Inr (ns, nm)"
    and run: "run_state (cmdAdd_in_ns env args nc v bridge) e = (Inr (), e')"
  obtains r e1 e2 hostVeth contVeth where "set (pod_ids (Netns args) ns nm) \<subseteq> set (row_ids r)"
    and "run_state (setupVeth env (Netns args) (ArgIfName args)) e1 = (Inr (hostVeth, contVeth), e2)"
    and "row_name r = IfaceName hostVeth" and "row_mac r = Mac contVeth"
    and "set (rows e') = insert r {r'. r' \<in> set (rows e) \<and> row_name r' \<noteq> row_name r}"
proof -
  note k = keeps_ops [OF keep(1)]
  obtain x e1 where s1: "run_state (setupVeth env (Netns args) (ArgIfName args)) e = (Inr x, e1)"
    and run1: "run_state (case x of (hi, ci) \<Rightarrow> go_bind (getPodInfo env) (\<lambda>(podNamespace, podName).
       go_bind (addPort env (BridgeName nc) (IfaceName hi) (Mac ci) (Netns args) podNamespace podName) (\<lambda>_.
       go_bind (env_LinkByName env (IfaceName hi)) (\<lambda>hostLink.
       go_bind (env_LinkSetUp env hostLink) (\<lambda>_.
       assign_addresses env args nc v bridge
         \<lparr>ResVersion = v, Interfaces = [bridge, hi, ci], IPs = [],
           Routes = [], ResDNS = \<lparr>Nameservers = [], Domain = [], Search = [], Options = []\<rparr>\<rparr>))))) e1 = (Inr (), e')"
    using run unfolding cmdAdd_in_ns_def by (rule go_bind_Inr_elim)
  obtain hi ci where x: "x = (hi, ci)" by (rule prod.exhaust)
  obtain y e2 where s2: "run_state (getPodInfo env) e1 = (Inr y, e2)"
    and run2: "run_state (case y of (podNamespace, podName) \<Rightarrow>
       go_bind (addPort env (BridgeName nc) (IfaceName hi) (Mac ci) (Netns args) podNamespace podName) (\<lambda>_.
       go_bind (env_LinkByName env (IfaceName hi)) (\<lambda>hostLink.
       go_bind (env_LinkSetUp env hostLink) (\<lambda>_.
       assign_addresses env args nc v bridge
         \<lparr>ResVersion = v, Interfaces = [bridge, hi, ci], IPs = [],
           Routes = [], ResDNS = \<lparr>Nameservers = [], Domain = [], Search = [], Options = []\<rparr>\<rparr>)))) e2 = (Inr (), e')"
    using run1 unfolding x prod.case by (rule go_bind_Inr_elim)
  have y: "y = (ns, nm)" using pod [of e1] s2 by simp
  obtain u e3 where s3: "run_state (addPort env (BridgeName nc) (IfaceName hi) (Mac ci) (Netns args) ns nm) e2 = (Inr u, e3)"
    and run3: "run_state (go_bind (env_LinkByName env (IfaceName hi)) (\<lambda>hostLink.
       go_bind (env_LinkSetUp env hostLink) (\<lambda>_.
       assign_addresses env args nc v bridge
         \<lparr>ResVersion = v, Interfaces = [bridge, hi, ci], IPs = [],
           Routes = [], ResDNS = \<lparr>Nameservers = [], Domain = [], Search = [], Options = []\<rparr>\<rparr>))) e3 = (Inr (), e')"
    using run2 unfolding y prod.case by (rule go_bind_Inr_elim)
  have r3: "rows e' = rows e3"
    by (rule keeps_obsD [OF _ run3]) (intro keeps_go_bind k keeps_assign_addresses keep)
  have r2: "rows e2 = rows e" using keeps_obsD [OF k(1) s1] keeps_obsD [OF k(2) s2] by simp
  obtain r where n: "row_name r = IfaceName hi" and ids: "set (pod_ids (Netns args) ns nm) \<subseteq> set (row_ids r)" and m: "row_mac r = Mac ci"
    and rs: "set (rows e3) = insert r {r'. r' \<in> set (rows e2) \<and> row_name r' \<noteq> IfaceName hi}"
    by (rule ovs_add [OF db s3])
  show ?thesis
    by (rule that [OF ids s1 [unfolded x] n m]) (simp add: r3 rs r2 n)
qed

lemma cmdAdd_rows:
  assumes db: "ovs_ports env rows" and keep: "network_only env rows" "ipam_keeps env rows"
    and pod: "\<And>e. fst (run_state (getPodInfo env) e) = Inr (ns, nm)"
    and run: "run_state (cmdAdd env args) e = (Inr (), e')"
  obtains r e1 e2 hostVeth contVeth where "set (pod_ids (Netns args) ns nm) \<subseteq> set (row_ids r)"
    and "run_state (setupVeth env (Netns args) (ArgIfName args)) e1 = (Inr (hostVeth, contVeth), e2)"
    and "row_name r = IfaceName hostVeth" and "row_mac r = Mac contVeth"
    and "set (rows e') = insert r {r'. r' \<in> set (rows e) \<and> row_name r' \<noteq> row_name r}"
  using keep(1) run
proof (cases rule: cmdAdd_cases)
  case (inner nc v bridge e1 e2)
  show ?thesis
    by (rule cmdAdd_in_ns_rows [OF db keep pod inner(3)]) (rule that, assumption+, simp only: inner(2,4))
qed simp

lemma setupVeth_mac:
  assumes "run_state (setupVeth env netns ifName) e = (Inr (hostVeth, contVeth), e')"
  shows "\<exists>e1 host link e2. run_state (env_SetupVeth env ifName 1500) e1 = (Inr (host, link), e2) \<and>
    Mac contVeth = hw_String (LinkHardwareAddr link)"
  using assms by (auto simp: setupVeth_def ns_Do_def run_simps run_state_bind Let_def split: prod.splits sum.splits)
    metis

text \<open>The kubelet's \<open>CNI_ARGS\<close> for the pod \<open>ns/nm\<close>, whenever the plugin reads it.\<close>

definition called_for :: "('e, 'z) CniEnv_scheme \<Rightarrow> string \<Rightarrow> string \<Rightarrow> bool" where
  "called_for env ns nm \<longleftrightarrow> dns_name ns \<and> dns_name nm \<and>
     (\<exists>cid. dns_name cid \<and> (\<forall>e. fst (run_state (env_Getenv env ''CNI_ARGS'') e) = kubelet_args ns nm cid))"

lemma called_for_getPodInfo:
  assumes "called_for env ns nm"
  shows "fst (run_state (getPodInfo env) e) = Inr (ns, nm)"
proof -
  obtain cid where cid: "dns_name ns" "dns_name nm" "dns_name cid"
    "\<And>e. fst (run_state (env_Getenv env ''CNI_ARGS'') e) = kubelet_args ns nm cid"
    using assms unfolding called_for_def by blast
  obtain a e' where "run_state (env_Getenv env ''CNI_ARGS'') e = (a, e')" by (rule prod.exhaust)
  then show ?thesis using cid(4) [of e] getPodInfo_kubelet [OF _ cid(1-3), of env e e'] by simp
qed

lemma key_subset: "set (pod_ids netns ns nm) \<subseteq> X \<Longrightarrow> set (pod_key ns nm) \<subseteq> X"
  by (simp add: pod_ids_key)

lemma attached_reads_pod:
  assumes db: "ovs_ports env rows" and keep: "network_only env rows" "ipam_keeps env rows"
    and pod: "called_for env (Namespace (PodMeta pod)) (Name (PodMeta pod))"
    and mac: "\<And>n e host link e'. run_state (env_SetupVeth env n 1500) e = (Inr (host, link), e') \<Longrightarrow> length (LinkHardwareAddr link) = 6"
    and new: "\<And>r. r \<in> set (rows e) \<Longrightarrow> \<not> set (pod_key (Namespace (PodMeta pod)) (Name (PodMeta pod))) \<subseteq> set (row_ids r)"
    and run: "run_state (cmdAdd env args) e = (Inr (), e')"
  obtains r mac where "r \<in> set (rows e')" and "set (pod_key (Namespace (PodMeta pod)) (Name (PodMeta pod))) \<subseteq> set (row_ids r)"
    and "length mac = 6" and "row_mac r = hw_String mac" and "reads_pod (Exec.truncate env) e' pod mac (row_ofport r)"
proof -
  let ?key = "pod_key (Namespace (PodMeta pod)) (Name (PodMeta pod))"
  obtain r e1 e2 hostVeth contVeth
    where ids: "set (pod_ids (Netns args) (Namespace (PodMeta pod)) (Name (PodMeta pod))) \<subseteq> set (row_ids r)"
      and veth: "run_state (setupVeth env (Netns args) (ArgIfName args)) e1 = (Inr (hostVeth, contVeth), e2)"
      and rm: "row_mac r = Mac contVeth"
      and rs: "set (rows e') = insert r {r'. r' \<in> set (rows e) \<and> row_name r' \<noteq> row_name r}"
    by (rule cmdAdd_rows [OF db keep called_for_getPodInfo [OF pod] run])
  obtain mc where mc: "length mc = 6" "row_mac r = hw_String mc" using setupVeth_mac [OF veth] mac rm by metis
  have key: "set ?key \<subseteq> set (row_ids r)" by (rule key_subset [OF ids])
  obtain tl where m: "matching ?key (rows e') = r # tl"
    by (rule matching_single [where q = ?key and h = e' and rows = rows, OF rs key]) (use new in auto)
  have r: "r \<in> set (rows e')" using rs by simp
  obtain out where find: "run_state (Output env ''ovs-vsctl'' ([''--format=json'', ''--column=name'', ''find'', ''port''] @ ?key)) e' = (Inr out, e')"
    and data: "unmarshal_Data out = Inr (map (\<lambda>r. [row_name r]) (matching ?key (rows e')))"
    by (rule ovs_find [OF db])
  have "reads_pod (Exec.truncate env) e' pod mc (row_ofport r)"
    unfolding reads_pod_def
    using find data m ovs_get [OF db r] mc(2)
    by (intro exI [of _ out] exI [of _ "row_name r"] exI [of _ "[]"] exI [of _ "map (\<lambda>r. [row_name r]) tl"])
      (simp add: pod_key_def)
  then show ?thesis using that [OF r key mc] by simp
qed

subsection \<open>\<open>cmdDel\<close>\<close>

lemma run_cni_findPort:
  assumes "ovs_ports env rows"
  shows "\<exists>err. run_state (cni_findPort env b netns ns nm) e =
    (case matching (pod_ids netns ns nm) (rows e) of [] \<Rightarrow> (Returns (Inl err), e) | r # _ \<Rightarrow> (Returns (Inr (row_name r)), e))"
proof -
  obtain out where "run_state (Output env ''ovs-vsctl'' ([''--format=json'', ''--column=name'', ''find'', ''port''] @ pod_ids netns ns nm)) e = (Inr out, e)"
    and "unmarshal_Data out = Inr (map (\<lambda>r. [row_name r]) (matching (pod_ids netns ns nm) (rows e)))"
    by (rule ovs_find [OF assms])
  then show ?thesis
    by (cases "matching (pod_ids netns ns nm) (rows e)") (auto simp: cni_findPort_def run_simps)
qed

lemma release_container_rows:
  assumes "network_only env obs" and "ipam_keeps env obs"
  shows "keeps_obs obs (release_container env args nc)"
  using keeps_ipam [OF assms] keeps_ops [OF assms(1)] unfolding release_container_def by (auto intro!: keeps)

lemma release_container_lease:
  assumes "manages env vars lease" and "run_state (release_container env args nc) e = (Inr (), e')" and "IPAMType nc \<noteq> []"
  shows "\<not> lease e'"
proof -
  note k = keeps_ops [OF managesD(2) [OF assms(1)]]
  let ?rest = "\<lambda>x :: unit. if Netns args = [] then go_return ()
     else
     go_bind (ns_Do env (Netns args) (delete_link env (ArgIfName args))) (\<lambda>ipnets.
     if IPAMType nc \<noteq> [] \<and> IPMasq nc then
       for_each (\<lambda>ipn. env_TeardownIPMasq env ipn
         (env_FormatChainName env (NetName nc) (ContainerID args))
         (env_FormatComment env (NetName nc) (ContainerID args))) ipnets
     else go_return ())"
  obtain u e1 where d: "run_state (ExecDel env (IPAMType nc) (StdinData args)) e = (Inr u, e1)"
    and run: "run_state (?rest u) e1 = (Inr (), e')"
    using assms(2,3) unfolding release_container_def by (auto elim: go_bind_Inr_elim)
  have "\<not> lease e1" using ExecDel_lease [OF assms(1) d] by simp
  moreover have "keeps_obs lease (?rest u)" by (auto intro!: keeps k)
  ultimately show ?thesis using keeps_obsD [OF _ run] by metis
qed

text \<open>What \<open>cmdDel\<close> does on a host with the port table \<open>rows\<close>.\<close>

lemma cmdDel_run:
  assumes db: "ovs_ports env rows" and pod: "called_for env ns nm" and net: "network_only env rows"
    and ns: "Netns args \<noteq> []" and conf: "loadNetConf (StdinData args) = Inr (nc, v)"
    and run: "run_state (cmdDel env args) e = (out, e')"
  obtains (missing) err where "matching (pod_ids (Netns args) ns nm) (rows e) = []" and "out = Returns (Inl err)"
      and "run_state (getPodInfo env) e = (Inr (ns, nm), e')"
    | (refused) r rs e1 err where "matching (pod_ids (Netns args) ns nm) (rows e) = r # rs" and "out = Returns (Inl err)"
      and "run_state (getPodInfo env) e = (Inr (ns, nm), e1)"
      and "run_state (delPort env (BridgeName nc) (row_name r)) e1 = (Inl err, e')"
    | (deleted) r rs e1 e2 res where "matching (pod_ids (Netns args) ns nm) (rows e) = r # rs"
      and "run_state (getPodInfo env) e = (Inr (ns, nm), e1)"
      and "run_state (delPort env (BridgeName nc) (row_name r)) e1 = (Inr (), e2)"
      and "run_state (release_container env args nc) e2 = (res, e')" and "out = Returns res"
proof -
  obtain e1 where p: "run_state (getPodInfo env) e = (Inr (ns, nm), e1)"
    using called_for_getPodInfo [OF pod, of e] by (metis prod.collapse)
  have r1: "rows e1 = rows e" using keeps_obsD [OF keeps_ops(2) [OF net] p] .
  obtain err0 where f: "run_state (cni_findPort env (BridgeName nc) (Netns args) ns nm) e1 =
    (case matching (pod_ids (Netns args) ns nm) (rows e1) of [] \<Rightarrow> (Returns (Inl err0), e1) | r # _ \<Rightarrow> (Returns (Inr (row_name r)), e1))"
    using run_cni_findPort [OF db] by blast
  show ?thesis
  proof (cases "matching (pod_ids (Netns args) ns nm) (rows e)")
    case Nil
    then have "out = Returns (Inl err0)" "e' = e1" using run p f r1 ns conf by (simp_all add: cmdDel_def run_simps)
    then show ?thesis using missing Nil p by simp
  next
    case (Cons r rs)
    obtain d e2 where d: "run_state (delPort env (BridgeName nc) (row_name r)) e1 = (d, e2)" by (rule prod.exhaust)
    obtain res e3 where t: "run_state (release_container env args nc) e2 = (res, e3)" by (rule prod.exhaust)
    show ?thesis
    proof (cases d)
      case (Inl err)
      then have "out = Returns (Inl err)" "e' = e2" using run p f r1 ns conf Cons d by (simp_all add: cmdDel_def run_simps)
      then show ?thesis using refused Cons p d Inl by simp
    next
      case (Inr u)
      then have "out = Returns res" "e' = e3" using run p f r1 ns conf Cons d t by (simp_all add: cmdDel_def run_simps)
      then show ?thesis using deleted Cons p d t Inr by simp
    qed
  qed
qed

subsection \<open>A host for the examples\<close>

record cni_host =
  h_cmd :: string
  h_lease :: bool
  h_port :: "(string list \<times> string) option"
  h_addrs :: "IPNet list"

abbreviation fresh_host :: cni_host where
  "fresh_host \<equiv> \<lparr>h_cmd = ''ADD'', h_lease = False, h_port = None, h_addrs = []\<rparr>"

definition demo_rows :: "cni_host \<Rightarrow> ovs_row list" where
  "demo_rows h = (case h_port h of None \<Rightarrow> []
     | Some (ids, mac) \<Rightarrow> [\<lparr>row_name = ''veth1'', row_ids = ids, row_mac = mac, row_ofport = 5\<rparr>])"

definition demo_combined :: "string list \<Rightarrow> (cni_host, string) go" where
  "demo_combined a = State (\<lambda>h.
     if a ! 1 = ''add-port'' \<and> a ! 3 = ''veth1'' then
       (Inr [], h\<lparr>h_port := Some (take ((length a - 17) div 2) (drop 8 a), butlast (drop 5 (last a)))\<rparr>)
     else if a ! 1 = ''del-port'' then (Inr [], if a ! 3 = ''veth1'' then h\<lparr>h_port := None\<rparr> else h)
     else if a ! 1 = ''Interface'' then (Inr (nat_string 5 @ [CHR 0x0A]), h)
     else (Inl (OpaqueError ''ovs-vsctl''), h))"

definition demo_output :: "string list \<Rightarrow> (cni_host, string) go" where
  "demo_output a = State (\<lambda>h.
     (Inr (if hd a = ''get'' then CHR 0x22 # (case h_port h of None \<Rightarrow> [] | Some p \<Rightarrow> snd p) @ [CHR 0x22, CHR 0x0A]
           else if matching (drop 4 a) (demo_rows h) = [] then
             [CHR 0x7B, CHR 0x22] @ ''data'' @ [CHR 0x22] @ '':[]'' @ [CHR 0x7D]
           else [CHR 0x7B, CHR 0x22] @ ''data'' @ [CHR 0x22] @ '':[['' @ [CHR 0x22] @ ''veth1'' @ [CHR 0x22] @ '']]'' @ [CHR 0x7D]), h))"

definition demo_ipconfig :: IPConfig where
  "demo_ipconfig = \<lparr>IPVersion = ''4'', IfIndex = None,
     IPAddress = \<lparr>NetIP = [10, 244, 1, 7], NetMask = [255, 255, 255, 0]\<rparr>, Gateway = [10, 244, 1, 1]\<rparr>"

definition demo_vars :: "cni_host \<Rightarrow> string \<Rightarrow> string" where
  "demo_vars h k =
     (if k = ''CNI_COMMAND'' then h_cmd h else if k = ''CNI_ARGS'' then kubelet_args ''default'' ''web'' ''c1''
      else if k = ''CNI_PATH'' then ''/opt/cni/bin'' else if k = ''CNI_CONTAINERID'' then ''c1''
      else if k = ''CNI_NETNS'' then ''/proc/1/ns/net'' else if k = ''CNI_IFNAME'' then ''eth0'' else [])"

definition demo_getenv :: "string \<Rightarrow> (cni_host, string) state" where
  "demo_getenv k = State (\<lambda>h. (demo_vars h k, h))"

definition demo_decoder :: ResultDecoder where
  "demo_decoder = \<lparr>current_NewResult = (\<lambda>_. Inl unmarshal_type_error),
     types020_NewResult = (\<lambda>_. Inr \<lparr>CNIVersion020 = ''0.2.0'',
       IP4 = Some \<lparr>IP020 = \<lparr>NetIP = [10, 244, 1, 7], NetMask = [255, 255, 255, 0]\<rparr>, Gateway020 = [10, 244, 1, 1], Routes020 = []\<rparr>,
       IP6 = None, DNS020 = \<lparr>Nameservers = [], Domain = [], Search = [], Options = []\<rparr>\<rparr>)\<rparr>"

definition demo_cni :: "bool \<Rightarrow> cni_host CniEnv" where
  "demo_cni ok = \<lparr>CombinedOutput = (\<lambda>_. demo_combined), Output = (\<lambda>_. demo_output),
     env_Getenv = demo_getenv,
     env_Setenv = (\<lambda>k v. State (\<lambda>h. ((), if k = ''CNI_COMMAND'' then h\<lparr>h_cmd := v\<rparr> else h))),
     env_LinkByName = (\<lambda>n. go_return \<lparr>LinkName = n, LinkHardwareAddr = [10, 0, 0, 0, 0, 1]\<rparr>),
     env_LinkSetUp = (\<lambda>_. go_return ()), env_LinkSetHardwareAddr = (\<lambda>_ _. go_return ()),
     env_AddrList = (\<lambda>_ _. State (\<lambda>h. (Inr (h_addrs h), h))),
     env_AddrAdd = (\<lambda>_ a. State (\<lambda>h. (Inr (), h\<lparr>h_addrs := h_addrs h @ [a]\<rparr>))),
     env_AddrDel = (\<lambda>_ a. State (\<lambda>h. (Inr (), h\<lparr>h_addrs := removeAll a (h_addrs h)\<rparr>))),
     env_GetNS = (\<lambda>_. go_return ()), env_CloseNS = (\<lambda>_. State_Monad.return ()),
     env_EnterNS = (\<lambda>_. go_return ()), env_LeaveNS = (\<lambda>_. State_Monad.return ()),
     env_SetupVeth = (\<lambda>n _. go_return (''veth1'', \<lparr>LinkName = n, LinkHardwareAddr = [10, 0, 0, 0, 0, 7]\<rparr>)),
     env_InterfaceByName = (\<lambda>_. go_return ()), env_DelLinkByNameAddr = (\<lambda>_. go_return []),
     env_ReadFile = (\<lambda>_. go_return []), env_WriteFile = (\<lambda>_ _ _. go_return ()),
     env_Join = (\<lambda>dir plugin. dir @ ''/'' @ plugin), env_IsRegular = (\<lambda>f. f = ''/opt/cni/bin/host-local''),
     env_ExecPlugin = (\<lambda>_ _. State (\<lambda>h. (Inr [], h\<lparr>h_lease := (h_cmd h = ''ADD'')\<rparr>))),
     env_Decoder = demo_decoder,
     env_ConfigureIface = (\<lambda>_ _. if ok then go_return () else go_fail (OpaqueError ''link'')),
     env_GratuitousArp = (\<lambda>_ _. go_return ()), env_EnableIP4Forward = go_return (), env_EnableIP6Forward = go_return (),
     env_FormatChainName = (\<lambda>_ _. []), env_FormatComment = (\<lambda>_ _. []),
     env_SetupIPMasq = (\<lambda>_ _ _. go_return ()), env_TeardownIPMasq = (\<lambda>_ _ _. go_return ()),
     env_PrintCurrent = (\<lambda>_. go_return ()), env_Print020 = (\<lambda>_. go_return ())\<rparr>"

definition demo_args :: CmdArgs where
  "demo_args = \<lparr>ContainerID = ''c1'', Netns = ''/proc/1/ns/net'', ArgIfName = ''eth0'',
     CniArgs = kubelet_args ''default'' ''web'' ''c1'', CniPath = ''/opt/cni/bin'', StdinData = cni_conf ''10.244.1.0/24''\<rparr>"

lemma demo_keeps [keeps]:
  "keeps_obs f (demo_output a)"
  "(\<And>h x. obs (h\<lparr>h_port := x\<rparr>) = obs h) \<Longrightarrow> keeps_obs obs (demo_combined a)"
  "(\<And>h x. obs (h\<lparr>h_lease := x\<rparr>) = obs h) \<Longrightarrow> keeps_obs obs (State (\<lambda>h. (r, h\<lparr>h_lease := b h\<rparr>)))"
  "(\<And>h x. obs (h\<lparr>h_cmd := x\<rparr>) = obs h) \<Longrightarrow> keeps_obs obs (State (\<lambda>h. (u, if c then h\<lparr>h_cmd := v\<rparr> else h)))"
  "keeps_obs f (State (\<lambda>h. (r' h, h)))"
  "keeps_obs f (demo_getenv k)"
  "(\<And>h. obs (h\<lparr>h_addrs := g h\<rparr>) = obs h) \<Longrightarrow> keeps_obs obs (State (\<lambda>h. (x, h\<lparr>h_addrs := g h\<rparr>)))"
  by (simp_all add: keeps_obs_def demo_output_def demo_combined_def demo_getenv_def)

lemma demo_vars_simps [simp]:
  "demo_vars (h\<lparr>h_lease := l\<rparr>) = demo_vars h" "demo_vars (h\<lparr>h_port := q\<rparr>) = demo_vars h" "demo_vars (h\<lparr>h_addrs := a\<rparr>) = demo_vars h"
  "demo_vars (h\<lparr>h_cmd := c\<rparr>) = (demo_vars h)(''CNI_COMMAND'' := c)"
  by (simp_all add: demo_vars_def fun_eq_iff)

lemma demo_cmd [simp]: "demo_vars h ''CNI_COMMAND'' = h_cmd h"
  by (simp add: demo_vars_def)

lemma demo_os_env: "os_env (demo_cni ok) demo_vars"
  unfolding os_env_def network_only_def commands_keep_def
  by (auto simp: demo_cni_def demo_getenv_def [abs_def] intro!: keeps)

lemma demo_manages: "manages (demo_cni ok) demo_vars h_lease"
  unfolding manages_def network_only_def commands_keep_def
  by (auto simp: demo_os_env) (auto simp: demo_cni_def demo_vars_def intro!: keeps)

lemma demo_network: "network_only (demo_cni ok) demo_rows" "ipam_keeps (demo_cni ok) demo_rows"
  unfolding network_only_def ipam_keeps_def
  by (auto simp: demo_cni_def demo_rows_def intro!: keeps)

lemma demo_none: "unmarshal_Data ([CHR 0x7B, CHR 0x22] @ ''data'' @ [CHR 0x22] @ '':[]'' @ [CHR 0x7D]) = Inr []"
  by code_simp

lemma demo_ovs_ports: "ovs_ports (demo_cni ok) demo_rows"
proof -
  have add: "\<exists>r. row_name r = p \<and> set ids \<subseteq> set (row_ids r) \<and> row_mac r = mac \<and>
      set (demo_rows h') = insert r {r'. r' \<in> set (demo_rows h) \<and> row_name r' \<noteq> p}"
    if "run_state (demo_combined (add_port_args b p ids mac)) h = (Inr out, h')" for b p ids mac h out h'
    using that by (auto simp: demo_combined_def add_port_args_def demo_rows_def split: if_splits option.splits)
  have get: "reads_port (Exec.truncate (demo_cni ok)) h n 5" for h n
    by (simp add: reads_port_def demo_cni_def demo_combined_def)
  show ?thesis
    unfolding ovs_ports_def
  proof (intro conjI allI impI, goal_cases)
    case 1
    then show ?case by (intro add) (simp add: demo_cni_def)
  next
    case 2
    then show ?case
      by (auto simp: demo_cni_def demo_combined_def demo_rows_def split: if_splits option.splits)
  next
    case (3 q h)
    show ?case
      using demo_data [simplified append.simps] demo_none [simplified append.simps]
      by (auto simp: demo_cni_def demo_output_def matching_def demo_rows_def split: option.splits)
  next
    case (4 h r)
    then show ?case by (auto simp: demo_cni_def demo_output_def demo_rows_def split: option.splits)
  next
    case (5 h r)
    then show ?case using get by (auto simp: demo_rows_def split: option.splits)
  qed
qed

lemma demo_called: "called_for (demo_cni ok) ''default'' ''web''"
  unfolding called_for_def by (auto simp: demo_cni_def demo_getenv_def demo_vars_def dns_char_def Let_def intro!: exI [of _ "''c1''"])

lemma demo_conf: "loadNetConf (StdinData demo_args) = Inr (installed_conf, [])"
proof -
  have "list_all plain ''10.244.1.0/24''" by (simp add: plain_def)
  then show ?thesis using loadNetConf_cni_conf by (simp add: demo_args_def)
qed

lemma demo_delegate:
  "plugin_path (demo_cni ok) ''host-local'' (demo_vars h) = Inr ''/opt/cni/bin/host-local''"
  "decode_delegated (demo_cni ok) (StdinData demo_args) out = Inr (Old \<lparr>CNIVersion020 = ''0.2.0'',
     IP4 = Some \<lparr>IP020 = \<lparr>NetIP = [10, 244, 1, 7], NetMask = [255, 255, 255, 0]\<rparr>, Gateway020 = [10, 244, 1, 1], Routes020 = []\<rparr>,
     IP6 = None, DNS020 = \<lparr>Nameservers = [], Domain = [], Search = [], Options = []\<rparr>\<rparr>)"
proof -
  show "plugin_path (demo_cni ok) ''host-local'' (demo_vars h) = Inr ''/opt/cni/bin/host-local''"
    by (simp add: plugin_path_def demo_vars_def filepath_SplitList_def strings_Split_nosep FindInPath_def demo_cni_def)
  have "list_all plain ''10.244.1.0/24''" by (simp add: plain_def)
  then show "decode_delegated (demo_cni ok) (StdinData demo_args) out = Inr (Old \<lparr>CNIVersion020 = ''0.2.0'',
     IP4 = Some \<lparr>IP020 = \<lparr>NetIP = [10, 244, 1, 7], NetMask = [255, 255, 255, 0]\<rparr>, Gateway020 = [10, 244, 1, 1], Routes020 = []\<rparr>,
     IP6 = None, DNS020 = \<lparr>Nameservers = [], Domain = [], Search = [], Options = []\<rparr>\<rparr>)"
    using Decode_cni_conf
    by (simp add: decode_delegated_def demo_args_def version_NewResult_def CheckRaw_None current_SupportedVersions_def
      types020_SupportedVersions_def demo_cni_def demo_decoder_def)
qed

lemma demo_run: "run_state (env_ExecPlugin (demo_cni ok) p d) h = (Inr [], h\<lparr>h_lease := (h_cmd h = ''ADD'')\<rparr>)"
  "env_PrintCurrent (demo_cni ok) = (\<lambda>_. go_return ())" "env_Print020 (demo_cni ok) = (\<lambda>_. go_return ())"
  by (simp_all add: demo_cni_def)

lemma demo_ipam:
  "h_cmd h = ''ADD'' \<Longrightarrow> run_state (ExecAdd (demo_cni ok) ''host-local'' (StdinData demo_args)) h =
     (Inr (Old \<lparr>CNIVersion020 = ''0.2.0'',
        IP4 = Some \<lparr>IP020 = \<lparr>NetIP = [10, 244, 1, 7], NetMask = [255, 255, 255, 0]\<rparr>, Gateway020 = [10, 244, 1, 1], Routes020 = []\<rparr>,
        IP6 = None, DNS020 = \<lparr>Nameservers = [], Domain = [], Search = [], Options = []\<rparr>\<rparr>), h\<lparr>h_lease := True\<rparr>)"
  "h_cmd h = ''DEL'' \<Longrightarrow> run_state (ExecDel (demo_cni ok) ''host-local'' (StdinData demo_args)) h = (Inr (), h\<lparr>h_lease := False\<rparr>)"
  using demo_delegate demo_run
  by (simp_all add: run_ExecAdd [OF demo_os_env] run_ExecDel [OF demo_os_env])

lemma demo_NewResult:
  "NewResultFromResult (Old \<lparr>CNIVersion020 = ''0.2.0'',
     IP4 = Some \<lparr>IP020 = \<lparr>NetIP = [10, 244, 1, 7], NetMask = [255, 255, 255, 0]\<rparr>, Gateway020 = [10, 244, 1, 1], Routes020 = []\<rparr>,
     IP6 = None, DNS020 = \<lparr>Nameservers = [], Domain = [], Search = [], Options = []\<rparr>\<rparr>) =
   Inr \<lparr>ResVersion = ''0.3.1'', Interfaces = [], IPs = [demo_ipconfig], Routes = [],
     ResDNS = \<lparr>Nameservers = [], Domain = [], Search = [], Options = []\<rparr>\<rparr>"
  by code_simp

lemma demo_print: "list_ex (\<lambda>c. IPVersion c = ''4'') (IPs res) \<Longrightarrow> run_state (PrintResult (demo_cni ok) res []) h = (Inr (), h)"
  by (auto simp: PrintResult_def current_GetAsVersion_def convertTo020_eq types020_SupportedVersions_def
    current_ImplementedSpecVersion_def list_ex_iff run_simps demo_run)

lemma demo_getPodInfo: "run_state (getPodInfo (demo_cni ok)) h = (Inr (''default'', ''web''), h)"
  by (rule getPodInfo_kubelet [where cid = "''c1''"]) (simp_all add: demo_cni_def demo_getenv_def demo_vars_def dns_char_def)

abbreviation demo_ids :: "string list" where
  "demo_ids \<equiv> pod_ids ''/proc/1/ns/net'' ''default'' ''web''"

lemma demo_addPort:
  "run_state (addPort (demo_cni ok) b ''veth1'' mac netns ns nm) h =
     (Inr (), h\<lparr>h_port := Some (pod_ids netns ns nm, mac)\<rparr>)"
  by (simp add: addPort_def run_simps demo_cni_def demo_combined_def pod_ids_def)

lemma demo_calc: "IPs res = [demo_ipconfig] \<Longrightarrow> Routes res = [] \<Longrightarrow> calcGateways res installed_conf =
    Inr (res\<lparr>IPs := [demo_ipconfig\<lparr>IfIndex := Some 2\<rparr>],
      Routes := [\<lparr>RouteDst = \<lparr>NetIP = IPv4zero, NetMask = IPv4zero\<rparr>, RouteGW = [10, 244, 1, 1]\<rparr>]\<rparr>,
      \<lparr>gws = [], family = FAMILY_V4, defaultRouteFound = True\<rparr>, new_gwInfo)"
  by (simp add: calcGateways_def calc_one_def default_route_def demo_ipconfig_def installed_conf_def new_netconf_def
    new_gwInfo_def rbind_def Let_def)

lemma demo_cmdAdd:
  "run_state (cmdAdd (demo_cni ok) demo_args) fresh_host =
     (if ok then (Inr (), \<lparr>h_cmd = ''ADD'', h_lease = True, h_port = Some (demo_ids, hw_String [10, 0, 0, 0, 0, 7]), h_addrs = []\<rparr>)
      else (Inl (Wrapf ''failed to configure container addresses: %v'' [] (OpaqueError ''link'')),
        \<lparr>h_cmd = ''ADD'', h_lease = False, h_port = Some (demo_ids, hw_String [10, 0, 0, 0, 0, 7]), h_addrs = []\<rparr>))"
proof -
  have args: "Netns demo_args = ''/proc/1/ns/net''" "ArgIfName demo_args = ''eth0''" by (simp_all add: demo_args_def)
  have ops: "env_LinkByName (demo_cni x) n = go_return \<lparr>LinkName = n, LinkHardwareAddr = [10, 0, 0, 0, 0, 1]\<rparr>"
    "env_LinkSetUp (demo_cni x) l = go_return ()"
    "env_GetNS (demo_cni x) p = go_return ()" "env_CloseNS (demo_cni x) p = State_Monad.return ()"
    "env_Setenv (demo_cni x) ''CNI_COMMAND'' v = State (\<lambda>h. ((), h\<lparr>h_cmd := v\<rparr>))" for x n l p v
    by (simp_all add: demo_cni_def)
  have version: "IPVersion demo_ipconfig = ''4''" by (simp add: demo_ipconfig_def)
  have veth: "run_state (setupVeth (demo_cni ok) p n) h =
    (Inr (\<lparr>IfaceName = ''veth1'', Mac = hw_String [10, 0, 0, 0, 0, 1], Sandbox = []\<rparr>,
      \<lparr>IfaceName = n, Mac = hw_String [10, 0, 0, 0, 0, 7], Sandbox = p\<rparr>), h)" for p n h
    by (simp add: setupVeth_def ns_Do_def run_simps run_state_bind demo_cni_def Let_def)
  have container: "run_state (ns_Do (demo_cni ok) p (configure_container (demo_cni ok) demo_args installed_conf res)) h =
      (if ok then Inr () else Inl (OpaqueError ''link''), h)" if "IPs res = [demo_ipconfig\<lparr>IfIndex := Some 2\<rparr>]" for p res h
    using that
    by (simp add: ns_Do_def configure_container_def run_simps run_state_bind demo_cni_def demo_ipconfig_def ignore_def)
  have conf: "IPAMType installed_conf = ''host-local''" "\<not> IsGW installed_conf" "\<not> IPMasq installed_conf"
    "BridgeName installed_conf = ''kube-ovs0''"
    by (simp_all add: installed_conf_def new_netconf_def)
  show ?thesis
    by (simp add: cmdAdd_def demo_conf run_simps run_state_bind getBridgeInterface_def bridgeByName_def ops cmdAdd_in_ns_def
      veth demo_getPodInfo demo_addPort assign_addresses_def conf configure_addresses_def Let_def demo_calc container
      release_on_error_def refetch_bridge_def args demo_ipam demo_NewResult demo_print version)
qed

lemma demo_cmdDel:
  "run_state (cmdDel (demo_cni ok) demo_args) \<lparr>h_cmd = ''DEL'', h_lease = l, h_port = Some (demo_ids, mac), h_addrs = []\<rparr> =
     (Returns (Inr ()), fresh_host\<lparr>h_cmd := ''DEL''\<rparr>)"
proof -
  let ?h = "\<lparr>h_cmd = ''DEL'', h_lease = l, h_port = Some (demo_ids, mac), h_addrs = []\<rparr>"
  have f: "run_state (cni_findPort (demo_cni ok) b ''/proc/1/ns/net'' ''default'' ''web'') ?h = (Returns (Inr ''veth1''), ?h)" for b
    using run_cni_findPort [OF demo_ovs_ports, of ok b "''/proc/1/ns/net''" "''default''" "''web''" ?h]
    by (auto simp: demo_rows_def matching_def)
  have conf: "IPAMType installed_conf = ''host-local''" "\<not> IPMasq installed_conf"
    by (simp_all add: installed_conf_def new_netconf_def)
  have d: "run_state (delPort (demo_cni ok) b ''veth1'') h = (Inr (), h\<lparr>h_port := None\<rparr>)" for b h
    by (simp add: delPort_def run_simps demo_cni_def demo_combined_def)
  have args: "Netns demo_args = ''/proc/1/ns/net''" by (simp add: demo_args_def)
  have "run_state (release_container (demo_cni ok) demo_args installed_conf) h = (Inr (), h\<lparr>h_lease := False\<rparr>)"
    if "h_cmd h = ''DEL''" for h
    using that by (simp add: release_container_def conf args run_simps demo_ipam)
      (simp add: run_simps run_state_bind ns_Do_def delete_link_def demo_cni_def)
  then show ?thesis
    by (simp add: cmdDel_def demo_conf demo_getPodInfo run_simps f d args)
qed

lemma cmdAdd_lease:
  assumes "manages env vars lease" and "vars e ''CNI_COMMAND'' = ''ADD''" and "\<not> lease e"
    and "run_state (cmdAdd env args) e = (r, e')"
  shows "case r of Inl err \<Rightarrow> \<not> lease e' \<or> print_fails env vars (StdinData args) err \<or> garbled env vars (StdinData args) err
    | Inr u \<Rightarrow> (\<exists>nc v. loadNetConf (StdinData args) = Inr (nc, v) \<and> lease e' = (IPAMType nc \<noteq> []))"
  using network_only_pair [OF managesD(2) [OF assms(1)] os_envD(1) [OF managesD(1) [OF assms(1)]]] assms(4)
proof (cases rule: cmdAdd_cases)
  case early
  then show ?thesis using assms(3) by (auto split: sum.split)
next
  case (inner nc v bridge e1 e2)
  have "lease_safe env vars lease (StdinData args) (IPAMType nc \<noteq> []) (cmdAdd_in_ns env args nc v bridge)"
    by (rule cmdAdd_in_ns_lease [OF assms(1) inner(1)])
  moreover have "\<not> lease e1" "vars e1 ''CNI_COMMAND'' = ''ADD''" using inner(2) assms(2,3) by simp_all
  ultimately have "(\<not> isl r \<longrightarrow> lease e2 = (IPAMType nc \<noteq> [])) \<and>
      (\<forall>err. r = Inl err \<longrightarrow> \<not> lease e2 \<or> print_fails env vars (StdinData args) err \<or> garbled env vars (StdinData args) err)"
    using inner(3) unfolding lease_safe_def by blast
  then show ?thesis using inner(1,4) by (auto split: sum.split)
qed

subsection \<open>Properties\<close>



text \<open>
  C28: the flows of a new pod. After \<open>cmdAdd\<close> has attached a pod that had no port before, the
  OpenFlow controller that is shown the pod finds its port under the keys the plugin wrote and queues
  exactly the pod's two entries, with the MAC address of the container's interface and the port
  number the switch gave to the port.
\<close>

theorem attached_pod_flows:
  assumes "ovs_ports env rows" and "network_only env rows" and "ipam_keeps env rows"
    and "called_for env (Namespace (PodMeta pod)) (Name (PodMeta pod))"
    and "\<And>n e host link e'. run_state (env_SetupVeth env n 1500) e = (Inr (host, link), e') \<Longrightarrow> length (LinkHardwareAddr link) = 6"
    and "\<And>r. r \<in> set (rows e) \<Longrightarrow> \<not> set (pod_key (Namespace (PodMeta pod)) (Name (PodMeta pod))) \<subseteq> set (row_ids r)"
    and "run_state (cmdAdd env args) e = (Inr (), host w)"
    and "cidr_of (ctl_podCIDR c) pip pn" and "PodIP pod = dotted ip" and "length ip = 4" and "in_prefix pip pn ip"
  shows "\<exists>r mac w' flows. r \<in> set (rows (host w)) \<and> row_mac r = hw_String mac \<and> length mac = 6 \<and>
    run_state (syncPod (Exec.truncate env) c pod) w = (Returns (Inr ()), w') \<and>
    sent w' = sent w @ map FlowModMsg flows \<and> map abs_flow flows = pod_entries ip mac (of_nat (row_ofport r))"
proof -
  obtain r mac where r: "r \<in> set (rows (host w))" "length mac = 6" "row_mac r = hw_String mac"
    and reads: "reads_pod (Exec.truncate env) (host w) pod mac (row_ofport r)"
    by (rule attached_reads_pod [OF assms(1-7)])
  have "isLocalIP c (PodIP pod) = Inr True" using isLocalIP_iff [OF assms(8,10)] assms(9,11) by simp
  from syncPod_entries [OF this assms(9,10) r(2) reads] show ?thesis using r by blast
qed

theorem attached_pod_flows_witness:
  "\<exists>w' flows mac. run_state (syncPod (Exec.truncate (demo_cni True)) demo_ctl demo_pod)
       \<lparr>xid_ctr = 0, sent = [], host = snd (run_state (cmdAdd (demo_cni True) demo_args) fresh_host)\<rparr>
       = (Returns (Inr ()), w') \<and>
     sent w' = map FlowModMsg flows \<and> map abs_flow flows = pod_entries [10, 244, 1, 7] mac 5"
proof -
  let ?w = "\<lparr>xid_ctr = 0, sent = [], host = snd (run_state (cmdAdd (demo_cni True) demo_args) fresh_host)\<rparr>"
  have pod: "called_for (demo_cni True) (Namespace (PodMeta demo_pod)) (Name (PodMeta demo_pod))"
    using demo_called by (simp add: demo_pod_def)
  have loc: "in_prefix [10, 244, 1, 0] 24 [10, 244, 1, 7]" by (simp add: in_prefix_def SetBytes_def)
  have ip: "PodIP demo_pod = dotted [10, 244, 1, 7]" unfolding demo_strings(2) [symmetric] by (simp add: demo_pod_def)
  have run: "run_state (cmdAdd (demo_cni True) demo_args) fresh_host = (Inr (), host ?w)"
    by (simp add: demo_cmdAdd)
  have c: "cidr_of (ctl_podCIDR demo_ctl) [10, 244, 1, 0] 24" using demo_cidrs(1) by (simp add: demo_ctl_def)
  have "\<exists>r mac w' flows. r \<in> set (demo_rows (host ?w)) \<and> row_mac r = hw_String mac \<and> length mac = 6 \<and>
    run_state (syncPod (Exec.truncate (demo_cni True)) demo_ctl demo_pod) ?w = (Returns (Inr ()), w') \<and>
    sent w' = sent ?w @ map FlowModMsg flows \<and> map abs_flow flows = pod_entries [10, 244, 1, 7] mac (of_nat (row_ofport r))"
  proof (rule attached_pod_flows [OF demo_ovs_ports demo_network pod _ _ run c ip _ loc], goal_cases)
    case (1 n e host link e')
    then show ?case by (auto simp: demo_cni_def run_simps)
  qed (simp_all add: demo_rows_def)
  moreover have "row_ofport r = 5" if "r \<in> set (demo_rows h)" for r h
    using that by (auto simp: demo_rows_def split: option.splits)
  ultimately show ?thesis by fastforce
qed





end
