(* ===== verification/Cni_Gateways.thy ===== *)
theory Cni_Gateways
  imports Pod_Attachment
begin

text \<open>
  The CNI plugin's loading of the configuration, its default routes and the address of the bridge.
\<close>

subsection \<open>Default routes\<close>

definition routed :: "IP \<Rightarrow> Route list \<Rightarrow> bool" where
  "routed zero routes \<longleftrightarrow>
     (\<exists>r \<in> set routes. IPNet_String (RouteDst r) = IPNet_String \<lparr>NetIP = zero, NetMask = zero\<rparr>)"

lemma routed_append [simp]: "routed zero (routes @ new) \<longleftrightarrow> routed zero routes \<or> routed zero new"
  by (auto simp: routed_def)

definition free_slots :: "gwInfo \<Rightarrow> nat" where
  "free_slots g = (if defaultRouteFound g then 0 else 1)"

lemma calc_one_routes:
  assumes "calc_one n fam zero ipc g routes = (ipc', g', routes')" and "IsDefaultGW n"
    and "defaultRouteFound g \<longrightarrow> routed zero routes"
  obtains new where "routes' = routes @ new" and "length new \<le> free_slots g" and "routed zero routes'"
    and "defaultRouteFound g'" and "IPAddress ipc' = IPAddress ipc" and "\<forall>r\<in>set new. RouteGW r = Gateway ipc'"
proof -
  have "\<exists>new. routes' = routes @ new \<and> length new \<le> free_slots g \<and> routed zero routes' \<and>
      defaultRouteFound g' \<and> IPAddress ipc' = IPAddress ipc \<and> (\<forall>r\<in>set new. RouteGW r = Gateway ipc')"
    using assms unfolding calc_one_def default_route_def
    by (auto simp: Let_def free_slots_def routed_def list_ex_iff split: if_splits prod.splits)
  then show ?thesis using that by blast
qed

text \<open>The default destination of an address's family.\<close>

definition zero_of :: "IPConfig \<Rightarrow> IP" where
  "zero_of ipc = (if To4 (NetIP (IPAddress ipc)) \<noteq> None then IPv4zero else IPv6zero)"

lemma calc_loop_routes:
  assumes "calc_loop n ips g4 g6 routes = Inr (ips', h4, h6, routes')" and "IsDefaultGW n"
    and "defaultRouteFound g4 \<longrightarrow> routed IPv4zero routes" and "defaultRouteFound g6 \<longrightarrow> routed IPv6zero routes"
  shows "\<exists>new. routes' = routes @ new \<and> length new \<le> free_slots g4 + free_slots g6 \<and>
     map IPAddress ips' = map IPAddress ips \<and> (\<forall>ipc\<in>set ips'. routed (zero_of ipc) routes') \<and>
     (\<forall>r\<in>set new. \<exists>ipc\<in>set ips'. RouteGW r = Gateway ipc)"
  using assms
proof (induction ips arbitrary: g4 g6 routes ips')
  case Nil
  then show ?case by simp
next
  case (Cons ipc ips)
  show ?case
  proof (cases "To4 (NetIP (IPAddress ipc)) = None")
    case False
    obtain ipc' g4' r1 where one: "calc_one n FAMILY_V4 IPv4zero ipc g4 routes = (ipc', g4', r1)" by (rule prod_cases3)
    obtain new where new: "r1 = routes @ new" "length new \<le> free_slots g4" "routed IPv4zero r1" "defaultRouteFound g4'"
      "IPAddress ipc' = IPAddress ipc" "\<forall>r\<in>set new. RouteGW r = Gateway ipc'"
      by (rule calc_one_routes [OF one Cons.prems(2,3)])
    obtain ips1 where rest: "calc_loop n ips g4' g6 r1 = Inr (ips1, h4, h6, routes')" and ips': "ips' = ipc' # ips1"
      using Cons.prems(1) False one by (auto simp: rbind_def split: sum.splits)
    obtain more where "routes' = r1 @ more" "length more \<le> free_slots g4' + free_slots g6"
      "map IPAddress ips1 = map IPAddress ips" "\<forall>ipc\<in>set ips1. routed (zero_of ipc) routes'"
      "\<forall>r\<in>set more. \<exists>ipc\<in>set ips1. RouteGW r = Gateway ipc"
      using Cons.IH [OF rest Cons.prems(2)] new(1,3) Cons.prems(4) by auto
    moreover have "zero_of ipc' = IPv4zero" using False new(5) by (simp add: zero_of_def)
    ultimately show ?thesis
      using new ips' by (intro exI [of _ "new @ more"]) (auto simp: free_slots_def)
  next
    case True
    obtain ipc' g6' r1 where one: "calc_one n FAMILY_V6 IPv6zero ipc g6 routes = (ipc', g6', r1)" by (rule prod_cases3)
    obtain new where new: "r1 = routes @ new" "length new \<le> free_slots g6" "routed IPv6zero r1" "defaultRouteFound g6'"
      "IPAddress ipc' = IPAddress ipc" "\<forall>r\<in>set new. RouteGW r = Gateway ipc'"
      by (rule calc_one_routes [OF one Cons.prems(2,4)])
    obtain ips1 where rest: "calc_loop n ips g4 g6' r1 = Inr (ips1, h4, h6, routes')" and ips': "ips' = ipc' # ips1"
      using Cons.prems(1) True one by (auto simp: rbind_def split: sum.splits if_splits)
    obtain more where "routes' = r1 @ more" "length more \<le> free_slots g4 + free_slots g6'"
      "map IPAddress ips1 = map IPAddress ips" "\<forall>ipc\<in>set ips1. routed (zero_of ipc) routes'"
      "\<forall>r\<in>set more. \<exists>ipc\<in>set ips1. RouteGW r = Gateway ipc"
      using Cons.IH [OF rest Cons.prems(2)] new(1,3) Cons.prems(3) by auto
    moreover have "zero_of ipc' = IPv6zero" using True new(5) by (simp add: zero_of_def)
    ultimately show ?thesis
      using new ips' by (intro exI [of _ "new @ more"]) (auto simp: free_slots_def)
  qed
qed

subsection \<open>The bridge address\<close>

abbreviation same_net :: "IPNet \<Rightarrow> IPNet \<Rightarrow> bool" where
  "same_net a b \<equiv> IPNet_String a = IPNet_String b"

text \<open>What netlink promises of the addresses \<open>addrs e\<close> of a link.\<close>

definition link_addrs :: "('e, 'z) CniEnv_scheme \<Rightarrow> Link \<Rightarrow> nat \<Rightarrow> ('e \<Rightarrow> IPNet list) \<Rightarrow> bool" where
  "link_addrs env br fam addrs \<longleftrightarrow>
     (\<forall>e r e'. run_state (env_AddrList env br fam) e = (r, e') \<longrightarrow>
        addrs e' = addrs e \<and> (\<forall>as. r = Inr as \<longrightarrow> as = addrs e) \<and> (r = Inl ENOENT \<longrightarrow> addrs e = [])) \<and>
     (\<forall>a e r e'. run_state (env_AddrDel env br a) e = (r, e') \<longrightarrow>
        addrs e' = (if isl r then addrs e else removeAll a (addrs e))) \<and>
     (\<forall>a e r e'. run_state (env_AddrAdd env br a) e = (r, e') \<longrightarrow>
        addrs e' = (if isl r then addrs e else addrs e @ [a])) \<and>
     (\<forall>m. keeps_obs addrs (env_LinkSetHardwareAddr env br m))"

lemma bridge_addr_loop_v4:
  assumes "link_addrs env br FAMILY_V4 addrs"
    and "run_state (bridge_addr_loop env br FAMILY_V4 ipn force as) e = (Inr b, e')"
  shows "b = (\<exists>a\<in>set as. same_net a ipn) \<and>
    addrs e' = filter (\<lambda>a. a \<notin> set (takeWhile (\<lambda>a. \<not> same_net a ipn) as)) (addrs e) \<and>
    (\<not> force \<longrightarrow> takeWhile (\<lambda>a. \<not> same_net a ipn) as = [])"
  using assms(2)
proof (induction as arbitrary: e)
  case Nil
  then show ?case by (simp add: run_simps)
next
  case (Cons a as)
  show ?case
  proof (cases "same_net a ipn")
    case True
    then show ?thesis using Cons.prems by (simp add: run_simps)
  next
    case False
    then have force using Cons.prems by (simp add: run_go_fail split: if_splits)
    then have run: "run_state (go_bind (deleteBridgeAddr env br a)
        (\<lambda>_. bridge_addr_loop env br FAMILY_V4 ipn force as)) e = (Inr b, e')"
      using Cons.prems False by simp
    obtain u e1 where d: "run_state (deleteBridgeAddr env br a) e = (Inr u, e1)"
      and r: "run_state (bridge_addr_loop env br FAMILY_V4 ipn force as) e1 = (Inr b, e')"
      using run by (rule go_bind_Inr_elim)
    have "run_state (env_AddrDel env br a) e = (Inr u, e1)"
      using d by (auto simp: deleteBridgeAddr_def run_simps split: prod.splits sum.splits)
    then have "addrs e1 = removeAll a (addrs e)"
      using assms(1) unfolding link_addrs_def by (metis sum.disc(2))
    then show ?thesis
      using Cons.IH [OF r] False \<open>force\<close> by (auto simp: removeAll_filter_not_eq intro!: filter_cong)
  qed
qed

lemma ensure_add:
  assumes "link_addrs env br fam addrs"
    and "run_state (go_bind (go_wrap w1 (env_AddrAdd env br ipn)) (\<lambda>_.
       go_wrap w2 (env_LinkSetHardwareAddr env br m))) e = (Inr u, e')"
  shows "addrs e' = addrs e @ [ipn]"
proof -
  obtain e1 e2 x y where "run_state (env_AddrAdd env br ipn) e = (Inr x, e1)"
    and h: "run_state (env_LinkSetHardwareAddr env br m) e1 = (Inr y, e')"
    using assms(2) by (auto simp: run_simps split: prod.splits sum.splits)
  then have "addrs e1 = addrs e @ [ipn]" using assms(1) unfolding link_addrs_def by (metis sum.disc(2))
  then show ?thesis using keeps_obsD [OF _ h] assms(1) unfolding link_addrs_def by metis
qed

lemma filter_not_in_self: "filter (\<lambda>a. a \<notin> set xs) xs = []"
  by (simp add: filter_empty_conv)

lemma takeWhile_none: "\<not> (\<exists>a\<in>set xs. P a) \<Longrightarrow> takeWhile (\<lambda>a. \<not> P a) xs = xs"
  by (simp add: takeWhile_eq_all_conv)

subsection \<open>Properties\<close>

text \<open>
  C31: the network configuration that the node agent installs for the pod network \<open>podCIDR\<close> is the
  configuration the plugin runs with: the bridge, the address management plugin and the default
  route come back. The key \<open>isGateway\<close> does not: the tag of that field is malformed, so the plugin
  runs with \<open>IsGW\<close> off although the file sets it.
\<close>

theorem netconf_roundtrip:
  assumes "cidr_of podCIDR ip n"
  shows "\<exists>nc. loadNetConf (cni_conf podCIDR) = Inr (nc, []) \<and> BridgeName nc = ''kube-ovs0'' \<and> NetName nc = ''kube-ovs-cni'' \<and>
    IPAMType nc = ''host-local'' \<and> IsDefaultGW nc \<and> \<not> IsGW nc \<and> \<not> IPMasq nc"
  using loadNetConf_cni_conf [OF plain_cidr [OF assms]] by (simp add: installed_conf_def new_netconf_def)

theorem netconf_roundtrip_witness:
  "\<exists>nc. loadNetConf (cni_conf ''10.244.1.0/24'') = Inr (nc, []) \<and> IPAMType nc = ''host-local'' \<and> \<not> IsGW nc"
  using netconf_roundtrip [OF demo_cidrs(1)] by blast



definition demo_bridge :: Link where
  "demo_bridge = \<lparr>LinkName = ''kube-ovs0'', LinkHardwareAddr = [10, 0, 0, 0, 0, 1]\<rparr>"



end
