(* ===== verification/Cni_Main.thy ===== *)
theory Cni_Main
  imports Pod_Attachment
begin

text \<open>
  The entry point of the CNI plugin, \<open>cmd/kube-ovs-cni/main.go\<close>, with the dispatcher of
  \<open>cni/pkg/skel\<close> that it calls: the arguments come from the process environment and the standard
  input, the version of the configuration is checked, \<open>cmdAdd\<close> or \<open>cmdDel\<close> runs, and an error is
  printed and becomes the exit status. Also what a whole run of the plugin leaves behind.

  A message is the error whose text it is: texts are not modelled. An error made by code outside the
  repository may be a \<open>*types.Error\<close> already; \<open>skel_typed\<close> tells.
\<close>

subsection \<open>The dispatcher\<close>

record types_Error =
  Code :: uint64
  Msg :: go_error
  Details :: "ErrorIncompatible option"

datatype skel_error = Typed types_Error | Untyped go_error

record 'e Skel = "'e CniEnv" +
  skel_Stdin :: "('e, string) go"
  skel_Stderr :: "string \<Rightarrow> ('e, unit) state"
  skel_Encode :: "PluginInfo \<Rightarrow> ('e, unit) go"
  skel_Print :: "types_Error \<Rightarrow> ('e, unit) go"
  skel_typed :: "string \<Rightarrow> types_Error option"

definition ErrIncompatibleCNIVersion :: uint64 where "ErrIncompatibleCNIVersion = 1"

type_synonym reqForCmdEntry = "(string \<times> bool) list"

definition cmd_vars :: "(string \<times> reqForCmdEntry) list" where
  "cmd_vars =
     [(''CNI_COMMAND'', [(''ADD'', True), (''DEL'', True)]),
      (''CNI_CONTAINERID'', [(''ADD'', False), (''DEL'', False)]),
      (''CNI_NETNS'', [(''ADD'', True), (''DEL'', False)]),
      (''CNI_IFNAME'', [(''ADD'', True), (''DEL'', True)]),
      (''CNI_ARGS'', [(''ADD'', False), (''DEL'', False)]),
      (''CNI_PATH'', [(''ADD'', True), (''DEL'', True)])]"

text \<open>A missing key of a Go map reads as false.\<close>

definition reqForCmd :: "reqForCmdEntry \<Rightarrow> string \<Rightarrow> bool" where
  "reqForCmd req cmd = (map_of req cmd = Some True)"

text \<open>The loop over the variables, with the values read so far; the first of them is the command.\<close>

fun getenv_loop ::
    "('e, 'z) Skel_scheme \<Rightarrow> (string \<times> reqForCmdEntry) list \<Rightarrow> string list \<Rightarrow> bool \<Rightarrow> ('e, string list \<times> bool) state" where
  "getenv_loop t [] vals argsMissing = State_Monad.return (vals, argsMissing)"
| "getenv_loop t ((name, req) # vars) vals argsMissing =
     State_Monad.bind (env_Getenv t name) (\<lambda>val.
     let vals = vals @ [val] in
     if val = [] \<and> (reqForCmd req (hd vals) \<or> name = ''CNI_COMMAND'')
     then State_Monad.bind (skel_Stderr t (name @ '' env variable missing'' @ [CHR 0x0A])) (\<lambda>_. getenv_loop t vars vals True)
     else getenv_loop t vars vals argsMissing)"

definition getCmdArgsFromEnv :: "('e, 'z) Skel_scheme \<Rightarrow> ('e, string \<times> CmdArgs) go" where
  "getCmdArgsFromEnv t =
     State_Monad.bind (getenv_loop t cmd_vars [] False) (\<lambda>(vals, argsMissing).
     if argsMissing then go_fail (Errorf ''required env variables missing'' [])
     else
       go_bind (go_wrap (Wrapf ''error reading from stdin: %v'' []) (skel_Stdin t)) (\<lambda>stdinData.
       go_return (vals ! 0, \<lparr>ContainerID = vals ! 1, Netns = vals ! 2, ArgIfName = vals ! 3, CniArgs = vals ! 4,
         CniPath = vals ! 5, StdinData = stdinData\<rparr>)))"

definition createTypedError :: "go_error \<Rightarrow> types_Error" where
  "createTypedError err = \<lparr>Code = 100, Msg = err, Details = None\<rparr>"

text \<open>The dynamic type of an error.\<close>

definition error_of :: "('e, 'z) Skel_scheme \<Rightarrow> go_error \<Rightarrow> skel_error" where
  "error_of t err =
     (case err of
        OpaqueError m \<Rightarrow> (case skel_typed t m of Some e \<Rightarrow> Typed e | None \<Rightarrow> Untyped err)
      | _ \<Rightarrow> Untyped err)"

definition called :: "('e, 'z) Skel_scheme \<Rightarrow> unit result outcome \<Rightarrow> skel_error option outcome" where
  "called t = map_outcome (\<lambda>r. case r of Inl err \<Rightarrow> Some (error_of t err) | Inr _ \<Rightarrow> None)"

definition checkVersionAndCall ::
    "('e, 'z) Skel_scheme \<Rightarrow> CmdArgs \<Rightarrow> PluginInfo \<Rightarrow> (CmdArgs \<Rightarrow> ('e, unit) gop) \<Rightarrow> ('e, skel_error option outcome) state" where
  "checkVersionAndCall t cmdArgs pluginVersionInfo toCall =
     (case ConfigDecoder_Decode (StdinData cmdArgs) of
        Inl err \<Rightarrow> State_Monad.return (Returns (Some (Untyped err)))
      | Inr configVersion \<Rightarrow>
          (case Reconciler_Check configVersion pluginVersionInfo of
             Some verErr \<Rightarrow> State_Monad.return (Returns (Some (Typed
               \<lparr>Code = ErrIncompatibleCNIVersion, Msg = Errorf ''incompatible CNI versions'' [], Details = Some verErr\<rparr>)))
           | None \<Rightarrow> State_Monad.bind (toCall cmdArgs) (\<lambda>r. State_Monad.return (called t r))))"

definition wrap_error :: "skel_error \<Rightarrow> types_Error" where
  "wrap_error err = (case err of Typed e \<Rightarrow> e | Untyped e \<Rightarrow> createTypedError e)"

definition pluginMain ::
    "('e, 'z) Skel_scheme \<Rightarrow> (CmdArgs \<Rightarrow> ('e, unit) gop) \<Rightarrow> (CmdArgs \<Rightarrow> ('e, unit) gop) \<Rightarrow> PluginInfo \<Rightarrow>
     ('e, types_Error option outcome) state" where
  "pluginMain t add del versionInfo =
     State_Monad.bind (getCmdArgsFromEnv t) (\<lambda>r. case r of
       Inl err \<Rightarrow> State_Monad.return (Returns (Some (createTypedError err)))
     | Inr (cmd, cmdArgs) \<Rightarrow>
         State_Monad.bind
           (if cmd = ''ADD'' then checkVersionAndCall t cmdArgs versionInfo add
            else if cmd = ''DEL'' then checkVersionAndCall t cmdArgs versionInfo del
            else if cmd = ''VERSION''
            then State_Monad.bind (skel_Encode t versionInfo) (\<lambda>r. State_Monad.return (called t (Returns r)))
            else State_Monad.return (Returns (Some (Typed (createTypedError (Errorf ''unknown CNI_COMMAND: %v'' [cmd]))))))
           (\<lambda>r. State_Monad.return (map_outcome (map_option wrap_error) r)))"

text \<open>The exit status: 1 after an error, 2 after a panic.\<close>

definition PluginMain ::
    "('e, 'z) Skel_scheme \<Rightarrow> (CmdArgs \<Rightarrow> ('e, unit) gop) \<Rightarrow> (CmdArgs \<Rightarrow> ('e, unit) gop) \<Rightarrow> PluginInfo \<Rightarrow> ('e, nat) state" where
  "PluginMain t add del versionInfo =
     State_Monad.bind (pluginMain t add del versionInfo) (\<lambda>r. case r of
       Panics p \<Rightarrow> State_Monad.return 2
     | Returns None \<Rightarrow> State_Monad.return 0
     | Returns (Some e) \<Rightarrow> State_Monad.bind (skel_Print t e) (\<lambda>_. State_Monad.return 1))"

text \<open>\<open>main\<close> of \<open>kube-ovs-cni\<close>; \<open>version.All\<close> is built before it starts.\<close>

definition cni_main :: "('e, 'z) Skel_scheme \<Rightarrow> ('e, nat) state" where
  "cni_main t =
     (case version_All of
        Panics p \<Rightarrow> State_Monad.return 2
      | Returns info \<Rightarrow> PluginMain t (\<lambda>args. gop_of (cmdAdd t args)) (cmdDel t) info)"

subsection \<open>The arguments\<close>

text \<open>Standard input and output keep \<open>obs\<close>.\<close>

definition stdio :: "('e, 'z) Skel_scheme \<Rightarrow> ('e \<Rightarrow> 'b) \<Rightarrow> bool" where
  "stdio t obs \<longleftrightarrow> keeps_obs obs (skel_Stdin t) \<and> (\<forall>m. keeps_obs obs (skel_Stderr t m)) \<and>
     (\<forall>i. keeps_obs obs (skel_Encode t i)) \<and> (\<forall>e. keeps_obs obs (skel_Print t e))"

lemma stdioD:
  assumes "stdio t obs"
  shows "keeps_obs obs (skel_Stdin t)" "keeps_obs obs (skel_Stderr t m)" "keeps_obs obs (skel_Encode t i)" "keeps_obs obs (skel_Print t e)"
  using assms by (auto simp: stdio_def)

lemma stdio_pair: "stdio t f \<Longrightarrow> stdio t g \<Longrightarrow> stdio t (\<lambda>e. (f e, g e))"
  by (simp add: stdio_def keeps_pair)

text \<open>No variable that the command needs is missing.\<close>

definition complete :: "(string \<Rightarrow> string) \<Rightarrow> bool" where
  "complete vs \<longleftrightarrow> vs ''CNI_COMMAND'' \<noteq> [] \<and>
     (vs ''CNI_COMMAND'' = ''ADD'' \<longrightarrow> vs ''CNI_NETNS'' \<noteq> [] \<and> vs ''CNI_IFNAME'' \<noteq> [] \<and> vs ''CNI_PATH'' \<noteq> []) \<and>
     (vs ''CNI_COMMAND'' = ''DEL'' \<longrightarrow> vs ''CNI_IFNAME'' \<noteq> [] \<and> vs ''CNI_PATH'' \<noteq> [])"

definition args_of :: "(string \<Rightarrow> string) \<Rightarrow> string \<Rightarrow> CmdArgs" where
  "args_of vs conf = \<lparr>ContainerID = vs ''CNI_CONTAINERID'', Netns = vs ''CNI_NETNS'', ArgIfName = vs ''CNI_IFNAME'',
     CniArgs = vs ''CNI_ARGS'', CniPath = vs ''CNI_PATH'', StdinData = conf\<rparr>"

lemma getenv_loop_run:
  assumes "os_env t vars" and "stdio t vars" and "stdio t obs"
    and "run_state (getenv_loop t specs vals missing) e = (r, e')" and "vals \<noteq> [] \<Longrightarrow> hd vals = vars e ''CNI_COMMAND''"
    and "vals = [] \<Longrightarrow> specs = [] \<or> fst (hd specs) = ''CNI_COMMAND''"
  shows "vars e' = vars e \<and> obs e' = obs e \<and> r = (vals @ map (\<lambda>(n, _). vars e n) specs,
    missing \<or> list_ex (\<lambda>(n, req). vars e n = [] \<and> (reqForCmd req (vars e ''CNI_COMMAND'') \<or> n = ''CNI_COMMAND'')) specs)"
  using assms(4-)
proof (induction specs arbitrary: vals missing e)
  case Nil
  then show ?case by (auto simp: run_simps)
next
  case (Cons spec specs)
  obtain n req where spec: "spec = (n, req)" by (rule prod.exhaust)
  have get: "run_state (env_Getenv t n) e = (vars e n, e)" by (rule os_envD(4) [OF assms(1)])
  have hd: "hd (vals @ [vars e n]) = vars e ''CNI_COMMAND''" using Cons.prems(2,3) by (cases vals) (auto simp: spec)
  show ?case
  proof (cases "vars e n = [] \<and> (reqForCmd req (vars e ''CNI_COMMAND'') \<or> n = ''CNI_COMMAND'')")
    case True
    obtain u e1 where w: "run_state (skel_Stderr t (n @ '' env variable missing'' @ [CHR 0x0A])) e = (u, e1)" by (rule prod.exhaust)
    have o: "vars e1 = vars e" "obs e1 = obs e"
      using keeps_obsD [OF stdioD(2) [OF assms(2)] w] keeps_obsD [OF stdioD(2) [OF assms(3)] w] by simp_all
    have "run_state (getenv_loop t specs (vals @ [vars e n]) True) e1 = (r, e')"
      using Cons.prems(1) True hd w by (simp add: spec run_state_bind get Let_def)
    from Cons.IH [OF this] show ?thesis using hd True o by (simp add: spec)
  next
    case False
    then have "run_state (getenv_loop t specs (vals @ [vars e n]) missing) e = (r, e')"
      using Cons.prems(1) hd by (auto simp: spec run_state_bind get Let_def)
    from Cons.IH [OF this] show ?thesis using hd False by (auto simp: spec)
  qed
qed

lemma cmd_vars_missing:
  "list_ex (\<lambda>(n, req). vs n = [] \<and> (reqForCmd req (vs ''CNI_COMMAND'') \<or> n = ''CNI_COMMAND'')) cmd_vars \<longleftrightarrow> \<not> complete vs"
  by (auto simp: cmd_vars_def reqForCmd_def complete_def)

text \<open>The standard input, read once.\<close>

definition input :: "('e, 'z) Skel_scheme \<Rightarrow> string result \<Rightarrow> bool" where
  "input t inp \<longleftrightarrow> (\<forall>e. fst (run_state (skel_Stdin t) e) = inp)"

lemma getCmdArgs_run:
  assumes "os_env t vars" and "stdio t vars" and "stdio t obs" and "input t inp"
    and "run_state (getCmdArgsFromEnv t) e = (r, e')"
  shows "vars e' = vars e \<and> obs e' = obs e \<and>
    (if complete (vars e) \<and> (\<exists>conf. inp = Inr conf)
     then r = Inr (vars e ''CNI_COMMAND'', args_of (vars e) (projr inp)) else isl r)"
proof -
  obtain vals missing e1 where l: "run_state (getenv_loop t cmd_vars [] False) e = ((vals, missing), e1)"
    by (metis prod.exhaust)
  have "cmd_vars = [] \<or> fst (hd cmd_vars) = ''CNI_COMMAND''" by (simp add: cmd_vars_def)
  then have o1: "vars e1 = vars e" "obs e1 = obs e" "vals = map (\<lambda>(n, _). vars e n) cmd_vars" "missing = (\<not> complete (vars e))"
    using getenv_loop_run [OF assms(1-3) l] cmd_vars_missing [of "vars e"] by auto
  have vals: "vals = [vars e ''CNI_COMMAND'', vars e ''CNI_CONTAINERID'', vars e ''CNI_NETNS'', vars e ''CNI_IFNAME'', vars e ''CNI_ARGS'', vars e ''CNI_PATH'']"
    using o1(3) by (simp add: cmd_vars_def)
  obtain e2 where s: "run_state (skel_Stdin t) e1 = (inp, e2)" using assms(4) unfolding input_def by (metis prod.collapse)
  have o2: "vars e2 = vars e" "obs e2 = obs e"
    using keeps_obsD [OF stdioD(1) [OF assms(2)] s] keeps_obsD [OF stdioD(1) [OF assms(3)] s] o1(1,2) by simp_all
  show ?thesis
    using assms(5) o1(4) o1(1,2) o2
    by (cases missing; cases inp) (auto simp: getCmdArgsFromEnv_def run_state_bind l run_simps s vals args_of_def)
qed

subsection \<open>A run of the plugin\<close>

text \<open>The calls that reach a handler or print the version.\<close>

definition served :: "(string \<Rightarrow> string) \<Rightarrow> string result \<Rightarrow> bool" where
  "served vs inp \<longleftrightarrow> complete vs \<and> (\<exists>conf. inp = Inr conf \<and>
     (vs ''CNI_COMMAND'' = ''VERSION'' \<or>
      vs ''CNI_COMMAND'' \<in> {''ADD'', ''DEL''} \<and> (\<exists>v. ConfigDecoder_Decode conf = Inr v \<and> accepted v)))"

definition handler :: "('e, 'z) Skel_scheme \<Rightarrow> string \<Rightarrow> CmdArgs \<Rightarrow> ('e, unit) gop" where
  "handler t cmd args = (if cmd = ''ADD'' then gop_of (cmdAdd t args) else cmdDel t args)"

definition exit_status :: "unit result outcome \<Rightarrow> nat" where
  "exit_status out = (case out of Panics _ \<Rightarrow> 2 | Returns r \<Rightarrow> if isl r then 1 else 0)"

abbreviation exit_of :: "('e, 'z) Skel_scheme \<Rightarrow> skel_error option outcome \<Rightarrow> ('e, nat) state" where
  "exit_of t r \<equiv> (case map_outcome (map_option wrap_error) r of
       Panics p \<Rightarrow> State_Monad.return 2
     | Returns None \<Rightarrow> State_Monad.return 0
     | Returns (Some e) \<Rightarrow> State_Monad.bind (skel_Print t e) (\<lambda>_. State_Monad.return 1))"

lemma exit_of_called:
  assumes "stdio t obs" and "run_state (exit_of t (called t out)) e = (status, e')"
  shows "status = exit_status out \<and> obs e' = obs e"
proof (cases out)
  case (Panics p)
  then show ?thesis using assms(2) by (simp add: called_def run_simps exit_status_def)
next
  case (Returns r)
  show ?thesis
  proof (cases r)
    case (Inl err)
    obtain u e1 where p: "run_state (skel_Print t (wrap_error (error_of t err))) e = (u, e1)" by (rule prod.exhaust)
    then show ?thesis
      using assms(2) Returns Inl keeps_obsD [OF stdioD(4) [OF assms(1)] p]
      by (simp add: called_def run_state_bind run_simps exit_status_def)
  next
    case (Inr u)
    then show ?thesis using assms(2) Returns by (simp add: called_def run_simps exit_status_def)
  qed
qed

lemma run_print:
  assumes "stdio t obs" and "run_state (State_Monad.bind (skel_Print t err) (\<lambda>_. State_Monad.return (1 :: nat))) e = (status, e')"
  shows "status = 1 \<and> obs e' = obs e"
proof -
  obtain u e1 where p: "run_state (skel_Print t err) e = (u, e1)" by (rule prod.exhaust)
  then show ?thesis using assms(2) keeps_obsD [OF stdioD(4) [OF assms(1)] p] by (simp add: run_state_bind run_simps)
qed

lemma cni_main_run:
  assumes "os_env t vars" and "stdio t vars" and "stdio t obs" and "input t inp"
    and "run_state (cni_main t) e = (status, e')"
  obtains (rejected) "\<not> served (vars e) inp" and "status = 1" and "obs e' = obs e"
    | (version) "served (vars e) inp" and "vars e ''CNI_COMMAND'' = ''VERSION''" and "status \<le> 1" and "obs e' = obs e"
    | (handled) conf e1 out e2 where "served (vars e) inp" and "vars e ''CNI_COMMAND'' \<in> {''ADD'', ''DEL''}" and "inp = Inr conf"
        and "vars e1 = vars e" and "obs e1 = obs e"
        and "run_state (handler t (vars e ''CNI_COMMAND'') (args_of (vars e) conf)) e1 = (out, e2)"
        and "status = exit_status out" and "obs e' = obs e2"
proof -
  obtain info where info: "version_All = Returns info" by (simp add: version_All_def PluginSupports_def)
  obtain r e1 where g: "run_state (getCmdArgsFromEnv t) e = (r, e1)" by (rule prod.exhaust)
  note o1 = getCmdArgs_run [OF assms(1-4) g]
  note main = assms(5) [unfolded cni_main_def info outcome.case PluginMain_def pluginMain_def run_state_bind g prod.case]
  show ?thesis
  proof (cases "complete (vars e) \<and> (\<exists>conf. inp = Inr conf)")
    case False
    then obtain err where r: "r = Inl err" using o1 by (auto simp: isl_def)
    have "status = 1 \<and> obs e' = obs e1"
      by (rule run_print [OF assms(3), where err = "createTypedError err"]) (use main in \<open>simp add: r run_simps run_state_bind\<close>)
    then show ?thesis using rejected o1 False by (auto simp: served_def)
  next
    case True
    then obtain conf where conf: "inp = Inr conf" and c: "complete (vars e)" by blast
    let ?cmd = "vars e ''CNI_COMMAND''" and ?args = "args_of (vars e) conf"
    have r: "r = Inr (?cmd, ?args)" using o1 True conf by simp
    note main = main [unfolded r sum.case prod.case]
    consider (call) "?cmd \<in> {''ADD'', ''DEL''}" | (ver) "?cmd = ''VERSION''" | (other) "?cmd \<notin> {''ADD'', ''DEL'', ''VERSION''}" by blast
    then show ?thesis
    proof cases
      case ver
      obtain x e2 where x: "run_state (skel_Encode t info) e1 = (x, e2)" by (rule prod.exhaust)
      have "status = exit_status (Returns x) \<and> obs e' = obs e2"
        by (rule exit_of_called [OF assms(3)]) (use main ver x in \<open>simp add: run_state_bind run_simps\<close>)
      then show ?thesis
        using version ver c conf o1 keeps_obsD [OF stdioD(3) [OF assms(3)] x] by (auto simp: served_def exit_status_def)
    next
      case other
      have "status = 1 \<and> obs e' = obs e1"
        by (rule run_print [OF assms(3), where err = "createTypedError (Errorf ''unknown CNI_COMMAND: %v'' [?cmd])"])
          (use main other in \<open>simp add: run_simps run_state_bind wrap_error_def\<close>)
      then show ?thesis using rejected other o1 by (auto simp: served_def)
    next
      case call
      let ?h = "\<lambda>args. handler t ?cmd args"
      have m: "run_state (State_Monad.bind (checkVersionAndCall t ?args info ?h) (\<lambda>r. exit_of t r)) e1 = (status, e')"
        using main call by (auto simp: run_state_bind run_simps handler_def split: prod.splits)
      show ?thesis
      proof (cases "\<exists>v. ConfigDecoder_Decode conf = Inr v \<and> accepted v")
        case True
        then obtain v where v: "ConfigDecoder_Decode conf = Inr v" "Reconciler_Check v info = None"
          using Check_All [OF info] by blast
        obtain out e2 where h: "run_state (handler t ?cmd ?args) e1 = (out, e2)" by (rule prod.exhaust)
        have "status = exit_status out \<and> obs e' = obs e2"
          by (rule exit_of_called [OF assms(3)])
            (use m h v in \<open>simp add: checkVersionAndCall_def args_of_def run_state_bind run_simps\<close>)
        then show ?thesis using handled [OF _ call conf _ _ h] o1 c conf call True by (auto simp: served_def)
      next
        case False
        then have ns: "\<not> served (vars e) inp" using call conf by (auto simp: served_def)
        have "\<exists>err. checkVersionAndCall t ?args info ?h = State_Monad.return (Returns (Some err))"
          using False Check_All [OF info] by (auto simp: checkVersionAndCall_def args_of_def split: sum.split option.split)
        then obtain err where err: "checkVersionAndCall t ?args info ?h = State_Monad.return (Returns (Some err))" by blast
        have "status = 1 \<and> obs e' = obs e1"
          by (rule run_print [OF assms(3), where err = "wrap_error err"]) (use m in \<open>simp add: err run_simps run_state_bind\<close>)
        then show ?thesis using rejected ns o1 by simp
      qed
    qed
  qed
qed

subsection \<open>Printing the result\<close>

lemma dec_netconf_version:
  "dec_netconf kvs n0 = Inr n \<Longrightarrow> field ''cniVersion'' dec_string kvs (CNIVersion n0) = Inr (CNIVersion n)"
  by (auto simp: dec_netconf_def rbind_Inr_iff)

text \<open>The version the plugin library checks is the one \<open>cmdAdd\<close> prints its result in.\<close>

lemma loadNetConf_Decode:
  assumes "loadNetConf d = Inr (nc, v)"
  shows "ConfigDecoder_Decode d = Inr (if v = [] then ''0.1.0'' else v)"
proof -
  obtain val where val: "json_Parse d = Some val" "dec_struct dec_netconf val new_netconf = Inr nc" "v = CNIVersion nc"
    using assms by (auto simp: loadNetConf_def split: option.splits sum.splits)
  have "dec_struct (field ''cniVersion'' dec_string) val [] = Inr v"
    using val(2,3) dec_netconf_version [of _ new_netconf nc] by (cases val) (auto simp: dec_struct_def new_netconf_def)
  then show ?thesis using val(1) by (simp add: ConfigDecoder_Decode_def)
qed

lemma accepted_known:
  "loadNetConf d = Inr (nc, v) \<Longrightarrow> ConfigDecoder_Decode d = Inr v' \<Longrightarrow> accepted v' \<Longrightarrow> known_version v"
  using loadNetConf_Decode [of d nc v]
  by (auto simp: accepted_def known_version_def types020_SupportedVersions_def current_SupportedVersions_def split: if_splits)

lemma cmdAdd_prints:
  assumes "run_state (cmdAdd env args) e = (Inr (), e')"
  obtains nc v bridge ifs res e1 e2 where "loadNetConf (StdinData args) = Inr (nc, v)"
    and "run_state (ipam_block env args nc bridge \<lparr>ResVersion = v, Interfaces = ifs, IPs = [], Routes = [],
      ResDNS = \<lparr>Nameservers = [], Domain = [], Search = [], Options = []\<rparr>\<rparr>) e1 = (Inr res, e2)"
    and "\<exists>e3. run_state (PrintResult env res v) e2 = (Inr (), e3)"
proof -
  obtain nc v where conf: "loadNetConf (StdinData args) = Inr (nc, v)"
    using assms by (auto simp: cmdAdd_def run_simps split: sum.splits prod.splits)
  obtain bridge e1 e2 where "run_state (cmdAdd_in_ns env args nc v bridge) e1 = (Inr (), e2)"
    using assms conf by (auto simp: cmdAdd_def run_simps run_state_bind split: sum.splits prod.splits)
  then obtain ifs e3 where "run_state (assign_addresses env args nc v bridge \<lparr>ResVersion = v, Interfaces = ifs, IPs = [], Routes = [],
      ResDNS = \<lparr>Nameservers = [], Domain = [], Search = [], Options = []\<rparr>\<rparr>) e3 = (Inr (), e2)"
    unfolding cmdAdd_in_ns_def by (fastforce simp: run_simps split: sum.splits prod.splits)
  then obtain res e4 where "run_state (ipam_block env args nc bridge \<lparr>ResVersion = v, Interfaces = ifs, IPs = [], Routes = [],
      ResDNS = \<lparr>Nameservers = [], Domain = [], Search = [], Options = []\<rparr>\<rparr>) e3 = (Inr res, e4)"
    and "run_state (PrintResult env res v) e4 = (Inr (), e2)"
    unfolding assign_addresses_def by (rule go_bind_Inr_elim)
  then show ?thesis using that conf by blast
qed

text \<open>
  The address management plugin answers the configuration with a result that can be read and has an
  address of a known family; what the plugin writes to its standard output arrives.
\<close>

definition answers :: "('e, 'z) CniEnv_scheme \<Rightarrow> ('e \<Rightarrow> string \<Rightarrow> string) \<Rightarrow> string \<Rightarrow> bool" where
  "answers env vars d \<longleftrightarrow> (\<forall>p e out e'. vars e ''CNI_COMMAND'' = ''ADD'' \<and> run_state (env_ExecPlugin env p d) e = (Inr out, e') \<longrightarrow>
     (\<exists>any r. decode_delegated env d out = Inr any \<and> NewResultFromResult any = Inr r \<and>
        (\<exists>c\<in>set (IPs r). IPVersion c = ''4'' \<or> IPVersion c = ''6'')))"

definition stdout_open :: "('e, 'z) CniEnv_scheme \<Rightarrow> bool" where
  "stdout_open env \<longleftrightarrow> (\<forall>r e. \<not> isl (fst (run_state (env_PrintCurrent env r) e))) \<and>
     (\<forall>r e. \<not> isl (fst (run_state (env_Print020 env r) e)))"

lemma run_PrintResult:
  assumes "stdout_open env" and "known_version v" and "fst (run_state (PrintResult env res v) e) = Inl err"
  shows "v \<in> set types020_SupportedVersions \<and> (\<forall>c\<in>set (IPs res). IPVersion c \<noteq> ''4'' \<and> IPVersion c \<noteq> ''6'')"
proof (cases "current_GetAsVersion res v")
  case (Inl x)
  then show ?thesis using GetAsVersion_fails [OF assms(2)] by simp
next
  case (Inr x)
  have "fst (run_state (case x of Current r \<Rightarrow> env_PrintCurrent env r | Old r \<Rightarrow> env_Print020 env r) e) = Inl err"
    using assms(3) by (simp add: PrintResult_def run_simps Inr)
  then show ?thesis using assms(1) unfolding stdout_open_def by (cases x) (metis AnyResult.case sum.disc(1))+
qed

lemma not_late:
  assumes "answers env vars d" and "stdout_open env" and "ConfigDecoder_Decode d = Inr v'" and "accepted v'"
  shows "\<not> garbled env vars d err" and "\<not> print_fails env vars d err"
proof -
  show "\<not> garbled env vars d err" using assms(1) unfolding garbled_def answers_def by fastforce
  show "\<not> print_fails env vars d err"
  proof
    assume "print_fails env vars d err"
    then obtain nc v res e r where conf: "loadNetConf d = Inr (nc, v)" and r: "ipam_results env vars d r"
      and m: "map IPVersion (IPs res) = map IPVersion (IPs r)" and "fst (run_state (PrintResult env res v) e) = Inl err"
      unfolding print_fails_def prints_def by blast
    then have "\<forall>c\<in>set (IPs res). IPVersion c \<noteq> ''4'' \<and> IPVersion c \<noteq> ''6''"
      using run_PrintResult [OF assms(2) accepted_known [OF conf assms(3,4)]] by blast
    then have "\<forall>x\<in>set (map IPVersion (IPs res)). x \<noteq> ''4'' \<and> x \<noteq> ''6''" by simp
    then have "\<forall>x\<in>set (map IPVersion (IPs r)). x \<noteq> ''4'' \<and> x \<noteq> ''6''" unfolding m .
    moreover have "\<exists>c\<in>set (IPs r). IPVersion c = ''4'' \<or> IPVersion c = ''6''"
      using r assms(1) unfolding ipam_results_def answers_def by fastforce
    ultimately show False by auto
  qed
qed

subsection \<open>A run for the examples\<close>

definition demo_skel :: "bool \<Rightarrow> cni_host Skel" where
  "demo_skel ok = CniEnv.extend (demo_cni ok) (Skel.fields
     (go_return (cni_conf ''10.244.1.0/24'')) (\<lambda>_. State_Monad.return ()) (\<lambda>_. go_return ()) (\<lambda>_. go_return ()) (\<lambda>_. None))"

lemma network_only_extend: "network_only (CniEnv.extend env x) obs \<longleftrightarrow> network_only env obs"
  by (simp add: network_only_def CniEnv.defs)

lemma os_env_extend: "os_env (CniEnv.extend env x) vars \<longleftrightarrow> os_env env vars"
  by (simp add: os_env_def network_only_extend commands_keep_def) (simp add: CniEnv.defs)

lemma manages_extend: "manages (CniEnv.extend env x) vars lease \<longleftrightarrow> manages env vars lease"
  by (simp add: manages_def network_only_extend os_env_extend commands_keep_def) (simp add: CniEnv.defs)

lemma decode_delegated_extend: "decode_delegated (CniEnv.extend env x) d out = decode_delegated env d out"
  by (simp add: decode_delegated_def CniEnv.defs)

lemma demo_skel:
  "os_env (demo_skel ok) demo_vars" "manages (demo_skel ok) demo_vars h_lease" "stdio (demo_skel ok) obs"
  "input (demo_skel ok) (Inr (StdinData demo_args))" "stdout_open (demo_skel ok)"
proof -
  show "os_env (demo_skel ok) demo_vars" "manages (demo_skel ok) demo_vars h_lease"
    by (simp_all add: demo_skel_def os_env_extend manages_extend demo_os_env demo_manages)
  show "stdio (demo_skel ok) obs" "input (demo_skel ok) (Inr (StdinData demo_args))"
    by (auto simp: stdio_def input_def demo_skel_def CniEnv.defs Skel.defs demo_args_def run_simps intro!: keeps)
  show "stdout_open (demo_skel ok)"
    by (simp add: stdout_open_def demo_skel_def CniEnv.defs demo_cni_def run_simps)
qed

lemma demo_answers: "answers (demo_skel ok) demo_vars (StdinData demo_args)"
  unfolding answers_def by (simp add: demo_skel_def decode_delegated_extend demo_delegate demo_NewResult demo_ipconfig_def)

lemma demo_served: "served (demo_vars fresh_host) (Inr (StdinData demo_args))"
proof -
  have "list_all plain ''10.244.1.0/24''" by (simp add: plain_def)
  from Decode_cni_conf [OF this] show ?thesis
    by (simp add: served_def complete_def demo_vars_def accepted_def demo_args_def)
qed

subsection \<open>Properties\<close>

text \<open>
  C25: the dispatch of the plugin. A call with a missing variable, an unknown command, an unreadable
  standard input or a configuration of no known version exits with status 1 and touches nothing that reading
  and writing the standard streams leaves alone. Otherwise \<open>VERSION\<close> only prints, and \<open>ADD\<close> and \<open>DEL\<close>
  run their handler once, on the arguments of the environment and the standard input, and its outcome is the exit status.
\<close>

theorem cni_main_dispatch:
  assumes "os_env t vars" and "stdio t vars" and "stdio t obs" and "input t inp"
    and "run_state (cni_main t) e = (status, e')"
  shows "if \<not> served (vars e) inp then status = 1 \<and> obs e' = obs e
    else if vars e ''CNI_COMMAND'' = ''VERSION'' then status \<le> 1 \<and> obs e' = obs e
    else \<exists>conf e1 out e2. inp = Inr conf \<and> vars e1 = vars e \<and> obs e1 = obs e \<and>
      run_state (handler t (vars e ''CNI_COMMAND'') (args_of (vars e) conf)) e1 = (out, e2) \<and>
      status = exit_status out \<and> obs e' = obs e2"
  using assms
proof (cases rule: cni_main_run)
  case (handled conf e1 out e2)
  then show ?thesis by auto
qed auto

theorem cni_main_dispatch_witness:
  "\<exists>status e' e1 out e2. run_state (cni_main (demo_skel True)) fresh_host = (status, e') \<and> h_port e1 = None \<and>
     run_state (handler (demo_skel True) ''ADD'' demo_args) e1 = (out, e2) \<and> status = exit_status out \<and> h_port e' = h_port e2"
proof -
  obtain status e' where run: "run_state (cni_main (demo_skel True)) fresh_host = (status, e')" by (rule prod.exhaust)
  have "args_of (demo_vars fresh_host) (StdinData demo_args) = demo_args"
    by (simp add: args_of_def demo_vars_def demo_args_def)
  moreover note cni_main_dispatch [OF demo_skel(1,3,3,4) run, of h_port]
  ultimately show ?thesis using run demo_served by auto
qed



text \<open>
  C26: without address management the plugin serves no configuration of an older version. When the
  configuration names no address management plugin and its version is absent, 0.1.0 or 0.2.0, \<open>cmdAdd\<close> fails
  on every host: the older layout has no result without an address.
\<close>

theorem cmdAdd_layer2_fails:
  assumes "loadNetConf (StdinData args) = Inr (nc, v)" and "IPAMType nc = []" and "v \<in> set types020_SupportedVersions"
  shows "isl (fst (run_state (cmdAdd env args) e))"
proof (rule ccontr)
  assume "\<not> isl (fst (run_state (cmdAdd env args) e))"
  then obtain e' where run: "run_state (cmdAdd env args) e = (Inr (), e')"
    by (cases "run_state (cmdAdd env args) e"; cases "fst (run_state (cmdAdd env args) e)") auto
  obtain nc' v' bridge ifs res e1 e2 where c: "loadNetConf (StdinData args) = Inr (nc', v')"
    and b: "run_state (ipam_block env args nc' bridge \<lparr>ResVersion = v', Interfaces = ifs, IPs = [], Routes = [],
      ResDNS = \<lparr>Nameservers = [], Domain = [], Search = [], Options = []\<rparr>\<rparr>) e1 = (Inr res, e2)"
    and p: "\<exists>e3. run_state (PrintResult env res v') e2 = (Inr (), e3)"
    by (rule cmdAdd_prints [OF run])
  have nc: "nc' = nc" "v' = v" using c assms(1) by simp_all
  have "IPs res = []" using refetch_bridge_IPs b assms(2) nc by fastforce
  then have "current_GetAsVersion res v = Inl no_valid_addresses"
    using assms(3) by (simp add: GetAsVersion_fails known_version_def)
  then show False using p nc by (simp add: PrintResult_def run_simps)
qed

theorem cmdAdd_layer2_fails_witness:
  "isl (fst (run_state (cmdAdd (demo_cni True) (demo_args\<lparr>StdinData := [CHR 0x7B, CHR 0x7D]\<rparr>)) fresh_host))"
proof -
  have conf: "loadNetConf [CHR 0x7B, CHR 0x7D] = Inr (new_netconf, [])" by code_simp
  show ?thesis
    by (rule cmdAdd_layer2_fails [where nc = new_netconf and v = "[]"])
      (simp_all add: conf new_netconf_def types020_SupportedVersions_def)
qed

end
