(* ===== verification/Typed_Client.thy ===== *)
theory Typed_Client
  imports Complex_Main Object_Tracker
begin

text \<open>
  The generated client of the API server:
  \<open>apis/generated/clientset/versioned/typed/kubeovs/v1alpha1/{vswitchconfig,kubeovs_client}.go\<close> and
  \<open>apis/generated/clientset/versioned/clientset.go\<close>, on top of the request builder of
  \<open>k8s.io/client-go/rest/request.go\<close>.

  The transport is a parameter: \<open>rc_Do\<close> takes the finished request and answers on the state of the
  server. Encoding of objects and options to JSON and query strings is the transport's; a request
  carries the values. \<open>time.Duration\<close> is a 64-bit word of nanoseconds.
\<close>

subsection \<open>Requests\<close>

record ListOptions =
  LabelSelector :: string
  FieldSelector :: string
  OptWatch :: bool
  OptResourceVersion :: string
  TimeoutSeconds :: "64 word option"
  OptLimit :: "64 word"

record GetOptions =
  GetResourceVersion :: string

datatype request_params = NoParams | GetParams GetOptions | ListParams ListOptions

datatype 'd request_body = NoBody | ObjectBody VSwitchConfig | DeleteBody 'd | PatchBody string

record 'd Request =
  req_verb :: string
  req_pathPrefix :: string
  req_resource :: string
  req_resourceName :: string
  req_subresource :: string
  req_params :: request_params
  req_timeout :: "64 word"
  req_body :: "'d request_body"
  req_contentType :: string
  req_err :: "go_error option"

text \<open>\<open>path.Join\<close> of a prefix and segments without slashes that are not \<open>.\<close> or \<open>..\<close>.\<close>

fun path_Join :: "string \<Rightarrow> string list \<Rightarrow> string" where
  "path_Join p [] = p"
| "path_Join p (s # ss) = path_Join (if s = [] then p else p @ CHR ''/'' # s) ss"

definition IsValidPathSegmentName :: "string \<Rightarrow> bool" where
  "IsValidPathSegmentName name \<longleftrightarrow>
     name \<noteq> ''.'' \<and> name \<noteq> ''..'' \<and> CHR ''/'' \<notin> set name \<and> CHR ''%'' \<notin> set name"

text \<open>A builder step does nothing once an error is stored.\<close>

definition unless_err :: "('d Request \<Rightarrow> 'd Request) \<Rightarrow> 'd Request \<Rightarrow> 'd Request" where
  "unless_err f r = (if req_err r \<noteq> None then r else f r)"

definition req_Resource :: "string \<Rightarrow> 'd Request \<Rightarrow> 'd Request" where
  "req_Resource resource = unless_err (\<lambda>r.
     if req_resource r \<noteq> [] then
       r\<lparr>req_err := Some (Errorf ''resource already set to %q, cannot change to %q'' [req_resource r, resource])\<rparr>
     else if \<not> IsValidPathSegmentName resource then r\<lparr>req_err := Some (Errorf ''invalid resource %q: %v'' [resource])\<rparr>
     else r\<lparr>req_resource := resource\<rparr>)"

definition req_Name :: "string \<Rightarrow> 'd Request \<Rightarrow> 'd Request" where
  "req_Name resourceName = unless_err (\<lambda>r.
     if resourceName = [] then r\<lparr>req_err := Some (Errorf ''resource name may not be empty'' [])\<rparr>
     else if req_resourceName r \<noteq> [] then
       r\<lparr>req_err := Some (Errorf ''resource name already set to %q, cannot change to %q'' [req_resourceName r, resourceName])\<rparr>
     else if \<not> IsValidPathSegmentName resourceName then
       r\<lparr>req_err := Some (Errorf ''invalid resource name %q: %v'' [resourceName])\<rparr>
     else r\<lparr>req_resourceName := resourceName\<rparr>)"

definition req_SubResource :: "string list \<Rightarrow> 'd Request \<Rightarrow> 'd Request" where
  "req_SubResource subresources = unless_err (\<lambda>r.
     if req_subresource r \<noteq> [] then
       r\<lparr>req_err := Some (Errorf ''subresource already set to %q, cannot change to %q'' [req_resource r])\<rparr>
     else (case find (\<lambda>s. \<not> IsValidPathSegmentName s) subresources of
             Some s \<Rightarrow> r\<lparr>req_err := Some (Errorf ''invalid subresource %q: %v'' [s])\<rparr>
           | None \<Rightarrow> r\<lparr>req_subresource := drop 1 (path_Join [] subresources)\<rparr>))"

definition req_VersionedParams :: "request_params \<Rightarrow> 'd Request \<Rightarrow> 'd Request" where
  "req_VersionedParams params = unless_err (\<lambda>r. r\<lparr>req_params := params\<rparr>)"

definition req_Timeout :: "64 word \<Rightarrow> 'd Request \<Rightarrow> 'd Request" where
  "req_Timeout d = unless_err (\<lambda>r. r\<lparr>req_timeout := d\<rparr>)"

definition req_Body :: "'d request_body \<Rightarrow> 'd Request \<Rightarrow> 'd Request" where
  "req_Body body = unless_err (\<lambda>r. r\<lparr>req_body := body\<rparr>)"

definition req_path :: "'d Request \<Rightarrow> string" where
  "req_path r = path_Join (req_pathPrefix r) [req_resource r, req_resourceName r, req_subresource r]"

text \<open>What goes to the server.\<close>

record 'd HttpRequest =
  http_verb :: string
  http_path :: string
  http_params :: request_params
  http_timeout :: "64 word"
  http_body :: "'d request_body"
  http_contentType :: string

definition req_http :: "'d Request \<Rightarrow> 'd HttpRequest" where
  "req_http r = \<lparr>http_verb = req_verb r, http_path = req_path r, http_params = req_params r,
     http_timeout = req_timeout r, http_body = req_body r, http_contentType = req_contentType r\<rparr>"

datatype response = ObjectResponse VSwitchConfig | ListResponse "VSwitchConfig list" | StatusResponse

record ('d, 's, 'w) RESTClient =
  rc_versionedAPIPath :: string
  rc_Do :: "'d HttpRequest \<Rightarrow> ('s, response) go"
  rc_Watch :: "'d HttpRequest \<Rightarrow> ('s, 'w) go"

definition rc_Verb :: "('d, 's, 'w) RESTClient \<Rightarrow> string \<Rightarrow> 'd Request" where
  "rc_Verb c verb = \<lparr>req_verb = verb, req_pathPrefix = rc_versionedAPIPath c, req_resource = [], req_resourceName = [],
     req_subresource = [], req_params = NoParams, req_timeout = 0, req_body = NoBody,
     req_contentType = ''application/json'', req_err = None\<rparr>"

definition rc_Patch :: "('d, 's, 'w) RESTClient \<Rightarrow> string \<Rightarrow> 'd Request" where
  "rc_Patch c pt = (rc_Verb c ''PATCH'')\<lparr>req_contentType := pt\<rparr>"

definition req_send :: "('d HttpRequest \<Rightarrow> ('s, 'a) go) \<Rightarrow> 'd Request \<Rightarrow> ('s, 'a) go" where
  "req_send send r = (case req_err r of Some err \<Rightarrow> go_fail err | None \<Rightarrow> send (req_http r))"

text \<open>\<open>Into\<close> a configuration, \<open>Into\<close> a list, and \<open>Error\<close>.\<close>

definition Into_object :: "('s, response) go \<Rightarrow> ('s, VSwitchConfig) go" where
  "Into_object m = go_bind m (\<lambda>r. case r of
     ObjectResponse v \<Rightarrow> go_return v | _ \<Rightarrow> go_fail (OpaqueError ''unable to decode the response''))"

definition Into_list :: "('s, response) go \<Rightarrow> ('s, VSwitchConfig list) go" where
  "Into_list m = go_bind m (\<lambda>r. case r of
     ListResponse vs \<Rightarrow> go_return vs | _ \<Rightarrow> go_fail (OpaqueError ''unable to decode the response''))"

definition Result_Error :: "('s, response) go \<Rightarrow> ('s, unit) go" where
  "Result_Error m = go_bind m (\<lambda>_. go_return ())"

subsection \<open>The typed client\<close>

text \<open>\<open>time.Duration(*opts.TimeoutSeconds) * time.Second\<close>, which wraps.\<close>

definition list_timeout :: "ListOptions \<Rightarrow> 64 word" where
  "list_timeout opts = (case TimeoutSeconds opts of None \<Rightarrow> 0 | Some n \<Rightarrow> n * 1000000000)"

definition rest_Get :: "('d, 's, 'w) RESTClient \<Rightarrow> string \<Rightarrow> GetOptions \<Rightarrow> ('s, VSwitchConfig) go" where
  "rest_Get c name options = Into_object (req_send (rc_Do c)
     (req_VersionedParams (GetParams options) (req_Name name (req_Resource ''vswitchconfigs'' (rc_Verb c ''GET'')))))"

definition rest_List :: "('d, 's, 'w) RESTClient \<Rightarrow> ListOptions \<Rightarrow> ('s, VSwitchConfig list) go" where
  "rest_List c opts = Into_list (req_send (rc_Do c)
     (req_Timeout (list_timeout opts) (req_VersionedParams (ListParams opts)
       (req_Resource ''vswitchconfigs'' (rc_Verb c ''GET'')))))"

definition rest_Watch :: "('d, 's, 'w) RESTClient \<Rightarrow> ListOptions \<Rightarrow> ('s, 'w) go" where
  "rest_Watch c opts = req_send (rc_Watch c)
     (req_Timeout (list_timeout opts) (req_VersionedParams (ListParams (opts\<lparr>OptWatch := True\<rparr>))
       (req_Resource ''vswitchconfigs'' (rc_Verb c ''GET''))))"

definition rest_Create :: "('d, 's, 'w) RESTClient \<Rightarrow> VSwitchConfig \<Rightarrow> ('s, VSwitchConfig) go" where
  "rest_Create c v = Into_object (req_send (rc_Do c)
     (req_Body (ObjectBody v) (req_Resource ''vswitchconfigs'' (rc_Verb c ''POST''))))"

definition rest_Update :: "('d, 's, 'w) RESTClient \<Rightarrow> VSwitchConfig \<Rightarrow> ('s, VSwitchConfig) go" where
  "rest_Update c v = Into_object (req_send (rc_Do c)
     (req_Body (ObjectBody v) (req_Name (vname v) (req_Resource ''vswitchconfigs'' (rc_Verb c ''PUT'')))))"

definition delete_body :: "'d option \<Rightarrow> 'd request_body" where
  "delete_body options = (case options of None \<Rightarrow> NoBody | Some d \<Rightarrow> DeleteBody d)"

definition rest_Delete :: "('d, 's, 'w) RESTClient \<Rightarrow> string \<Rightarrow> 'd option \<Rightarrow> ('s, unit) go" where
  "rest_Delete c name options = Result_Error (req_send (rc_Do c)
     (req_Body (delete_body options) (req_Name name (req_Resource ''vswitchconfigs'' (rc_Verb c ''DELETE'')))))"

definition rest_DeleteCollection :: "('d, 's, 'w) RESTClient \<Rightarrow> 'd option \<Rightarrow> ListOptions \<Rightarrow> ('s, unit) go" where
  "rest_DeleteCollection c options listOptions = Result_Error (req_send (rc_Do c)
     (req_Body (delete_body options) (req_Timeout (list_timeout listOptions)
       (req_VersionedParams (ListParams listOptions) (req_Resource ''vswitchconfigs'' (rc_Verb c ''DELETE''))))))"

definition rest_Patch :: "('d, 's, 'w) RESTClient \<Rightarrow> string \<Rightarrow> string \<Rightarrow> string \<Rightarrow> string list \<Rightarrow> ('s, VSwitchConfig) go" where
  "rest_Patch c name pt data subresources = Into_object (req_send (rc_Do c)
     (req_Body (PatchBody data) (req_Name name (req_SubResource subresources
       (req_Resource ''vswitchconfigs'' (rc_Patch c pt))))))"

definition empty_ListOptions :: ListOptions where
  "empty_ListOptions = \<lparr>LabelSelector = [], FieldSelector = [], OptWatch = False, OptResourceVersion = [],
     TimeoutSeconds = None, OptLimit = 0\<rparr>"

text \<open>The client as the controllers use it: empty options, and \<open>d\<close> the empty \<open>DeleteOptions\<close>.\<close>

definition rest_VSwitchConfigs :: "('d, 's, 'w) RESTClient \<Rightarrow> 'd \<Rightarrow> 's VSwitchConfigInterface" where
  "rest_VSwitchConfigs c d = \<lparr>Create = rest_Create c, Update = rest_Update c, Delete = (\<lambda>n. rest_Delete c n (Some d)),
     Get = (\<lambda>n. rest_Get c n \<lparr>GetResourceVersion = []\<rparr>), List = rest_List c empty_ListOptions\<rparr>"

subsection \<open>Configuration of the clients\<close>

text \<open>
  \<open>rest.Config\<close>, as far as it is read or written here. A rate limiter is a token bucket. \<open>RESTClientFor\<close>
  and the discovery client are parameters.
\<close>

record RestConfig =
  cfg_Host :: string
  cfg_APIPath :: string
  cfg_GroupVersion :: "(string \<times> string) option"
  cfg_NegotiatedSerializer :: "string option"
  cfg_UserAgent :: string
  cfg_QPS :: rat
  cfg_Burst :: int
  cfg_RateLimiter :: "(rat \<times> int) option"

definition setConfigDefaults :: "string \<Rightarrow> RestConfig \<Rightarrow> RestConfig" where
  "setConfigDefaults DefaultKubernetesUserAgent config =
     (let config = config\<lparr>cfg_GroupVersion := Some (''kubeovs.io'', ''v1alpha1''), cfg_APIPath := ''/apis'',
            cfg_NegotiatedSerializer := Some ''DirectCodecFactory''\<rparr>
      in if cfg_UserAgent config = [] then config\<lparr>cfg_UserAgent := DefaultKubernetesUserAgent\<rparr> else config)"

record 'c KubeovsV1alpha1Client =
  kc_restClient :: 'c

record ('c, 'v) client_env =
  env_RESTClientFor :: "RestConfig \<Rightarrow> 'c result"
  env_NewDiscoveryClientForConfig :: "RestConfig \<Rightarrow> 'v result"
  env_NewDiscoveryClient :: "'c \<Rightarrow> 'v"
  env_UserAgent :: string

definition kubeovs_NewForConfig :: "('c, 'v) client_env \<Rightarrow> RestConfig \<Rightarrow> 'c KubeovsV1alpha1Client result" where
  "kubeovs_NewForConfig env c =
     (case env_RESTClientFor env (setConfigDefaults (env_UserAgent env) c) of
        Inl err \<Rightarrow> Inl err | Inr client \<Rightarrow> Inr \<lparr>kc_restClient = client\<rparr>)"

definition kubeovs_NewForConfigOrDie :: "('c, 'v) client_env \<Rightarrow> RestConfig \<Rightarrow> 'c KubeovsV1alpha1Client outcome" where
  "kubeovs_NewForConfigOrDie env c =
     (case kubeovs_NewForConfig env c of Inl err \<Rightarrow> Panics ExplicitPanic | Inr client \<Rightarrow> Returns client)"

definition kubeovs_New :: "'c \<Rightarrow> 'c KubeovsV1alpha1Client" where
  "kubeovs_New c = \<lparr>kc_restClient = c\<rparr>"

text \<open>\<open>RESTClient\<close> accepts a nil receiver.\<close>

definition kubeovs_RESTClient :: "'c KubeovsV1alpha1Client option \<Rightarrow> 'c option" where
  "kubeovs_RESTClient c = map_option kc_restClient c"

definition kubeovs_VSwitchConfigs ::
    "('d, 's, 'w) RESTClient KubeovsV1alpha1Client \<Rightarrow> 'd \<Rightarrow> 's VSwitchConfigInterface" where
  "kubeovs_VSwitchConfigs c d = rest_VSwitchConfigs (kc_restClient c) d"

record ('c, 'v) Clientset =
  cs_DiscoveryClient :: 'v
  cs_kubeovsV1alpha1 :: "'c KubeovsV1alpha1Client"

definition clientset_KubeovsV1alpha1 :: "('c, 'v) Clientset \<Rightarrow> 'c KubeovsV1alpha1Client" where
  "clientset_KubeovsV1alpha1 c = cs_kubeovsV1alpha1 c"

definition clientset_Discovery :: "('c, 'v) Clientset option \<Rightarrow> 'v option" where
  "clientset_Discovery c = map_option cs_DiscoveryClient c"

text \<open>\<open>if RateLimiter == nil && QPS > 0\<close>: one token bucket that both clients share.\<close>

definition share_limiter :: "RestConfig \<Rightarrow> RestConfig" where
  "share_limiter c =
     (if cfg_RateLimiter c = None \<and> cfg_QPS c > 0
      then c\<lparr>cfg_RateLimiter := Some (cfg_QPS c, cfg_Burst c)\<rparr> else c)"

definition clientset_NewForConfig :: "('c, 'v) client_env \<Rightarrow> RestConfig \<Rightarrow> ('c, 'v) Clientset result" where
  "clientset_NewForConfig env c =
     (let configShallowCopy = share_limiter c in
      case kubeovs_NewForConfig env configShallowCopy of
        Inl err \<Rightarrow> Inl err
      | Inr kubeovs \<Rightarrow>
          (case env_NewDiscoveryClientForConfig env configShallowCopy of
             Inl err \<Rightarrow> Inl err
           | Inr discovery \<Rightarrow> Inr \<lparr>cs_DiscoveryClient = discovery, cs_kubeovsV1alpha1 = kubeovs\<rparr>))"

definition clientset_NewForConfigOrDie :: "('c, 'v) client_env \<Rightarrow> RestConfig \<Rightarrow> ('c, 'v) Clientset outcome" where
  "clientset_NewForConfigOrDie env c =
     bind_outcome (kubeovs_NewForConfigOrDie env c) (\<lambda>kubeovs.
     case env_NewDiscoveryClientForConfig env c of
       Inl err \<Rightarrow> Panics ExplicitPanic
     | Inr discovery \<Rightarrow> Returns \<lparr>cs_DiscoveryClient = discovery, cs_kubeovsV1alpha1 = kubeovs\<rparr>)"

definition clientset_New :: "('c, 'v) client_env \<Rightarrow> 'c \<Rightarrow> ('c, 'v) Clientset" where
  "clientset_New env c = \<lparr>cs_DiscoveryClient = env_NewDiscoveryClient env c, cs_kubeovsV1alpha1 = kubeovs_New c\<rparr>"

subsection \<open>A server that implements the interface\<close>

abbreviation vswitch_path :: "('d, 's, 'w) RESTClient \<Rightarrow> string" where
  "vswitch_path c \<equiv> rc_versionedAPIPath c @ ''/vswitchconfigs''"

abbreviation vswitch_request :: "string \<Rightarrow> string \<Rightarrow> request_params \<Rightarrow> 'd request_body \<Rightarrow> 'd HttpRequest" where
  "vswitch_request verb p params body \<equiv> \<lparr>http_verb = verb, http_path = p, http_params = params, http_timeout = 0,
     http_body = body, http_contentType = ''application/json''\<rparr>"

definition valid_name :: "string \<Rightarrow> bool" where
  "valid_name n \<longleftrightarrow> n \<noteq> [] \<and> IsValidPathSegmentName n"

text \<open>
  The conventions of the Kubernetes API: a collection is listed and posted to, an object is read,
  replaced and deleted at the collection's path followed by its name. \<open>api\<close> is what the server does.
\<close>

definition serves :: "('d, 's, 'w) RESTClient \<Rightarrow> 'd \<Rightarrow> 's VSwitchConfigInterface \<Rightarrow> bool" where
  "serves c d api \<longleftrightarrow>
     rc_Do c (vswitch_request ''GET'' (vswitch_path c) (ListParams empty_ListOptions) NoBody) =
       go_bind (List api) (\<lambda>vs. go_return (ListResponse vs)) \<and>
     (\<forall>v. rc_Do c (vswitch_request ''POST'' (vswitch_path c) NoParams (ObjectBody v)) =
       go_bind (Create api v) (\<lambda>v. go_return (ObjectResponse v))) \<and>
     (\<forall>n. valid_name n \<longrightarrow>
        rc_Do c (vswitch_request ''GET'' (vswitch_path c @ CHR ''/'' # n) (GetParams \<lparr>GetResourceVersion = []\<rparr>) NoBody) =
          go_bind (Get api n) (\<lambda>v. go_return (ObjectResponse v)) \<and>
        rc_Do c (vswitch_request ''DELETE'' (vswitch_path c @ CHR ''/'' # n) NoParams (DeleteBody d)) =
          go_bind (Delete api n) (\<lambda>_. go_return StatusResponse)) \<and>
     (\<forall>v. valid_name (vname v) \<longrightarrow>
        rc_Do c (vswitch_request ''PUT'' (vswitch_path c @ CHR ''/'' # vname v) NoParams (ObjectBody v)) =
          go_bind (Update api v) (\<lambda>v. go_return (ObjectResponse v)))"

definition name_error :: "string \<Rightarrow> go_error" where
  "name_error n = (if n = [] then Errorf ''resource name may not be empty'' []
     else Errorf ''invalid resource name %q: %v'' [n])"

lemma vswitchconfigs_valid [simp]: "IsValidPathSegmentName ''vswitchconfigs''"
  by (simp add: IsValidPathSegmentName_def)

lemma response_bind [simp]:
  "Into_object (go_bind m (\<lambda>v. go_return (ObjectResponse v))) = m"
  "Into_list (go_bind m' (\<lambda>vs. go_return (ListResponse vs))) = m'"
  "Result_Error (go_bind m'' (\<lambda>_. go_return StatusResponse)) = m''"
  by (auto intro!: state.expand simp: fun_eq_iff Into_object_def Into_list_def Result_Error_def run_simps
    split: prod.split sum.split)

lemma response_fail [simp]:
  "Into_object (go_fail err) = go_fail err" "Into_list (go_fail err) = go_fail err" "Result_Error (go_fail err) = go_fail err"
  by (auto intro!: state.expand simp: fun_eq_iff Into_object_def Into_list_def Result_Error_def run_simps)

lemmas builder_defs = req_Resource_def req_Name_def req_SubResource_def req_VersionedParams_def req_Timeout_def req_Body_def
  unless_err_def req_send_def req_http_def req_path_def rc_Verb_def rc_Patch_def

lemma rest_client_ops:
  assumes "serves c d api"
  shows "Get (rest_VSwitchConfigs c d) n = (if valid_name n then Get api n else go_fail (name_error n))"
    and "Delete (rest_VSwitchConfigs c d) n = (if valid_name n then Delete api n else go_fail (name_error n))"
    and "Update (rest_VSwitchConfigs c d) v = (if valid_name (vname v) then Update api v else go_fail (name_error (vname v)))"
    and "Create (rest_VSwitchConfigs c d) v = Create api v"
    and "List (rest_VSwitchConfigs c d) = List api"
  using assms unfolding serves_def rest_VSwitchConfigs_def
  by (simp_all add: rest_Get_def rest_Delete_def rest_Update_def rest_Create_def rest_List_def builder_defs
    valid_name_def name_error_def delete_body_def list_timeout_def empty_ListOptions_def)

lemma path_Join_append: "path_Join p ss = p @ path_Join [] ss"
proof (induction ss arbitrary: p)
  case (Cons s ss)
  show ?case
  proof (cases "s = []")
    case True
    then show ?thesis using Cons [of p] by simp
  next
    case False
    have "path_Join (p @ CHR ''/'' # s) ss = (p @ CHR ''/'' # s) @ path_Join [] ss" by (rule Cons)
    moreover have "path_Join (CHR ''/'' # s) ss = (CHR ''/'' # s) @ path_Join [] ss" by (rule Cons)
    ultimately show ?thesis using False by simp
  qed
qed simp

lemma path_Join_slash: "path_Join [] ss = [] \<or> (\<exists>r. r \<noteq> [] \<and> path_Join [] ss = CHR ''/'' # r)"
proof (induction ss)
  case (Cons s ss)
  then show ?case by (cases "s = []") (auto simp: path_Join_append [of "CHR ''/'' # s"])
qed simp

lemma path_Join_sub: "path_Join p [drop 1 (path_Join [] ss)] = path_Join p ss"
  using path_Join_slash [of ss] path_Join_append [of p ss] by auto

text \<open>The requests of the API: the object in the body is the one the path names.\<close>

definition api_request :: "string \<Rightarrow> 'd HttpRequest \<Rightarrow> bool" where
  "api_request p q \<longleftrightarrow>
     (http_path q = p @ ''/vswitchconfigs'' \<and>
        (case http_body q of
           ObjectBody v \<Rightarrow> http_verb q = ''POST''
         | DeleteBody d \<Rightarrow> http_verb q = ''DELETE''
         | NoBody \<Rightarrow> http_verb q = ''GET'' \<or> http_verb q = ''DELETE''
         | PatchBody data \<Rightarrow> False)) \<or>
     (\<exists>n ss. valid_name n \<and> list_all IsValidPathSegmentName ss \<and>
        http_path q = path_Join (p @ ''/vswitchconfigs/'' @ n) ss \<and>
        (case http_body q of
           ObjectBody v \<Rightarrow> http_verb q = ''PUT'' \<and> vname v = n \<and> ss = []
         | DeleteBody d \<Rightarrow> http_verb q = ''DELETE'' \<and> ss = []
         | NoBody \<Rightarrow> (http_verb q = ''GET'' \<or> http_verb q = ''DELETE'') \<and> ss = []
         | PatchBody data \<Rightarrow> http_verb q = ''PATCH''))"

lemma req_send_cong:
  assumes "req_err r = None \<Longrightarrow> send (req_http r) = send' (req_http r)"
  shows "req_send send r = req_send send' r"
  using assms by (auto simp: req_send_def split: option.split)

lemma api_collection:
  "http_path q = p @ ''/vswitchconfigs'' \<Longrightarrow>
   (case http_body q of ObjectBody v \<Rightarrow> http_verb q = ''POST'' | DeleteBody d \<Rightarrow> http_verb q = ''DELETE''
      | NoBody \<Rightarrow> http_verb q = ''GET'' \<or> http_verb q = ''DELETE'' | PatchBody data \<Rightarrow> False) \<Longrightarrow> api_request p q"
  by (simp add: api_request_def)

lemma api_object:
  "valid_name n \<Longrightarrow> list_all IsValidPathSegmentName ss \<Longrightarrow> http_path q = path_Join (p @ ''/vswitchconfigs/'' @ n) ss \<Longrightarrow>
   (case http_body q of ObjectBody v \<Rightarrow> http_verb q = ''PUT'' \<and> vname v = n \<and> ss = []
      | DeleteBody d \<Rightarrow> http_verb q = ''DELETE'' \<and> ss = []
      | NoBody \<Rightarrow> (http_verb q = ''GET'' \<or> http_verb q = ''DELETE'') \<and> ss = []
      | PatchBody data \<Rightarrow> http_verb q = ''PATCH'') \<Longrightarrow> api_request p q"
  unfolding api_request_def by blast

lemma patch_request:
  assumes "req_err (req_Body (PatchBody data) (req_Name name (req_SubResource ss
       (req_Resource ''vswitchconfigs'' (rc_Patch c pt))))) = None"
  shows "api_request (rc_versionedAPIPath c) (req_http (req_Body (PatchBody data) (req_Name name (req_SubResource ss
       (req_Resource ''vswitchconfigs'' (rc_Patch c pt))))))"
proof -
  have v: "valid_name name" "list_all IsValidPathSegmentName ss"
    using assms by (auto simp: builder_defs valid_name_def find_None_iff_all list_all_iff find_None_iff split: if_splits option.splits)
  have f: "find (\<lambda>s. \<not> IsValidPathSegmentName s) ss = None" using v(2) by (simp add: find_None_iff list_all_iff)
  show ?thesis
    by (rule api_object [OF v])
      (use v(1) path_Join_sub [of "rc_versionedAPIPath c @ ''/vswitchconfigs/'' @ name" ss] in
        \<open>simp_all add: builder_defs valid_name_def f\<close>)
qed

lemma get_request:
  assumes "req_err (req_VersionedParams p (req_Name n (req_Resource ''vswitchconfigs'' (rc_Verb c ''GET'')))) = None"
  shows "api_request (rc_versionedAPIPath c) (req_http (req_VersionedParams p (req_Name n
    (req_Resource ''vswitchconfigs'' (rc_Verb c ''GET'')))))"
proof -
  have v: "valid_name n" using assms by (simp add: builder_defs valid_name_def split: if_splits)
  show ?thesis by (rule api_object [OF v, of "[]"]) (use v in \<open>simp_all add: builder_defs valid_name_def\<close>)
qed

lemma update_request:
  assumes "req_err (req_Body (ObjectBody v) (req_Name (vname v) (req_Resource ''vswitchconfigs'' (rc_Verb c ''PUT'')))) = None"
  shows "api_request (rc_versionedAPIPath c) (req_http (req_Body (ObjectBody v) (req_Name (vname v)
    (req_Resource ''vswitchconfigs'' (rc_Verb c ''PUT'')))))"
proof -
  have v: "valid_name (vname v)" using assms by (simp add: builder_defs valid_name_def split: if_splits)
  show ?thesis by (rule api_object [OF v, of "[]"]) (use v in \<open>simp_all add: builder_defs valid_name_def\<close>)
qed

lemma delete_request:
  assumes "req_err (req_Body (delete_body od) (req_Name n (req_Resource ''vswitchconfigs'' (rc_Verb c ''DELETE'')))) = None"
  shows "api_request (rc_versionedAPIPath c) (req_http (req_Body (delete_body od) (req_Name n
    (req_Resource ''vswitchconfigs'' (rc_Verb c ''DELETE'')))))"
proof -
  have v: "valid_name n" using assms by (simp add: builder_defs valid_name_def split: if_splits)
  show ?thesis
    by (rule api_object [OF v, of "[]"])
      (use v in \<open>simp_all add: builder_defs valid_name_def delete_body_def split: option.split\<close>)
qed

lemma list_request:
  "api_request (rc_versionedAPIPath c) (req_http (req_Timeout t (req_VersionedParams p
    (req_Resource ''vswitchconfigs'' (rc_Verb c ''GET'')))))"
  by (rule api_collection) (simp_all add: builder_defs)

lemma create_request:
  "api_request (rc_versionedAPIPath c) (req_http (req_Body (ObjectBody v) (req_Resource ''vswitchconfigs'' (rc_Verb c ''POST''))))"
  by (rule api_collection) (simp_all add: builder_defs)

lemma delete_collection_request:
  "api_request (rc_versionedAPIPath c) (req_http (req_Body (delete_body od) (req_Timeout t (req_VersionedParams p
    (req_Resource ''vswitchconfigs'' (rc_Verb c ''DELETE''))))))"
  by (rule api_collection) (simp_all add: builder_defs delete_body_def split: option.split)

lemma run_error_or [run_simps]:
  "run_state (if b then m else go_fail err) s = (if b then run_state m s else (Inl err, s))"
  by (simp add: run_go_fail)

lemma name_error_not_NotFound [simp]: "\<not> IsNotFound (name_error n)"
  by (simp add: name_error_def)

text \<open>A call of the client runs the server's operation, or fails on its name and leaves the server alone.\<close>

lemma served_runs:
  assumes "serves c d api"
  shows "run_state (Get (rest_VSwitchConfigs c d) n) s =
      (if valid_name n then run_state (Get api n) s else (Inl (name_error n), s))"
    and "run_state (Delete (rest_VSwitchConfigs c d) n) s =
      (if valid_name n then run_state (Delete api n) s else (Inl (name_error n), s))"
    and "run_state (Update (rest_VSwitchConfigs c d) v) s =
      (if valid_name (vname v) then run_state (Update api v) s else (Inl (name_error (vname v)), s))"
    and "run_state (Create (rest_VSwitchConfigs c d) v) s = run_state (Create api v) s"
    and "run_state (List (rest_VSwitchConfigs c d)) s = run_state (List api) s"
  by (simp_all only: rest_client_ops [OF assms] run_error_or)

lemma serves_vswitch_api:
  assumes "serves c d api" and "vswitch_api api view ok"
  shows "vswitch_api (rest_VSwitchConfigs c d) view ok"
proof -
  note runs = served_runs [OF assms(1)]
  show ?thesis
    apply unfold_locales
    subgoal by (rule vswitch_api.wf_view [OF assms(2)])
    subgoal by (rule vswitch_api.wf_finite [OF assms(2)])
    subgoal using vswitch_api.get_frame [OF assms(2)] by (auto simp: runs split: if_splits)
    subgoal using vswitch_api.get_ok [OF assms(2)] by (auto simp: runs split: if_splits)
    subgoal using vswitch_api.get_notfound [OF assms(2)] by (auto simp: runs split: if_splits)
    subgoal using vswitch_api.list_frame [OF assms(2)] by (auto simp: runs split: if_splits)
    subgoal using vswitch_api.list_ok [OF assms(2)] by (auto simp: runs split: if_splits)
    subgoal using vswitch_api.create_wf [OF assms(2)] by (auto simp: runs split: if_splits)
    subgoal using vswitch_api.create_err [OF assms(2)] by (auto simp: runs split: if_splits)
    subgoal using vswitch_api.create_ok [OF assms(2)] by (auto simp: runs split: if_splits)
    subgoal using vswitch_api.update_wf [OF assms(2)] by (auto simp: runs split: if_splits)
    subgoal using vswitch_api.update_err [OF assms(2)] by (auto simp: runs split: if_splits)
    subgoal using vswitch_api.update_ok [OF assms(2)] by (auto simp: runs split: if_splits)
    subgoal using vswitch_api.delete_wf [OF assms(2)] by (auto simp: runs split: if_splits)
    subgoal using vswitch_api.delete_err [OF assms(2)] by (auto simp: runs split: if_splits)
    subgoal using vswitch_api.delete_ok [OF assms(2)] by (auto simp: runs split: if_splits)
    done
qed

text \<open>A client in front of a server that keeps the laws keeps them.\<close>

locale served_client = server: vswitch_api api view wf
  for api :: "'s VSwitchConfigInterface" and view :: "'s \<Rightarrow> string \<rightharpoonup> VSwitchConfig" and wf :: "'s \<Rightarrow> bool" +
  fixes c :: "('d, 's, 'w) RESTClient" and d :: 'd
  assumes serves_api: "serves c d api"

sublocale served_client \<subseteq> client: vswitch_api "rest_VSwitchConfigs c d" view wf
  by (rule serves_vswitch_api [OF serves_api server.vswitch_api_axioms])

subsection \<open>A server for the examples\<close>

abbreviation demo_vswitch_path :: string where
  "demo_vswitch_path \<equiv> ''/apis/kubeovs.io/v1alpha1/vswitchconfigs''"

definition tracker_Do :: "unit HttpRequest \<Rightarrow> (tracker, response) go" where
  "tracker_Do q =
     (let name = drop (length demo_vswitch_path + 1) (http_path q) in
      if http_path q = demo_vswitch_path then
        (case http_body q of
           ObjectBody v \<Rightarrow> go_bind (fake_Create v) (\<lambda>v. go_return (ObjectResponse v))
         | _ \<Rightarrow> go_bind (fake_List (\<lambda>_. True)) (\<lambda>vs. go_return (ListResponse vs)))
      else
        (case http_body q of
           ObjectBody v \<Rightarrow> go_bind (fake_Update v) (\<lambda>v. go_return (ObjectResponse v))
         | NoBody \<Rightarrow> go_bind (fake_Get name) (\<lambda>v. go_return (ObjectResponse v))
         | _ \<Rightarrow> go_bind (fake_Delete name) (\<lambda>_. go_return StatusResponse)))"

definition tracker_rest :: "(unit, tracker, unit) RESTClient" where
  "tracker_rest = \<lparr>rc_versionedAPIPath = ''/apis/kubeovs.io/v1alpha1'', rc_Do = tracker_Do, rc_Watch = (\<lambda>_. go_return ())\<rparr>"

lemma tracker_rest_serves: "serves tracker_rest () FakeVSwitchConfigs"
  by (simp add: serves_def tracker_rest_def tracker_Do_def FakeVSwitchConfigs_def)

text \<open>The same server, but it refuses what is not below the collection.\<close>

definition picky_rest :: "(unit, tracker, unit) RESTClient" where
  "picky_rest = tracker_rest\<lparr>rc_Do := (\<lambda>q. if http_path q = ''/healthz'' then go_fail (OpaqueError ''forbidden'') else tracker_Do q)\<rparr>"

lemma api_request_path:
  assumes "api_request p q"
  shows "\<exists>r. http_path q = p @ ''/vswitchconfigs'' @ r"
proof -
  consider "http_path q = p @ ''/vswitchconfigs''" | n ss where "http_path q = path_Join (p @ ''/vswitchconfigs/'' @ n) ss"
    using assms unfolding api_request_def by blast
  then show ?thesis
  proof cases
    case 1
    then show ?thesis by simp
  next
    case (2 n ss)
    show ?thesis
      unfolding 2 path_Join_append [of "p @ ''/vswitchconfigs/'' @ n" ss]
      by (intro exI [of _ "CHR ''/'' # n @ path_Join [] ss"]) simp
  qed
qed

interpretation tracker_served: served_client FakeVSwitchConfigs tracker_view tracker_wf tracker_rest "()"
  by unfold_locales (rule tracker_rest_serves)

subsection \<open>Properties\<close>

text \<open>
  C34: the typed client is the interface. Against a server that serves \<open>api\<close> under the conventions of the
  Kubernetes API, every operation of the generated client is \<open>api\<close>'s; an empty name or one that is no path segment
  fails before anything is sent.
\<close>

theorem rest_client_equivalent:
  assumes "serves c d api"
  shows "Get (rest_VSwitchConfigs c d) = (\<lambda>n. if valid_name n then Get api n else go_fail (name_error n)) \<and>
    Update (rest_VSwitchConfigs c d) = (\<lambda>v. if valid_name (vname v) then Update api v else go_fail (name_error (vname v))) \<and>
    Delete (rest_VSwitchConfigs c d) = (\<lambda>n. if valid_name n then Delete api n else go_fail (name_error n)) \<and>
    Create (rest_VSwitchConfigs c d) = Create api \<and> List (rest_VSwitchConfigs c d) = List api"
  using rest_client_ops [OF assms] by (intro conjI ext)

theorem rest_client_equivalent_witness:
  "Get (rest_VSwitchConfigs tracker_rest ()) ''node1'' = fake_Get ''node1'' \<and>
   Delete (rest_VSwitchConfigs tracker_rest ()) ''node/1'' = go_fail (name_error ''node/1'')"
  using rest_client_equivalent [OF tracker_rest_serves]
  by (auto simp: valid_name_def IsValidPathSegmentName_def FakeVSwitchConfigs_def)

text \<open>
  C35: the contract of the client. What the controllers rely on carries over from the server to the generated
  client: if the server keeps the laws of \<open>vswitch_api\<close>, so does the client in front of it.
\<close>

theorem rest_client_contract:
  assumes "serves c d api" and "vswitch_api api view ok"
  shows "vswitch_api (rest_VSwitchConfigs c d) view ok"
  using assms by (rule serves_vswitch_api)

theorem rest_client_contract_witness: "vswitch_api (rest_VSwitchConfigs tracker_rest ()) tracker_view tracker_wf"
  by (rule rest_client_contract [OF tracker_rest_serves tracker_api.vswitch_api_axioms])

text \<open>
  C36: the requests are typed. No operation, on any argument and any options, sends anything but a request
  of the API: the collection or an object of it by a name that is one path segment, with the verb and the body of the operation,
  where a replaced object is the one the path names. So two transports that agree on those are indistinguishable.
\<close>

theorem rest_requests_typed:
  assumes "rc_versionedAPIPath c' = rc_versionedAPIPath c"
    and "\<And>q. api_request (rc_versionedAPIPath c) q \<Longrightarrow> rc_Do c' q = rc_Do c q \<and> rc_Watch c' q = rc_Watch c q"
  shows "rest_Get c' n opts = rest_Get c n opts \<and> rest_List c' lo = rest_List c lo \<and> rest_Watch c' lo = rest_Watch c lo \<and>
    rest_Create c' v = rest_Create c v \<and> rest_Update c' v = rest_Update c v \<and>
    rest_Delete c' n od = rest_Delete c n od \<and> rest_DeleteCollection c' od lo = rest_DeleteCollection c od lo \<and>
    rest_Patch c' n pt data ss = rest_Patch c n pt data ss"
proof (intro conjI)
  have verb: "rc_Verb c' verb = rc_Verb c verb" and patch: "rc_Patch c' pt = rc_Patch c pt" for verb
    using assms(1) by (simp_all add: rc_Patch_def rc_Verb_def)
  have sent: "req_send (rc_Do c') r = req_send (rc_Do c) r" and watch: "req_send (rc_Watch c') r = req_send (rc_Watch c) r"
    if "req_err r = None \<Longrightarrow> api_request (rc_versionedAPIPath c) (req_http r)" for r
    using that assms(2) by (auto intro: req_send_cong)
  show "rest_Get c' n opts = rest_Get c n opts"
    unfolding rest_Get_def verb by (subst sent, rule get_request) (assumption, rule refl)
  show "rest_Update c' v = rest_Update c v"
    unfolding rest_Update_def verb by (subst sent, rule update_request) (assumption, rule refl)
  show "rest_Delete c' n od = rest_Delete c n od"
    unfolding rest_Delete_def verb by (subst sent, rule delete_request) (assumption, rule refl)
  show "rest_List c' lo = rest_List c lo"
    unfolding rest_List_def verb by (subst sent, rule list_request) (rule refl)
  show "rest_Create c' v = rest_Create c v"
    unfolding rest_Create_def verb by (subst sent, rule create_request) (rule refl)
  show "rest_DeleteCollection c' od lo = rest_DeleteCollection c od lo"
    unfolding rest_DeleteCollection_def verb by (subst sent, rule delete_collection_request) (rule refl)
  show "rest_Watch c' lo = rest_Watch c lo"
    unfolding rest_Watch_def verb by (rule watch) (rule list_request)
  show "rest_Patch c' n pt data ss = rest_Patch c n pt data ss"
    unfolding rest_Patch_def patch by (subst sent) (rule patch_request, assumption, rule refl)
qed

theorem rest_requests_typed_witness:
  "rest_Get picky_rest ''node1'' \<lparr>GetResourceVersion = []\<rparr> = rest_Get tracker_rest ''node1'' \<lparr>GetResourceVersion = []\<rparr> \<and>
   rc_Do picky_rest \<noteq> rc_Do tracker_rest"
proof -
  have same: "rc_Do picky_rest q = rc_Do tracker_rest q \<and> rc_Watch picky_rest q = rc_Watch tracker_rest q"
    if "api_request (rc_versionedAPIPath tracker_rest) q" for q
    using api_request_path [OF that] by (auto simp: picky_rest_def tracker_rest_def)
  have "rc_versionedAPIPath picky_rest = rc_versionedAPIPath tracker_rest" by (simp add: picky_rest_def)
  from rest_requests_typed [OF this same]
  have "rest_Get picky_rest ''node1'' \<lparr>GetResourceVersion = []\<rparr> = rest_Get tracker_rest ''node1'' \<lparr>GetResourceVersion = []\<rparr>"
    by blast
  moreover have "rc_Do picky_rest \<noteq> rc_Do tracker_rest"
  proof
    let ?q = "vswitch_request ''DELETE'' ''/healthz'' NoParams (DeleteBody ()) :: unit HttpRequest"
    assume "rc_Do picky_rest = rc_Do tracker_rest"
    then have "run_state (rc_Do picky_rest ?q) NewObjectTracker = run_state (rc_Do tracker_rest ?q) NewObjectTracker" by simp
    then show False
      by (simp add: picky_rest_def tracker_rest_def tracker_Do_def run_simps fake_Delete_def tracker_Delete_def
        NewObjectTracker_def tracked_def List.extract_def)
  qed
  ultimately show ?thesis by simp
qed

end
