(* ===== verification/Informer_Factory.thy ===== *)
theory Informer_Factory
  imports Typed_Client
begin

text \<open>
  The shared informer factory, \<open>apis/generated/informers/externalversions/factory.go\<close>, the informer for
  virtual switches it hands out, and the start-up of \<open>cmd/kube-ovs-controller/main.go\<close>.

  A factory and the informers it has created are a \<open>factory_world\<close>; an informer is its index in the
  heap. \<open>reflect.Type\<close> is the type's name. A Go map is an association list in the order in which
  \<open>range\<close> visits it. The informers themselves are \<open>client-go\<close>'s: only their arguments, the
  handlers added to them and the number of times \<open>Run\<close> was started are kept.
\<close>

subsection \<open>Informers\<close>

type_synonym TweakListOptionsFunc = "ListOptions \<Rightarrow> ListOptions"

record ('c, 'h) shared_informer =
  inf_client :: 'c
  inf_object :: string
  inf_resync :: int
  inf_indexers :: "string list"
  inf_tweak :: "TweakListOptionsFunc option"
  inf_handlers :: "'h list"
  inf_runs :: nat

fun reflect_TypeOf :: "runtime_object \<Rightarrow> string" where
  "reflect_TypeOf (VSwitchConfigObj _) = ''*v1alpha1.VSwitchConfig''"
| "reflect_TypeOf (NodeObj _) = ''*v1.Node''"
| "reflect_TypeOf (PodObj _) = ''*v1.Pod''"
| "reflect_TypeOf (ServiceObj _) = ''*v1.Service''"
| "reflect_TypeOf (EndpointsObj _) = ''*v1.Endpoints''"
| "reflect_TypeOf (OtherObj s) = s"

record ('c, 'h) sharedInformerFactory =
  f_client :: 'c
  f_namespace :: string
  f_tweakListOptions :: "TweakListOptionsFunc option"
  f_defaultResync :: int
  f_customResync :: "string \<rightharpoonup> int"
  f_informers :: "(string \<times> nat) list"
  f_startedInformers :: "string \<Rightarrow> bool"

record ('c, 'h) factory_world =
  fac :: "('c, 'h) sharedInformerFactory"
  heap :: "('c, 'h) shared_informer list"

subsection \<open>Creating a factory\<close>

type_synonym ('c, 'h) SharedInformerOption = "('c, 'h) sharedInformerFactory \<Rightarrow> ('c, 'h) sharedInformerFactory"

definition WithCustomResyncConfig :: "(runtime_object \<times> int) list \<Rightarrow> ('c, 'h) SharedInformerOption" where
  "WithCustomResyncConfig resyncConfig f =
     f\<lparr>f_customResync := foldl (\<lambda>m (k, v). m(reflect_TypeOf k \<mapsto> v)) (f_customResync f) resyncConfig\<rparr>"

definition WithTweakListOptions :: "TweakListOptionsFunc option \<Rightarrow> ('c, 'h) SharedInformerOption" where
  "WithTweakListOptions tweak f = f\<lparr>f_tweakListOptions := tweak\<rparr>"

definition WithNamespace :: "string \<Rightarrow> ('c, 'h) SharedInformerOption" where
  "WithNamespace ns f = f\<lparr>f_namespace := ns\<rparr>"

definition NewSharedInformerFactoryWithOptions ::
    "'c \<Rightarrow> int \<Rightarrow> ('c, 'h) SharedInformerOption list \<Rightarrow> ('c, 'h) sharedInformerFactory" where
  "NewSharedInformerFactoryWithOptions client resync options =
     foldl (\<lambda>f opt. opt f)
       \<lparr>f_client = client, f_namespace = [], f_tweakListOptions = None, f_defaultResync = resync,
        f_customResync = Map.empty, f_informers = [], f_startedInformers = (\<lambda>_. False)\<rparr> options"

definition NewSharedInformerFactory :: "'c \<Rightarrow> int \<Rightarrow> ('c, 'h) sharedInformerFactory" where
  "NewSharedInformerFactory client resync = NewSharedInformerFactoryWithOptions client resync []"

definition NewFilteredSharedInformerFactory ::
    "'c \<Rightarrow> int \<Rightarrow> string \<Rightarrow> TweakListOptionsFunc option \<Rightarrow> ('c, 'h) sharedInformerFactory" where
  "NewFilteredSharedInformerFactory client resync ns tweak =
     NewSharedInformerFactoryWithOptions client resync [WithNamespace ns, WithTweakListOptions tweak]"

subsection \<open>Starting and requesting informers\<close>

definition go_Run :: "nat \<Rightarrow> ('c, 'h) shared_informer list \<Rightarrow> ('c, 'h) shared_informer list" where
  "go_Run p h = h[p := (h ! p)\<lparr>inf_runs := inf_runs (h ! p) + 1\<rparr>]"

fun start_loop :: "(string \<times> nat) list \<Rightarrow> ('c, 'h) factory_world \<Rightarrow> ('c, 'h) factory_world" where
  "start_loop [] w = w"
| "start_loop ((informerType, informer) # rest) w =
     (if \<not> f_startedInformers (fac w) informerType
      then start_loop rest
        (w\<lparr>heap := go_Run informer (heap w),
           fac := (fac w)\<lparr>f_startedInformers := (f_startedInformers (fac w))(informerType := True)\<rparr>\<rparr>)
      else start_loop rest w)"

definition factory_Start :: "('c, 'h) factory_world \<Rightarrow> ('c, 'h) factory_world" where
  "factory_Start w = start_loop (f_informers (fac w)) w"

text \<open>\<open>synced p\<close>: what \<open>cache.WaitForCacheSync\<close> returns for an informer, true when its cache is populated.\<close>

definition factory_WaitForCacheSync :: "(nat \<Rightarrow> bool) \<Rightarrow> ('c, 'h) factory_world \<Rightarrow> (string \<times> bool) list" where
  "factory_WaitForCacheSync synced w =
     map (\<lambda>(t, p). (t, synced p)) (filter (\<lambda>(t, p). f_startedInformers (fac w) t) (f_informers (fac w)))"

definition InformerFor ::
    "runtime_object \<Rightarrow> ('c \<Rightarrow> int \<Rightarrow> ('c, 'h) shared_informer) \<Rightarrow> ('c, 'h) factory_world \<Rightarrow> nat \<times> ('c, 'h) factory_world" where
  "InformerFor obj newFunc w =
     (let f = fac w; informerType = reflect_TypeOf obj in
      case map_of (f_informers f) informerType of
        Some informer \<Rightarrow> (informer, w)
      | None \<Rightarrow>
          (let resyncPeriod = (case f_customResync f informerType of Some d \<Rightarrow> d | None \<Rightarrow> f_defaultResync f);
               informer = length (heap w)
           in (informer, w\<lparr>heap := heap w @ [newFunc (f_client f) resyncPeriod],
                           fac := f\<lparr>f_informers := f_informers f @ [(informerType, informer)]\<rparr>\<rparr>)))"

text \<open>Adding a handler to an informer.\<close>

definition AddEventHandler :: "'h \<Rightarrow> nat \<Rightarrow> ('c, 'h) factory_world \<Rightarrow> ('c, 'h) factory_world" where
  "AddEventHandler handler p w =
     w\<lparr>heap := (heap w)[p := (heap w ! p)\<lparr>inf_handlers := inf_handlers (heap w ! p) @ [handler]\<rparr>]\<rparr>"

subsection \<open>The informer for virtual switches\<close>

record informer_group =
  g_namespace :: string
  g_tweak :: "TweakListOptionsFunc option"

definition informers_kubeovs_New :: "string \<Rightarrow> TweakListOptionsFunc option \<Rightarrow> informer_group" where
  "informers_kubeovs_New ns tweak = \<lparr>g_namespace = ns, g_tweak = tweak\<rparr>"

definition Kubeovs :: "('c, 'h) sharedInformerFactory \<Rightarrow> informer_group" where
  "Kubeovs f = informers_kubeovs_New (f_namespace f) (f_tweakListOptions f)"

record informer_version =
  v_namespace :: string
  v_tweak :: "TweakListOptionsFunc option"

definition informers_v1alpha1_New :: "string \<Rightarrow> TweakListOptionsFunc option \<Rightarrow> informer_version" where
  "informers_v1alpha1_New ns tweak = \<lparr>v_namespace = ns, v_tweak = tweak\<rparr>"

definition V1alpha1 :: "informer_group \<Rightarrow> informer_version" where
  "V1alpha1 g = informers_v1alpha1_New (g_namespace g) (g_tweak g)"

record vSwitchConfigInformer =
  i_tweak :: "TweakListOptionsFunc option"

definition VSwitchConfigs :: "informer_version \<Rightarrow> vSwitchConfigInformer" where
  "VSwitchConfigs v = \<lparr>i_tweak = v_tweak v\<rparr>"

definition NewFilteredVSwitchConfigInformer ::
    "'c \<Rightarrow> int \<Rightarrow> string list \<Rightarrow> TweakListOptionsFunc option \<Rightarrow> ('c, 'h) shared_informer" where
  "NewFilteredVSwitchConfigInformer client resyncPeriod indexers tweak =
     \<lparr>inf_client = client, inf_object = ''*v1alpha1.VSwitchConfig'', inf_resync = resyncPeriod, inf_indexers = indexers,
      inf_tweak = tweak, inf_handlers = [], inf_runs = 0\<rparr>"

definition NewVSwitchConfigInformer :: "'c \<Rightarrow> int \<Rightarrow> string list \<Rightarrow> ('c, 'h) shared_informer" where
  "NewVSwitchConfigInformer client resyncPeriod indexers = NewFilteredVSwitchConfigInformer client resyncPeriod indexers None"

text \<open>\<open>ListFunc\<close> and \<open>WatchFunc\<close>: the call of the client with the options tweaked.\<close>

definition informer_call :: "('c \<Rightarrow> ListOptions \<Rightarrow> 'r) \<Rightarrow> ('c, 'h) shared_informer \<Rightarrow> ListOptions \<Rightarrow> 'r" where
  "informer_call call i options =
     call (inf_client i) (case inf_tweak i of Some tweak \<Rightarrow> tweak options | None \<Rightarrow> options)"

definition defaultInformer :: "vSwitchConfigInformer \<Rightarrow> 'c \<Rightarrow> int \<Rightarrow> ('c, 'h) shared_informer" where
  "defaultInformer i client resyncPeriod =
     NewFilteredVSwitchConfigInformer client resyncPeriod [''namespace''] (i_tweak i)"

definition zero_VSwitchConfig :: VSwitchConfig where
  "zero_VSwitchConfig =
     \<lparr>TypeMetaOf = \<lparr>Kind = [], APIVersion = []\<rparr>,
      Meta = \<lparr>Name = [], Namespace = [], ResourceVersion = [], Labels = []\<rparr>,
      Spec = \<lparr>PodCIDR = [], ClusterCIDR = [], ServiceCIDR = [], OverlayIP = [], OverlayType = [], OverlayTunnelID = 0\<rparr>\<rparr>"

definition Informer :: "vSwitchConfigInformer \<Rightarrow> ('c, 'h) factory_world \<Rightarrow> nat \<times> ('c, 'h) factory_world" where
  "Informer i w = InformerFor (VSwitchConfigObj zero_VSwitchConfig) (defaultInformer i) w"

text \<open>The lister reads the indexer of the shared informer.\<close>

definition Lister :: "vSwitchConfigInformer \<Rightarrow> ('c, 'h) factory_world \<Rightarrow> nat \<times> ('c, 'h) factory_world" where
  "Lister i w = Informer i w"

record genericInformer =
  gi_informer :: nat
  gi_resource :: "string \<times> string"

definition generic_Informer :: "genericInformer \<Rightarrow> nat" where
  "generic_Informer f = gi_informer f"

text \<open>A generic lister is the informer whose indexer it reads and the resource its errors name.\<close>

definition generic_Lister :: "genericInformer \<Rightarrow> nat \<times> string \<times> string" where
  "generic_Lister f = (generic_Informer f, gi_resource f)"

definition ForResource ::
    "GroupVersionResource \<Rightarrow> ('c, 'h) factory_world \<Rightarrow> genericInformer result \<times> ('c, 'h) factory_world" where
  "ForResource resource w =
     (if resource = vswitchconfigsResource then
        (case Informer (VSwitchConfigs (V1alpha1 (Kubeovs (fac w)))) w of
           (p, w') \<Rightarrow> (Inr \<lparr>gi_informer = p, gi_resource = (Group resource, Resource resource)\<rparr>, w'))
      else (Inl (Errorf ''no informer found for %v'' [Resource resource]), w))"

subsection \<open>The controller's start-up\<close>

datatype controller_handler =
    TunnelIDAllocator
  | VSwitchConfigController string string string

text \<open>
  The node informer of \<open>client-go\<close>'s own factory, generated by the same generator: its \<open>Informer\<close> is an
  \<open>InformerFor\<close> of \<open>corev1.Node\<close>.
\<close>

definition node_Informer ::
    "('c \<Rightarrow> int \<Rightarrow> ('c, 'h) shared_informer) \<Rightarrow> Node \<Rightarrow> ('c, 'h) factory_world \<Rightarrow> nat \<times> ('c, 'h) factory_world" where
  "node_Informer new_node zero_node w = InformerFor (NodeObj zero_node) new_node w"

record ('g, 'k, 'v, 'h) controller_env =
  env_InClusterConfig :: "'g result"
  env_kubernetes_NewForConfig :: "'g \<Rightarrow> 'k result"
  env_kovs_NewForConfig :: "'g \<Rightarrow> 'v result"
  env_new_node :: "'k \<Rightarrow> int \<Rightarrow> ('k, 'h) shared_informer"
  env_zero_node :: Node

text \<open>
  How \<open>main\<close> ends: it exits, or blocks with both factories started; the lists are what the two calls
  of \<open>WaitForCacheSync\<close> waited for.
\<close>

datatype ('k, 'v) controller_outcome =
    Exits int
  | Serves "('v, controller_handler) factory_world" "('k, controller_handler) factory_world"
      "(string \<times> bool) list" "(string \<times> bool) list"

abbreviation (input) defaultClusterCIDR :: string where "defaultClusterCIDR \<equiv> ''100.96.0.0/11''"
abbreviation (input) defaultServiceCIDR :: string where "defaultServiceCIDR \<equiv> ''100.64.0.0/13''"
abbreviation (input) defaultOverlayType :: string where "defaultOverlayType \<equiv> ''vxlan''"

text \<open>
  The constructors of the two handlers. They ask the informers for their listers, which creates the
  informers; the clients and listers themselves are arguments of the handlers' definitions.
\<close>

definition NewTunnelIDAllocator ::
    "vSwitchConfigInformer \<Rightarrow> ('v, 'h) factory_world \<Rightarrow> controller_handler \<times> ('v, 'h) factory_world" where
  "NewTunnelIDAllocator vswitchInformer kovs =
     (let (_, kovs) = Lister vswitchInformer kovs in (TunnelIDAllocator, kovs))"

definition NewVSwitchConfigController ::
    "vSwitchConfigInformer \<Rightarrow> (('k, 'h) factory_world \<Rightarrow> nat \<times> ('k, 'h) factory_world) \<Rightarrow> string \<Rightarrow> string \<Rightarrow> string \<Rightarrow>
     ('v, 'h) factory_world \<Rightarrow> ('k, 'h) factory_world \<Rightarrow>
     controller_handler \<times> ('v, 'h) factory_world \<times> ('k, 'h) factory_world" where
  "NewVSwitchConfigController vswitchInformer nodeLister ovType cCIDR sCIDR kovs core =
     (let (_, kovs) = Lister vswitchInformer kovs;
          (_, core) = nodeLister core
      in (VSwitchConfigController ovType cCIDR sCIDR, kovs, core))"

definition controller_setup ::
    "('g, 'k, 'v, controller_handler) controller_env \<Rightarrow> (nat \<Rightarrow> bool) \<Rightarrow> 'k \<Rightarrow> 'v \<Rightarrow> ('k, 'v) controller_outcome" where
  "controller_setup env synced clientset kovsClientset =
     (let kovs = \<lparr>fac = NewSharedInformerFactory kovsClientset 0, heap = []\<rparr>;
          vswitchInformer = VSwitchConfigs (V1alpha1 (Kubeovs (fac kovs)));
          core = \<lparr>fac = NewSharedInformerFactory clientset 0, heap = []\<rparr>;
          kovsWaited = factory_WaitForCacheSync synced kovs;
          coreWaited = factory_WaitForCacheSync synced core;
          nodeInformer = node_Informer (env_new_node env) (env_zero_node env);
          (tunnelController, kovs) = NewTunnelIDAllocator vswitchInformer kovs;
          (p, kovs) = Informer vswitchInformer kovs;
          kovs = AddEventHandler tunnelController p kovs;
          (vswitchController, kovs, core) = NewVSwitchConfigController vswitchInformer nodeInformer
            defaultOverlayType defaultClusterCIDR defaultServiceCIDR kovs core;
          (q, core) = nodeInformer core;
          core = AddEventHandler vswitchController q core
      in Serves (factory_Start kovs) (factory_Start core) kovsWaited coreWaited)"

definition controller_main ::
    "('g, 'k, 'v, controller_handler) controller_env \<Rightarrow> (nat \<Rightarrow> bool) \<Rightarrow> ('k, 'v) controller_outcome" where
  "controller_main env synced =
     (case env_InClusterConfig env of
        Inl err \<Rightarrow> Exits 1
      | Inr restConfig \<Rightarrow>
          (case env_kubernetes_NewForConfig env restConfig of
             Inl err \<Rightarrow> Exits 1
           | Inr clientset \<Rightarrow>
               (case env_kovs_NewForConfig env restConfig of
                  Inl err \<Rightarrow> Exits 1
                | Inr kovsClientset \<Rightarrow> controller_setup env synced clientset kovsClientset)))"

subsection \<open>The invariant of a factory\<close>

definition runs_of :: "('c, 'h) factory_world \<Rightarrow> string \<times> nat \<Rightarrow> bool" where
  "runs_of w tp \<longleftrightarrow> inf_runs (heap w ! snd tp) = (if f_startedInformers (fac w) (fst tp) then 1 else 0)"

definition factory_inv :: "('c, 'h) factory_world \<Rightarrow> bool" where
  "factory_inv w \<longleftrightarrow>
     distinct (map fst (f_informers (fac w))) \<and>
     map snd (f_informers (fac w)) = [0..<length (heap w)] \<and>
     (\<forall>tp \<in> set (f_informers (fac w)). runs_of w tp) \<and>
     (\<forall>t. f_startedInformers (fac w) t \<longrightarrow> t \<in> fst ` set (f_informers (fac w)))"

definition fresh_informer :: "('c \<Rightarrow> int \<Rightarrow> ('c, 'h) shared_informer) \<Rightarrow> bool" where
  "fresh_informer newFunc \<longleftrightarrow> (\<forall>c d. inf_runs (newFunc c d) = 0)"

lemma factory_inv_new: "factory_inv \<lparr>fac = NewSharedInformerFactory c d, heap = []\<rparr>"
  by (simp add: factory_inv_def NewSharedInformerFactory_def NewSharedInformerFactoryWithOptions_def)

lemma factory_inv_ptr: "factory_inv w \<Longrightarrow> (t, p) \<in> set (f_informers (fac w)) \<Longrightarrow> p < length (heap w)"
  unfolding factory_inv_def by (metis atLeastLessThan_iff image_eqI list.set_map set_upt snd_conv)

lemma InformerFor_inv:
  assumes "factory_inv w" and "fresh_informer newFunc" and "InformerFor obj newFunc w = (p, w')"
  shows "factory_inv w'"
proof (cases "map_of (f_informers (fac w)) (reflect_TypeOf obj)")
  case (Some q)
  then show ?thesis using assms(1,3) by (simp add: InformerFor_def Let_def)
next
  case None
  then have new: "reflect_TypeOf obj \<notin> fst ` set (f_informers (fac w))" by (simp add: map_of_eq_None_iff)
  have "runs_of w' tp" if "tp \<in> set (f_informers (fac w))" for tp
    using that assms(1,3) None factory_inv_ptr [OF assms(1), of "fst tp" "snd tp"]
    by (auto simp: InformerFor_def Let_def factory_inv_def runs_of_def nth_append)
  moreover have "\<not> f_startedInformers (fac w) (reflect_TypeOf obj)" using assms(1) new by (auto simp: factory_inv_def)
  ultimately show ?thesis
    using assms(1,2,3) None new by (auto simp: InformerFor_def Let_def factory_inv_def runs_of_def fresh_informer_def)
qed

lemma InformerFor_found:
  assumes "InformerFor obj newFunc w = (p, w')"
  shows "map_of (f_informers (fac w')) (reflect_TypeOf obj) = Some p"
  using assms by (auto simp: InformerFor_def Let_def map_add_def split: option.splits if_splits)

text \<open>\<open>Start\<close>: every informer of the remaining list is started once.\<close>

lemma start_loop_spec:
  assumes "factory_inv w" and "set rest \<subseteq> set (f_informers (fac w))"
  shows "factory_inv (start_loop rest w) \<and> f_informers (fac (start_loop rest w)) = f_informers (fac w) \<and>
    length (heap (start_loop rest w)) = length (heap w) \<and>
    (\<forall>t. f_startedInformers (fac (start_loop rest w)) t \<longleftrightarrow> f_startedInformers (fac w) t \<or> t \<in> fst ` set rest)"
  using assms
proof (induction rest arbitrary: w)
  case Nil
  then show ?case by simp
next
  case (Cons tp rest)
  obtain t p where tp: "tp = (t, p)" by (rule prod.exhaust)
  show ?case
  proof (cases "f_startedInformers (fac w) t")
    case True
    then show ?thesis using Cons by (auto simp: tp)
  next
    case False
    let ?w = "w\<lparr>heap := go_Run p (heap w), fac := (fac w)\<lparr>f_startedInformers := (f_startedInformers (fac w))(t := True)\<rparr>\<rparr>"
    have mem: "(t, p) \<in> set (f_informers (fac w))" using Cons.prems(2) by (simp add: tp)
    have inj: "inj_on fst (set (f_informers (fac w)))" "inj_on snd (set (f_informers (fac w)))"
      using Cons.prems(1) distinct_map [of fst "f_informers (fac w)"] distinct_map [of snd "f_informers (fac w)"]
      by (auto simp: factory_inv_def)
    have other: "fst x = t \<longleftrightarrow> x = (t, p)" "snd x = p \<longleftrightarrow> x = (t, p)" if "x \<in> set (f_informers (fac w))" for x
      using inj_on_eq_iff [OF inj(1) that mem] inj_on_eq_iff [OF inj(2) that mem] by simp_all
    have p: "p < length (heap w)" by (rule factory_inv_ptr [OF Cons.prems(1) mem])
    have "runs_of ?w x" if "x \<in> set (f_informers (fac w))" for x
      using that other [OF that] Cons.prems(1) p False mem
      by (cases "x = (t, p)") (auto simp: runs_of_def factory_inv_def go_Run_def nth_list_update)
    then have inv: "factory_inv ?w"
      using Cons.prems(1) mem by (auto simp: factory_inv_def go_Run_def image_iff intro: rev_bexI)
    show ?thesis using Cons.IH [OF inv] Cons.prems(2) False by (auto simp: tp go_Run_def)
  qed
qed

lemma start_loop_informers [simp]: "f_informers (fac (start_loop rest w)) = f_informers (fac w)"
  by (induction rest w rule: start_loop.induct) auto

datatype ('c, 'h) factory_op =
    OpInformerFor runtime_object "'c \<Rightarrow> int \<Rightarrow> ('c, 'h) shared_informer"
  | OpAddEventHandler 'h nat
  | OpStart

fun factory_do :: "('c, 'h) factory_op \<Rightarrow> ('c, 'h) factory_world \<Rightarrow> ('c, 'h) factory_world" where
  "factory_do (OpInformerFor obj newFunc) w = snd (InformerFor obj newFunc w)"
| "factory_do (OpAddEventHandler handler p) w = AddEventHandler handler p w"
| "factory_do OpStart w = factory_Start w"

fun op_fresh :: "('c, 'h) factory_op \<Rightarrow> bool" where
  "op_fresh (OpInformerFor obj newFunc) = fresh_informer newFunc"
| "op_fresh _ = True"

lemma AddEventHandler_runs [simp]:
  "inf_runs (heap (AddEventHandler handler p w) ! q) = inf_runs (heap w ! q)"
  by (cases "p < length (heap w)"; cases "p = q") (simp_all add: AddEventHandler_def list_update_beyond)

lemma AddEventHandler_inv: "factory_inv w \<Longrightarrow> factory_inv (AddEventHandler handler p w)"
  unfolding factory_inv_def runs_of_def AddEventHandler_runs by (simp add: AddEventHandler_def)

lemma factory_do_inv: "factory_inv w \<Longrightarrow> op_fresh op \<Longrightarrow> factory_inv (factory_do op w)"
  using start_loop_spec [of w "f_informers (fac w)"]
  by (cases op) (auto simp: AddEventHandler_inv factory_Start_def intro: InformerFor_inv [OF _ _ prod.collapse [symmetric]])

lemma factory_ops_inv: "factory_inv w \<Longrightarrow> list_all op_fresh ops \<Longrightarrow> factory_inv (fold factory_do ops w)"
  by (induction ops arbitrary: w) (auto simp: factory_do_inv)

lemma factory_do_informer:
  "map_of (f_informers (fac w)) t = Some p \<Longrightarrow> map_of (f_informers (fac (factory_do op w))) t = Some p"
  by (cases op) (auto simp: InformerFor_def Let_def AddEventHandler_def factory_Start_def map_add_def split: option.split)

lemma factory_ops_informer:
  "map_of (f_informers (fac w)) t = Some p \<Longrightarrow> map_of (f_informers (fac (fold factory_do ops w))) t = Some p"
  by (induction ops arbitrary: w) (auto simp: factory_do_informer)

lemma factory_inv_runs:
  assumes "factory_inv w" and "p < length (heap w)"
  obtains t where "(t, p) \<in> set (f_informers (fac w))" and "inf_runs (heap w ! p) = (if f_startedInformers (fac w) t then 1 else 0)"
proof -
  have "p \<in> snd ` set (f_informers (fac w))" using assms unfolding factory_inv_def
    by (metis atLeastLessThan_iff list.set_map set_upt zero_le)
  then obtain t where t: "(t, p) \<in> set (f_informers (fac w))" by force
  then have "runs_of w (t, p)" using assms(1) unfolding factory_inv_def by blast
  then show ?thesis using that [OF t] by (simp add: runs_of_def)
qed

subsection \<open>Properties\<close>

text \<open>
  C38: informers are shared and run once. After any calls on a new factory: a second
  \<open>InformerFor\<close> for a type returns the informer of the first and creates none, whatever happened in between;
  no informer has been run twice; and after \<open>Start\<close> every informer has been run exactly once.
\<close>

theorem informers_shared:
  fixes newFunc :: "'c \<Rightarrow> int \<Rightarrow> ('c, 'h) shared_informer"
  assumes "list_all op_fresh ops" and "list_all op_fresh ops'" and "fresh_informer newFunc"
    and "w = fold factory_do ops \<lparr>fac = NewSharedInformerFactory c d, heap = []\<rparr>"
    and "InformerFor obj newFunc w = (p, w1)" and "w2 = fold factory_do ops' w1" and "q < length (heap w2)"
  shows "InformerFor obj newFunc' w2 = (p, w2) \<and> inf_runs (heap w2 ! q) \<le> 1 \<and>
    inf_runs (heap (factory_Start w2) ! q) = 1"
proof -
  have "factory_inv w" using factory_ops_inv [OF factory_inv_new assms(1)] assms(4) by simp
  then have inv: "factory_inv w2"
    using factory_ops_inv [OF InformerFor_inv [OF _ assms(3,5)] assms(2)] assms(6) by simp
  have "map_of (f_informers (fac w2)) (reflect_TypeOf obj) = Some p"
    using factory_ops_informer [OF InformerFor_found [OF assms(5)]] assms(6) by simp
  then have "InformerFor obj newFunc' w2 = (p, w2)" by (simp add: InformerFor_def)
  moreover have "inf_runs (heap w2 ! q) \<le> 1"
    by (rule factory_inv_runs [OF inv assms(7)]) simp
  moreover have "inf_runs (heap (factory_Start w2) ! q) = 1"
  proof -
    note spec = start_loop_spec [OF inv order_refl, folded factory_Start_def]
    from spec have "factory_inv (factory_Start w2)" and "q < length (heap (factory_Start w2))" using assms(7) by simp_all
    then obtain t where t: "(t, q) \<in> set (f_informers (fac (factory_Start w2)))"
      and "inf_runs (heap (factory_Start w2) ! q) = (if f_startedInformers (fac (factory_Start w2)) t then 1 else 0)"
      by (rule factory_inv_runs)
    moreover have "t \<in> fst ` set (f_informers (fac w2))" using t spec by (force simp: image_iff)
    ultimately show ?thesis using spec by simp
  qed
  ultimately show ?thesis by simp
qed

abbreviation demo_new :: "nat \<Rightarrow> int \<Rightarrow> (nat, unit) shared_informer" where
  "demo_new \<equiv> defaultInformer \<lparr>i_tweak = None\<rparr>"

theorem informers_shared_witness:
  "\<exists>w2. w2 = fold factory_do [OpStart, OpInformerFor (VSwitchConfigObj zero_VSwitchConfig) demo_new]
       (snd (InformerFor (VSwitchConfigObj zero_VSwitchConfig) demo_new \<lparr>fac = NewSharedInformerFactory (7 :: nat) 0, heap = []\<rparr>)) \<and>
     InformerFor (VSwitchConfigObj zero_VSwitchConfig) demo_new w2 = (0, w2) \<and> inf_runs (heap (factory_Start w2) ! 0) = 1"
proof -
  let ?w = "\<lparr>fac = NewSharedInformerFactory (7 :: nat) 0, heap = []\<rparr> :: (nat, unit) factory_world"
  let ?obj = "VSwitchConfigObj zero_VSwitchConfig"
  have fresh: "fresh_informer demo_new" by (simp add: fresh_informer_def defaultInformer_def NewFilteredVSwitchConfigInformer_def)
  have p: "InformerFor ?obj demo_new ?w = (0, snd (InformerFor ?obj demo_new ?w))"
    by (simp add: InformerFor_def NewSharedInformerFactory_def NewSharedInformerFactoryWithOptions_def)
  have q: "0 < length (heap (fold factory_do [OpStart, OpInformerFor ?obj demo_new] (snd (InformerFor ?obj demo_new ?w))))"
    by (simp add: InformerFor_def NewSharedInformerFactory_def NewSharedInformerFactoryWithOptions_def factory_Start_def go_Run_def Let_def)
  show ?thesis
    using informers_shared [of "[]" "[OpStart, OpInformerFor ?obj demo_new]" demo_new ?w 7 0 ?obj 0, OF _ _ fresh _ p refl q] fresh
    by simp
qed

text \<open>
  C39: the wiring of the controller. When the clients can be created, \<open>main\<close> serves with one informer for virtual
  switches that the tunnel identifier allocator alone observes and one for nodes that the virtual switch controller
  alone observes with the default networks, each run once. Both calls of \<open>WaitForCacheSync\<close> come before
  anything is started and wait for no informer. When a client cannot be created, \<open>main\<close> exits with status 1.
\<close>

theorem controller_main_wiring:
  assumes "\<And>k d. inf_handlers (env_new_node env k d) = [] \<and> inf_runs (env_new_node env k d) = 0"
  shows "(case (env_InClusterConfig env, controller_main env synced) of
     (Inr g, Serves kovs core kovsWaited coreWaited) \<Rightarrow>
       (\<exists>vs nodes. heap kovs = [vs] \<and> heap core = [nodes] \<and> kovsWaited = [] \<and> coreWaited = [] \<and>
          env_kovs_NewForConfig env g = Inr (inf_client vs) \<and> inf_object vs = ''*v1alpha1.VSwitchConfig'' \<and>
          inf_handlers vs = [TunnelIDAllocator] \<and> inf_runs vs = 1 \<and>
          inf_handlers nodes = [VSwitchConfigController ''vxlan'' ''100.96.0.0/11'' ''100.64.0.0/13''] \<and> inf_runs nodes = 1)
   | (Inr g, Exits n) \<Rightarrow> n = 1 \<and> (isl (env_kubernetes_NewForConfig env g) \<or> isl (env_kovs_NewForConfig env g))
   | (Inl err, out) \<Rightarrow> out = Exits 1)"
  using assms
  by (auto simp: controller_main_def controller_setup_def NewTunnelIDAllocator_def NewVSwitchConfigController_def Let_def Lister_def Informer_def node_Informer_def InformerFor_def
    NewSharedInformerFactory_def NewSharedInformerFactoryWithOptions_def factory_WaitForCacheSync_def AddEventHandler_def
    factory_Start_def go_Run_def defaultInformer_def NewFilteredVSwitchConfigInformer_def split: sum.split)

definition demo_controller_env :: "(unit, nat, nat, controller_handler) controller_env" where
  "demo_controller_env = \<lparr>env_InClusterConfig = Inr (), env_kubernetes_NewForConfig = (\<lambda>_. Inr 1), env_kovs_NewForConfig = (\<lambda>_. Inr 2),
     env_new_node = (\<lambda>c d. \<lparr>inf_client = c, inf_object = ''*v1.Node'', inf_resync = d, inf_indexers = [], inf_tweak = None,
       inf_handlers = [], inf_runs = 0\<rparr>),
     env_zero_node = \<lparr>NodeMeta = \<lparr>Name = [], Namespace = [], ResourceVersion = [], Labels = []\<rparr>, NodePodCIDR = [], Addresses = []\<rparr>\<rparr>"

theorem controller_main_wiring_witness:
  "\<exists>kovs core. controller_main demo_controller_env (\<lambda>_. True) = Serves kovs core [] [] \<and>
     map inf_handlers (heap kovs) = [[TunnelIDAllocator]] \<and> map inf_runs (heap core) = [1]"
proof -
  have "inf_handlers (env_new_node demo_controller_env k d) = [] \<and> inf_runs (env_new_node demo_controller_env k d) = 0" for k d
    by (simp add: demo_controller_env_def)
  from controller_main_wiring [where env = demo_controller_env, OF this, of "\<lambda>_. True"] show ?thesis
    by (cases "controller_main demo_controller_env (\<lambda>_. True)") (auto simp: demo_controller_env_def)
qed

end
