(* ===== verification/Agent_Wiring.thy ===== *)
theory Agent_Wiring
  imports Node_Agent Informer_Factory
begin

text \<open>
  The informers of the node agent, \<open>cmd/kube-ovs/main.go\<close>: which it creates, the handlers it adds to
  them and their start, after the set-up of the host that \<open>Node_Agent\<close> models.
\<close>

subsection \<open>Informers and handlers\<close>

datatype agent_handler =
    OpenflowVSwitches controller
  | OpenflowPods controller
  | VxlanVSwitches vxlanPorts

text \<open>The informers of \<open>client-go\<close>'s own factory, of nodes and of pods.\<close>

record 'k core_informers =
  new_node_informer :: "'k \<Rightarrow> int \<Rightarrow> ('k, agent_handler) shared_informer"
  new_pod_informer :: "'k \<Rightarrow> int \<Rightarrow> ('k, agent_handler) shared_informer"
  zero_node :: Node
  zero_pod :: Pod

definition agent_Nodes :: "'k core_informers \<Rightarrow> ('k, agent_handler) factory_world \<Rightarrow> nat \<times> ('k, agent_handler) factory_world" where
  "agent_Nodes ci w = InformerFor (NodeObj (zero_node ci)) (new_node_informer ci) w"

definition agent_Pods :: "'k core_informers \<Rightarrow> ('k, agent_handler) factory_world \<Rightarrow> nat \<times> ('k, agent_handler) factory_world" where
  "agent_Pods ci w = InformerFor (PodObj (zero_pod ci)) (new_pod_informer ci) w"

text \<open>What \<open>main\<close> ends with: the two factories started, and what the two waits before waited for.\<close>

record ('k, 'v) agent_informers =
  ai_core :: "('k, agent_handler) factory_world"
  ai_kovs :: "('v, agent_handler) factory_world"
  ai_coreWaited :: "(string \<times> bool) list"
  ai_kovsWaited :: "(string \<times> bool) list"

abbreviation (input) agent_resync :: int where "agent_resync \<equiv> 60000000000"

text \<open>
  \<open>NewController\<close> asks for the listers of nodes and pods, \<open>NewVxlanPorts\<close> for that of virtual switches.
\<close>

definition agent_informers ::
    "'k core_informers \<Rightarrow> (nat \<Rightarrow> bool) \<Rightarrow> 'k \<Rightarrow> 'v \<Rightarrow> agent \<Rightarrow> ('k, 'v) agent_informers" where
  "agent_informers ci synced clientset kovsClientset ag =
     (let core = \<lparr>fac = NewSharedInformerFactory clientset agent_resync, heap = []\<rparr>;
          kovs = \<lparr>fac = NewSharedInformerFactory kovsClientset agent_resync, heap = []\<rparr>;
          vswitchInformer = VSwitchConfigs (V1alpha1 (Kubeovs (fac kovs)));
          (_, core) = agent_Nodes ci core;
          (_, core) = agent_Pods ci core;
          (p, kovs) = Informer vswitchInformer kovs;
          kovs = AddEventHandler (OpenflowVSwitches (ag_ctl ag)) p kovs;
          (q, core) = agent_Pods ci core;
          core = AddEventHandler (OpenflowPods (ag_ctl ag)) q core;
          (_, kovs) = Lister vswitchInformer kovs;
          (r, kovs) = Informer vswitchInformer kovs;
          kovs = AddEventHandler (VxlanVSwitches (ag_vxlan ag)) r kovs
      in \<lparr>ai_core = factory_Start core, ai_kovs = factory_Start kovs,
          ai_coreWaited = factory_WaitForCacheSync synced core, ai_kovsWaited = factory_WaitForCacheSync synced kovs\<rparr>)"

text \<open>The agent with its informers: nothing is started when the set-up fails.\<close>

definition agent_run ::
    "nat \<Rightarrow> ('e, 'z) AgentEnv_scheme \<Rightarrow> 'k core_informers \<Rightarrow> (nat \<Rightarrow> bool) \<Rightarrow> 'k \<Rightarrow> 'v \<Rightarrow> 'e of_world \<Rightarrow>
     (agent \<times> ('k, 'v) agent_informers) result outcome option \<times> 'e of_world" where
  "agent_run fuel env ci synced clientset kovsClientset w =
     (case agent_main fuel env w of
        (None, w') \<Rightarrow> (None, w')
      | (Some (Panics p), w') \<Rightarrow> (Some (Panics p), w')
      | (Some (Returns (Inl err)), w') \<Rightarrow> (Some (Returns (Inl err)), w')
      | (Some (Returns (Inr ag)), w') \<Rightarrow> (Some (Returns (Inr (ag, agent_informers ci synced clientset kovsClientset ag))), w'))"

subsection \<open>Properties\<close>

definition unused :: "('k, 'h) shared_informer \<Rightarrow> bool" where
  "unused i \<longleftrightarrow> inf_handlers i = [] \<and> inf_runs i = 0"

lemma agent_informers_wiring:
  assumes "\<And>d. unused (new_node_informer ci k d)" and "\<And>d. unused (new_pod_informer ci k d)"
  shows "\<exists>nodes pods vs. heap (ai_core (agent_informers ci synced k v ag)) = [nodes, pods] \<and>
    heap (ai_kovs (agent_informers ci synced k v ag)) = [vs] \<and>
    inf_handlers nodes = [] \<and> inf_handlers pods = [OpenflowPods (ag_ctl ag)] \<and>
    inf_handlers vs = [OpenflowVSwitches (ag_ctl ag), VxlanVSwitches (ag_vxlan ag)] \<and>
    inf_client vs = v \<and> inf_object vs = ''*v1alpha1.VSwitchConfig'' \<and> inf_resync vs = 60000000000 \<and>
    inf_runs nodes = 1 \<and> inf_runs pods = 1 \<and> inf_runs vs = 1 \<and>
    ai_coreWaited (agent_informers ci synced k v ag) = [] \<and> ai_kovsWaited (agent_informers ci synced k v ag) = []"
  using assms
  by (auto simp: agent_informers_def agent_Nodes_def agent_Pods_def unused_def Let_def Lister_def Informer_def InformerFor_def
    NewSharedInformerFactory_def NewSharedInformerFactoryWithOptions_def factory_WaitForCacheSync_def AddEventHandler_def
    factory_Start_def go_Run_def defaultInformer_def NewFilteredVSwitchConfigInformer_def)


definition demo_core :: "nat core_informers" where
  "demo_core = \<lparr>new_node_informer = (\<lambda>c d. \<lparr>inf_client = c, inf_object = ''*v1.Node'', inf_resync = d, inf_indexers = [],
       inf_tweak = None, inf_handlers = [], inf_runs = 0\<rparr>),
     new_pod_informer = (\<lambda>c d. \<lparr>inf_client = c, inf_object = ''*v1.Pod'', inf_resync = d, inf_indexers = [],
       inf_tweak = None, inf_handlers = [], inf_runs = 0\<rparr>),
     zero_node = \<lparr>NodeMeta = \<lparr>Name = [], Namespace = [], ResourceVersion = [], Labels = []\<rparr>, NodePodCIDR = [], Addresses = []\<rparr>,
     zero_pod = \<lparr>PodMeta = \<lparr>Name = [], Namespace = [], ResourceVersion = [], Labels = []\<rparr>, PodIP = []\<rparr>\<rparr>"


end
