(* ===== verification/Fake_Clientset.thy ===== *)
theory Fake_Clientset
  imports Typed_Client
begin

text \<open>
  The rest of the fake client, \<open>fake_vswitchconfig.go\<close> and \<open>clientset_generated.go\<close>: watches, patches and
  the deletion of a collection on the object tracker. The channel of a watcher is the list of the events
  put on it; its capacity is not bounded here. Applying a patch document is a parameter.
\<close>

subsection \<open>Watches, patches, collections\<close>

text \<open>A watcher is its index among the watchers of its namespace.\<close>

definition tracker_Watch :: "GroupVersionResource \<Rightarrow> string \<Rightarrow> tracker \<Rightarrow> nat result \<times> tracker" where
  "tracker_Watch gvr ns t =
     (Inr (length (watchers t gvr ns)),
      t\<lparr>watchers := (watchers t)(gvr := (watchers t gvr)(ns := watchers t gvr ns @ [[]]))\<rparr>)"

definition fake_Watch :: "ListOptions \<Rightarrow> (tracker, nat) go" where
  "fake_Watch opts = State (tracker_Watch vswitchconfigsResource [])"

text \<open>\<open>ObjectReaction\<close> has no case for the action, so \<open>Invokes\<close> returns its default and no error.\<close>

definition fake_DeleteCollection :: "'d option \<Rightarrow> ListOptions \<Rightarrow> (tracker, unit) go" where
  "fake_DeleteCollection options listOptions = go_return ()"

definition fake_Patch ::
    "(string \<Rightarrow> string \<Rightarrow> VSwitchConfig \<Rightarrow> VSwitchConfig result) \<Rightarrow> string \<Rightarrow> string \<Rightarrow> string \<Rightarrow> string list \<Rightarrow>
     (tracker, VSwitchConfig) go" where
  "fake_Patch patch name pt data subresources = State (\<lambda>t.
     (case tracker_Get vswitchconfigsResource [] name t of
        Inl err \<Rightarrow> (Inl err, t)
      | Inr obj \<Rightarrow>
          (case patch pt data obj of
             Inl err \<Rightarrow> (Inl err, t)
           | Inr obj \<Rightarrow>
               (case tracker_Update vswitchconfigsResource obj [] t of
                  (Inl err, t') \<Rightarrow> (Inl err, t')
                | (Inr _, t') \<Rightarrow> (Inr obj, t')))))"

subsection \<open>What a watcher sees\<close>

text \<open>One call on the client, and its effect on the store.\<close>

datatype fake_call = CallCreate VSwitchConfig | CallUpdate VSwitchConfig | CallDelete string | CallGet string | CallList

fun fake_do :: "fake_call \<Rightarrow> tracker \<Rightarrow> tracker" where
  "fake_do (CallCreate v) t = snd (run_state (fake_Create v) t)"
| "fake_do (CallUpdate v) t = snd (run_state (fake_Update v) t)"
| "fake_do (CallDelete n) t = snd (run_state (fake_Delete n) t)"
| "fake_do (CallGet n) t = snd (run_state (fake_Get n) t)"
| "fake_do CallList t = snd (run_state (fake_List (\<lambda>_. True)) t)"

fun call_named :: "fake_call \<Rightarrow> bool" where
  "call_named (CallCreate v) = (vname v \<noteq> [])"
| "call_named (CallUpdate v) = (vname v \<noteq> [])"
| "call_named _ = True"

text \<open>A cache that follows the events.\<close>

fun apply_event :: "watch_event \<Rightarrow> (string \<rightharpoonup> VSwitchConfig) \<Rightarrow> (string \<rightharpoonup> VSwitchConfig)" where
  "apply_event (Added v) m = m(vname v \<mapsto> v)"
| "apply_event (Modified v) m = m(vname v \<mapsto> v)"
| "apply_event (Deleted v) m = m(vname v := None)"

definition follows :: "tracker \<Rightarrow> tracker \<Rightarrow> bool" where
  "follows t t' \<longleftrightarrow>
     (\<exists>evs. watchers t' vswitchconfigsResource [] = map (\<lambda>q. q @ evs) (watchers t vswitchconfigsResource []) \<and>
        tracker_view t' = fold apply_event evs (tracker_view t))"

lemma follows_refl: "follows t t"
  unfolding follows_def by (intro exI [of _ "[]"]) simp

lemma follows_trans: "follows t t' \<Longrightarrow> follows t' t'' \<Longrightarrow> follows t t''"
  unfolding follows_def
proof (elim exE conjE)
  fix a b
  assume a: "watchers t' vswitchconfigsResource [] = map (\<lambda>q. q @ a) (watchers t vswitchconfigsResource [])"
    "tracker_view t' = fold apply_event a (tracker_view t)"
    and b: "watchers t'' vswitchconfigsResource [] = map (\<lambda>q. q @ b) (watchers t' vswitchconfigsResource [])"
    "tracker_view t'' = fold apply_event b (tracker_view t')"
  show "\<exists>evs. watchers t'' vswitchconfigsResource [] = map (\<lambda>q. q @ evs) (watchers t vswitchconfigsResource []) \<and>
        tracker_view t'' = fold apply_event evs (tracker_view t)"
    by (intro exI [of _ "a @ b"]) (simp add: a b o_def)
qed

lemma follows_one:
  assumes "watchers t' vswitchconfigsResource [] = map (\<lambda>q. q @ [ev]) (watchers t vswitchconfigsResource [])"
    and "tracker_view t' = apply_event ev (tracker_view t)"
  shows "follows t t'"
  unfolding follows_def using assms by (intro exI [of _ "[ev]"]) simp

lemma notify_watchers: "watchers (notify gvr ns ev t) gvr [] = map (\<lambda>q. q @ [ev]) (watchers t gvr [])"
  by (simp add: notify_def)

lemma add_follows:
  assumes "tracker_wf t" and "vname v \<noteq> []" and run: "tracker_add vswitchconfigsResource v [] b t = (r, t')"
  shows "follows t t'"
proof (cases r)
  case (Inl e)
  then show ?thesis using tracker_add_spec [OF assms] follows_refl by simp
next
  case (Inr u)
  have ns: "Namespace (Meta v) = []"
    using run Inr by (auto simp: tracker_add_def Let_def split: if_splits)
  have view: "tracker_view t' = (tracker_view t)(vname v \<mapsto> v)" using tracker_add_spec [OF assms] Inr by simp
  have "\<exists>ev. watchers t' vswitchconfigsResource [] = map (\<lambda>q. q @ [ev]) (watchers t vswitchconfigsResource []) \<and>
      (ev = Added v \<or> ev = Modified v)"
    using run Inr unfolding tracker_add_root [OF ns]
    by (intro exI [of _ "if b then Modified v else Added v"]) (auto simp: notify_def split: option.splits if_splits)
  then show ?thesis using view by (auto intro: follows_one)
qed

lemma delete_follows:
  assumes "tracker_wf t" and run: "tracker_Delete vswitchconfigsResource [] n t = (r, t')"
  shows "follows t t'"
proof (cases r)
  case (Inl e)
  then show ?thesis using tracker_Delete_spec [OF assms] follows_refl by simp
next
  case (Inr u)
  have view: "tracker_view t' = (tracker_view t)(n := None)" using tracker_Delete_spec [OF assms] Inr by simp
  obtain before obj after where x: "List.extract (\<lambda>old. Namespace (Meta old) = [] \<and> vname old = n) (tracked t vswitchconfigsResource) =
      Some (before, obj, after)"
    and t': "t' = notify vswitchconfigsResource [] (Deleted obj) (t\<lparr>objects := (objects t)(vswitchconfigsResource \<mapsto> before @ after)\<rparr>)"
    using run Inr by (auto simp: tracker_Delete_def split: option.splits)
  have "vname obj = n" using x by (auto simp: extract_Some_iff)
  then show ?thesis using view by (intro follows_one [where ev = "Deleted obj"]) (simp_all add: t' notify_watchers)
qed

lemma fake_do_follows:
  assumes "tracker_wf t" and "call_named c"
  shows "follows t (fake_do c t) \<and> tracker_wf (fake_do c t)"
proof -
  have wr: "follows t (snd (run_state (reaction_write (\<lambda>t. tracker_add vswitchconfigsResource v [] b t) (vname v)) t)) \<and>
      tracker_wf (snd (run_state (reaction_write (\<lambda>t. tracker_add vswitchconfigsResource v [] b t) (vname v)) t))"
    if "vname v \<noteq> []" for v b
  proof -
    obtain r t1 where add: "tracker_add vswitchconfigsResource v [] b t = (r, t1)" by (rule prod.exhaust)
    then have "snd (run_state (reaction_write (\<lambda>t. tracker_add vswitchconfigsResource v [] b t) (vname v)) t) = t1"
      by (simp add: reaction_write_def split: sum.split)
    then show ?thesis using add_follows [OF assms(1) that add] tracker_add_spec [OF assms(1) that add] by simp
  qed
  show ?thesis
  proof (cases c)
    case (CallDelete n)
    obtain r t1 where "tracker_Delete vswitchconfigsResource [] n t = (r, t1)" by (rule prod.exhaust)
    then show ?thesis
      using delete_follows [OF assms(1)] tracker_Delete_spec [OF assms(1)] CallDelete by (simp add: fake_Delete_def)
  qed (use assms wr in \<open>auto simp: fake_Create_def fake_Update_def tracker_Create_def [abs_def] tracker_Update_def [abs_def] fake_Get_def
      fake_List_def follows_refl split: sum.split\<close>)
qed

lemma fake_calls_follow:
  "tracker_wf t \<Longrightarrow> list_all call_named calls \<Longrightarrow> follows t (fold fake_do calls t) \<and> tracker_wf (fold fake_do calls t)"
proof (induction calls arbitrary: t)
  case Nil
  then show ?case by (simp add: follows_refl)
next
  case (Cons c calls)
  then have "follows t (fake_do c t)" and "tracker_wf (fake_do c t)" using fake_do_follows by simp_all
  with Cons show ?case by (auto intro: follows_trans)
qed

lemma tracked_Watch: "tracked (snd (tracker_Watch gvr ns t)) g = tracked t g"
  by (simp add: tracker_Watch_def tracked_def)

definition demo_calls :: "fake_call list" where
  "demo_calls = [CallCreate (demo_config ''node1'' 7), CallUpdate (demo_config ''node2'' 8), CallDelete ''node1'']"

definition demo_watched :: tracker where
  "demo_watched = fold fake_do demo_calls (snd (run_state (fake_Watch empty_ListOptions) NewObjectTracker))"

subsection \<open>Properties\<close>



end
