(* ===== verification/Api_Scheme.thy ===== *)
theory Api_Scheme
  imports Object_Tracker
begin

text \<open>
  The scheme of the API group: \<open>apis/kubeovs/v1alpha1/register.go\<close>, the \<open>init\<close> functions of the two generated
  \<open>register.go\<close> and the part of \<open>runtime.Scheme\<close> they use. A scheme maps a group, version and kind to a Go
  type and back; the codecs of the clients decode by the first map and encode by the second.

  A Go type is its package and its name. Every registered object is statically a pointer to a
  struct, so the checks for that are left out, as are the conversion and defaulting functions.
\<close>

record go_type =
  type_pkg :: string
  type_name :: string

record GroupVersion =
  gv_Group :: string
  gv_Version :: string

record GroupVersionKind =
  gvk_Group :: string
  gvk_Version :: string
  gvk_Kind :: string

record Scheme =
  gvkToType :: "GroupVersionKind \<rightharpoonup> go_type"
  typeToGVK :: "go_type \<Rightarrow> GroupVersionKind list"
  unversionedTypes :: "go_type \<rightharpoonup> GroupVersionKind"
  unversionedKinds :: "string \<rightharpoonup> go_type"
  observedVersions :: "GroupVersion list"

definition WithKind :: "GroupVersion \<Rightarrow> string \<Rightarrow> GroupVersionKind" where
  "WithKind gv kind = \<lparr>gvk_Group = gv_Group gv, gvk_Version = gv_Version gv, gvk_Kind = kind\<rparr>"

definition WithResource :: "GroupVersion \<Rightarrow> string \<Rightarrow> GroupVersionResource" where
  "WithResource gv resource = \<lparr>Group = gv_Group gv, Version = gv_Version gv, Resource = resource\<rparr>"

definition gvk_GroupVersion :: "GroupVersionKind \<Rightarrow> GroupVersion" where
  "gvk_GroupVersion gvk = \<lparr>gv_Group = gvk_Group gvk, gv_Version = gvk_Version gvk\<rparr>"

definition APIVersionInternal :: string where
  "APIVersionInternal = ''__internal''"

definition NewScheme :: Scheme where
  "NewScheme = \<lparr>gvkToType = Map.empty, typeToGVK = (\<lambda>_. []), unversionedTypes = Map.empty,
     unversionedKinds = Map.empty, observedVersions = []\<rparr>"

definition addObservedVersion :: "GroupVersion \<Rightarrow> Scheme \<Rightarrow> Scheme" where
  "addObservedVersion version s =
     (if gv_Version version = [] \<or> gv_Version version = APIVersionInternal then s
      else if version \<in> set (observedVersions s) then s
      else s\<lparr>observedVersions := observedVersions s @ [version]\<rparr>)"

definition AddKnownTypeWithName :: "GroupVersionKind \<Rightarrow> go_type \<Rightarrow> Scheme \<Rightarrow> Scheme outcome" where
  "AddKnownTypeWithName gvk t s =
     (let s = addObservedVersion (gvk_GroupVersion gvk) s in
      if gvk_Version gvk = [] then Panics ExplicitPanic
      else if (case gvkToType s gvk of None \<Rightarrow> False | Some oldT \<Rightarrow> oldT \<noteq> t) then Panics ExplicitPanic
      else
        (let s = s\<lparr>gvkToType := (gvkToType s)(gvk \<mapsto> t)\<rparr> in
         if gvk \<in> set (typeToGVK s t) then Returns s
         else Returns (s\<lparr>typeToGVK := (typeToGVK s)(t := typeToGVK s t @ [gvk])\<rparr>)))"

fun known_loop :: "GroupVersion \<Rightarrow> go_type list \<Rightarrow> Scheme \<Rightarrow> Scheme outcome" where
  "known_loop gv [] s = Returns s"
| "known_loop gv (t # types) s =
     bind_outcome (AddKnownTypeWithName (WithKind gv (type_name t)) t s) (known_loop gv types)"

definition AddKnownTypes :: "GroupVersion \<Rightarrow> go_type list \<Rightarrow> Scheme \<Rightarrow> Scheme outcome" where
  "AddKnownTypes gv types s = known_loop gv types (addObservedVersion gv s)"

fun unversioned_loop :: "GroupVersion \<Rightarrow> go_type list \<Rightarrow> Scheme \<Rightarrow> Scheme outcome" where
  "unversioned_loop version [] s = Returns s"
| "unversioned_loop version (t # types) s =
     (let gvk = WithKind version (type_name t);
          s = s\<lparr>unversionedTypes := (unversionedTypes s)(t \<mapsto> gvk)\<rparr> in
      if (case unversionedKinds s (gvk_Kind gvk) of None \<Rightarrow> False | Some old \<Rightarrow> t \<noteq> old) then Panics ExplicitPanic
      else unversioned_loop version types (s\<lparr>unversionedKinds := (unversionedKinds s)(gvk_Kind gvk \<mapsto> t)\<rparr>))"

definition AddUnversionedTypes :: "GroupVersion \<Rightarrow> go_type list \<Rightarrow> Scheme \<Rightarrow> Scheme outcome" where
  "AddUnversionedTypes version types s =
     bind_outcome (AddKnownTypes version types (addObservedVersion version s)) (unversioned_loop version types)"

definition Recognizes :: "Scheme \<Rightarrow> GroupVersionKind \<Rightarrow> bool" where
  "Recognizes s gvk \<longleftrightarrow> gvkToType s gvk \<noteq> None"

text \<open>\<open>New\<close> gives a zero object of a type: here the type.\<close>

definition scheme_New :: "Scheme \<Rightarrow> GroupVersionKind \<Rightarrow> go_type result" where
  "scheme_New s kind =
     (case gvkToType s kind of
        Some t \<Rightarrow> Inr t
      | None \<Rightarrow>
          (case unversionedKinds s (gvk_Kind kind) of
             Some t \<Rightarrow> Inr t
           | None \<Rightarrow> Inl (Errorf ''no kind %q is registered for version %q in scheme %q'' [gvk_Kind kind])))"

text \<open>A type is missing from the map exactly when it has no kinds: an entry is never empty.\<close>

definition ObjectKinds :: "Scheme \<Rightarrow> go_type \<Rightarrow> (GroupVersionKind list \<times> bool) result" where
  "ObjectKinds s t =
     (if typeToGVK s t = [] then Inl (Errorf ''no kind is registered for the type %v in scheme %q'' [type_name t])
      else Inr (typeToGVK s t, unversionedTypes s t \<noteq> None))"

subsection \<open>Registration\<close>

abbreviation metav1_type :: "string \<Rightarrow> go_type" where
  "metav1_type n \<equiv> \<lparr>type_pkg = ''k8s.io/apimachinery/pkg/apis/meta/v1'', type_name = n\<rparr>"

abbreviation kubeovs_type :: "string \<Rightarrow> go_type" where
  "kubeovs_type n \<equiv> \<lparr>type_pkg = ''github.com/kube-ovs/kube-ovs/apis/kubeovs/v1alpha1'', type_name = n\<rparr>"

definition Unversioned :: GroupVersion where
  "Unversioned = \<lparr>gv_Group = [], gv_Version = ''v1''\<rparr>"

definition meta_options :: "go_type list" where
  "meta_options = map metav1_type [''ListOptions'', ''ExportOptions'', ''GetOptions'', ''DeleteOptions'',
     ''CreateOptions'', ''UpdateOptions'', ''PatchOptions'']"

definition meta_unversioned :: "go_type list" where
  "meta_unversioned = map metav1_type [''Status'', ''APIVersions'', ''APIGroupList'', ''APIGroup'', ''APIResourceList'']"

definition AddToGroupVersion :: "Scheme \<Rightarrow> GroupVersion \<Rightarrow> Scheme outcome" where
  "AddToGroupVersion scheme groupVersion =
     bind_outcome (AddKnownTypeWithName (WithKind groupVersion ''WatchEvent'') (metav1_type ''WatchEvent'') scheme) (\<lambda>scheme.
     bind_outcome (AddKnownTypeWithName
       (WithKind \<lparr>gv_Group = gv_Group groupVersion, gv_Version = APIVersionInternal\<rparr> ''WatchEvent'')
       (metav1_type ''InternalEvent'') scheme) (\<lambda>scheme.
     bind_outcome (AddKnownTypes groupVersion meta_options scheme) (\<lambda>scheme.
     AddUnversionedTypes Unversioned meta_unversioned scheme)))"

definition GroupName :: string where
  "GroupName = ''kubeovs.io''"

definition SchemeGroupVersion :: GroupVersion where
  "SchemeGroupVersion = \<lparr>gv_Group = GroupName, gv_Version = ''v1alpha1''\<rparr>"

text \<open>\<open>Kind\<close> and \<open>Resource\<close> drop the version: a pair of group and name.\<close>

definition v1alpha1_Kind :: "string \<Rightarrow> string \<times> string" where
  "v1alpha1_Kind kind = (let gvk = WithKind SchemeGroupVersion kind in (gvk_Group gvk, gvk_Kind gvk))"

definition v1alpha1_Resource :: "string \<Rightarrow> string \<times> string" where
  "v1alpha1_Resource resource =
     (let gvr = WithResource SchemeGroupVersion resource in (Group gvr, Resource gvr))"

definition addKnownTypes :: "Scheme \<Rightarrow> (unit result \<times> Scheme) outcome" where
  "addKnownTypes scheme =
     bind_outcome (AddKnownTypes SchemeGroupVersion [kubeovs_type ''VSwitchConfig'', kubeovs_type ''VSwitchConfigList''] scheme)
       (\<lambda>scheme. map_outcome (Pair (Inr ())) (AddToGroupVersion scheme SchemeGroupVersion))"

type_synonym SchemeBuilder = "(Scheme \<Rightarrow> (unit result \<times> Scheme) outcome) list"

fun builder_AddToScheme :: "SchemeBuilder \<Rightarrow> Scheme \<Rightarrow> (unit result \<times> Scheme) outcome" where
  "builder_AddToScheme [] s = Returns (Inr (), s)"
| "builder_AddToScheme (f # fs) s =
     bind_outcome (f s) (\<lambda>(r, s). case r of Inl err \<Rightarrow> Returns (Inl err, s) | Inr _ \<Rightarrow> builder_AddToScheme fs s)"

definition v1alpha1_SchemeBuilder :: SchemeBuilder where
  "v1alpha1_SchemeBuilder = [addKnownTypes]"

definition localSchemeBuilder :: SchemeBuilder where
  "localSchemeBuilder = [builder_AddToScheme v1alpha1_SchemeBuilder]"

text \<open>The \<open>init\<close> of the clientset's scheme package.\<close>

definition scheme_init :: "Scheme outcome" where
  "scheme_init =
     bind_outcome (AddToGroupVersion NewScheme \<lparr>gv_Group = [], gv_Version = ''v1''\<rparr>) (\<lambda>scheme.
     bind_outcome (builder_AddToScheme localSchemeBuilder scheme) (\<lambda>(err, scheme).
     case err of Inl _ \<Rightarrow> Panics ExplicitPanic | Inr _ \<Rightarrow> Returns scheme))"

text \<open>The fake clientset has a scheme of its own, built by its own builder.\<close>

definition fake_localSchemeBuilder :: SchemeBuilder where
  "fake_localSchemeBuilder = [builder_AddToScheme v1alpha1_SchemeBuilder]"

definition fake_scheme_init :: "Scheme outcome" where
  "fake_scheme_init =
     bind_outcome (AddToGroupVersion NewScheme \<lparr>gv_Group = [], gv_Version = ''v1''\<rparr>) (\<lambda>scheme.
     bind_outcome (builder_AddToScheme fake_localSchemeBuilder scheme) (\<lambda>(err, scheme).
     case err of Inl _ \<Rightarrow> Panics ExplicitPanic | Inr _ \<Rightarrow> Returns scheme))"

text \<open>So what one clientset encodes the other decodes.\<close>

lemma fake_scheme_init_eq: "fake_scheme_init = scheme_init"
  by (simp add: fake_scheme_init_def scheme_init_def fake_localSchemeBuilder_def localSchemeBuilder_def)

subsection \<open>The two maps agree\<close>

definition scheme_inv :: "Scheme \<Rightarrow> bool" where
  "scheme_inv s \<longleftrightarrow> (\<forall>gvk t. gvkToType s gvk = Some t \<longleftrightarrow> gvk \<in> set (typeToGVK s t)) \<and>
     (\<forall>t. distinct (typeToGVK s t))"

lemma addObservedVersion_maps [simp]:
  "gvkToType (addObservedVersion v s) = gvkToType s" "typeToGVK (addObservedVersion v s) = typeToGVK s"
  "unversionedKinds (addObservedVersion v s) = unversionedKinds s" "unversionedTypes (addObservedVersion v s) = unversionedTypes s"
  by (simp_all add: addObservedVersion_def)

definition keeps_scheme_inv :: "(Scheme \<Rightarrow> Scheme outcome) \<Rightarrow> bool" where
  "keeps_scheme_inv f \<longleftrightarrow> (\<forall>s s'. scheme_inv s \<longrightarrow> f s = Returns s' \<longrightarrow> scheme_inv s')"

named_theorems registers \<open>registrations keep the invariant\<close>

lemma registers_bind [registers]: "keeps_scheme_inv f \<Longrightarrow> keeps_scheme_inv g \<Longrightarrow> keeps_scheme_inv (\<lambda>s. bind_outcome (f s) g)"
  unfolding keeps_scheme_inv_def by (metis bind_outcome_Returns_iff)

lemma registers_observed: "keeps_scheme_inv f \<Longrightarrow> keeps_scheme_inv (\<lambda>s. f (addObservedVersion v s))"
proof -
  have "scheme_inv (addObservedVersion v s)" if "scheme_inv s" for s using that by (simp add: scheme_inv_def)
  then show "keeps_scheme_inv f \<Longrightarrow> ?thesis" unfolding keeps_scheme_inv_def by blast
qed

lemma scheme_inv_new: "scheme_inv NewScheme"
  by (simp add: scheme_inv_def NewScheme_def)

lemma registers_AddKnownTypeWithName [registers]: "keeps_scheme_inv (AddKnownTypeWithName gvk t)"
  unfolding keeps_scheme_inv_def
proof (intro allI impI)
  fix s s'
  assume "scheme_inv s" and add: "AddKnownTypeWithName gvk t s = Returns s'"
  then have inv: "gvkToType s g = Some u \<longleftrightarrow> g \<in> set (typeToGVK s u)" "distinct (typeToGVK s u)" for g u
    by (auto simp: scheme_inv_def)
  have fresh: "u = t" if "gvk \<in> set (typeToGVK s u)" for u
  proof -
    have "gvkToType s gvk = Some u" using that inv(1) by blast
    then show ?thesis using add by (auto simp: AddKnownTypeWithName_def Let_def split: if_splits)
  qed
  from add have maps: "gvkToType s' = (gvkToType s)(gvk \<mapsto> t)"
    "typeToGVK s' = (if gvk \<in> set (typeToGVK s t) then typeToGVK s else (typeToGVK s)(t := typeToGVK s t @ [gvk]))"
    by (auto simp: AddKnownTypeWithName_def Let_def split: if_splits)
  have kinds: "g \<in> set (typeToGVK s' u) \<longleftrightarrow> g \<in> set (typeToGVK s u) \<or> g = gvk \<and> u = t" for g u
    unfolding maps(2) by auto
  have "gvkToType s' g = Some u \<longleftrightarrow> g \<in> set (typeToGVK s' u)" for g u
    unfolding kinds maps(1) fun_upd_apply using inv(1) fresh by (cases "g = gvk") auto
  moreover have "distinct (typeToGVK s' u)" for u unfolding maps(2) using inv(2) by auto
  ultimately show "scheme_inv s'" unfolding scheme_inv_def by blast
qed

text \<open>A kind cannot be given a second type.\<close>

lemma AddKnownTypeWithName_panics:
  "gvkToType s gvk = Some t' \<Longrightarrow> t' \<noteq> t \<Longrightarrow> AddKnownTypeWithName gvk t s = Panics ExplicitPanic"
  by (simp add: AddKnownTypeWithName_def Let_def)

lemma registers_known_loop [registers]: "keeps_scheme_inv (known_loop gv ts)"
proof (induction ts)
  case (Cons t ts)
  then have "keeps_scheme_inv (\<lambda>s. bind_outcome (AddKnownTypeWithName (WithKind gv (type_name t)) t s) (known_loop gv ts))"
    by (intro registers)
  then show ?case by simp
qed (simp add: keeps_scheme_inv_def)

lemma registers_AddKnownTypes [registers]: "keeps_scheme_inv (AddKnownTypes gv ts)"
  using registers_observed [OF registers_known_loop, of gv ts gv] unfolding keeps_scheme_inv_def AddKnownTypes_def .

lemma registers_unversioned_loop [registers]: "keeps_scheme_inv (unversioned_loop gv ts)"
proof -
  have "unversioned_loop gv ts s = Returns s' \<Longrightarrow> gvkToType s' = gvkToType s \<and> typeToGVK s' = typeToGVK s" for s s'
    by (induction ts arbitrary: s) (auto simp: Let_def split: if_splits)
  then show ?thesis by (auto simp: keeps_scheme_inv_def scheme_inv_def)
qed

lemma registers_AddUnversionedTypes [registers]: "keeps_scheme_inv (AddUnversionedTypes gv ts)"
  unfolding AddUnversionedTypes_def [abs_def]
  by (rule registers_bind [OF registers_observed [OF registers_AddKnownTypes] registers_unversioned_loop])

lemma registers_AddToGroupVersion [registers]: "keeps_scheme_inv (\<lambda>s. AddToGroupVersion s gv)"
  unfolding AddToGroupVersion_def by (intro registers)

text \<open>With both maps in agreement, encoding and decoding an object give back its type.\<close>

lemma kinds_decode:
  assumes "scheme_inv s" and "ObjectKinds s t = Inr (gvks, b)" and "gvk \<in> set gvks"
  shows "scheme_New s gvk = Inr t"
proof -
  have "gvkToType s gvk = Some t" using assms by (auto simp: ObjectKinds_def scheme_inv_def split: if_splits)
  then show ?thesis by (simp add: scheme_New_def)
qed

lemma registers_addKnownTypes:
  assumes "scheme_inv s" and "addKnownTypes s = Returns (r, s')"
  shows "r = Inr () \<and> scheme_inv s'"
proof -
  let ?add = "\<lambda>s. bind_outcome (AddKnownTypes SchemeGroupVersion [kubeovs_type ''VSwitchConfig'', kubeovs_type ''VSwitchConfigList''] s)
    (\<lambda>s. AddToGroupVersion s SchemeGroupVersion)"
  have "addKnownTypes s = map_outcome (Pair (Inr ())) (?add s)"
    unfolding addKnownTypes_def
    by (cases "AddKnownTypes SchemeGroupVersion [kubeovs_type ''VSwitchConfig'', kubeovs_type ''VSwitchConfigList''] s") simp_all
  then have "r = Inr ()" "?add s = Returns s'" using assms(2) by (cases "?add s"; simp)+
  moreover have "keeps_scheme_inv ?add" by (intro registers)
  ultimately show ?thesis using assms(1) unfolding keeps_scheme_inv_def by blast
qed

lemma scheme_init_inv:
  assumes "scheme_init = Returns s"
  shows "scheme_inv s"
proof -
  obtain s1 where s1: "AddToGroupVersion NewScheme \<lparr>gv_Group = [], gv_Version = ''v1''\<rparr> = Returns s1"
    and rest: "bind_outcome (builder_AddToScheme localSchemeBuilder s1)
      (\<lambda>(err, scheme). case err of Inl _ \<Rightarrow> Panics ExplicitPanic | Inr _ \<Rightarrow> Returns scheme) = Returns s"
    using assms unfolding scheme_init_def by (cases "AddToGroupVersion NewScheme \<lparr>gv_Group = [], gv_Version = ''v1''\<rparr>") simp_all
  have "scheme_inv s1" using registers_AddToGroupVersion scheme_inv_new s1 unfolding keeps_scheme_inv_def by blast
  then show ?thesis
    using rest registers_addKnownTypes [of s1]
    by (cases "addKnownTypes s1") (auto simp: localSchemeBuilder_def v1alpha1_SchemeBuilder_def)
qed

lemma init_recognizes:
  "case scheme_init of
     Panics _ \<Rightarrow> False
   | Returns s \<Rightarrow>
       scheme_New s (WithKind SchemeGroupVersion ''VSwitchConfig'') = Inr (kubeovs_type ''VSwitchConfig'') \<and>
       scheme_New s (WithKind SchemeGroupVersion ''VSwitchConfigList'') = Inr (kubeovs_type ''VSwitchConfigList'') \<and>
       scheme_New s (WithKind SchemeGroupVersion ''Status'') = Inr (metav1_type ''Status'')"
  by code_simp

end
