(* ===== verification/Spec2Isabelle.thy ===== *)
theory Spec2Isabelle
  imports Control_Plane Of_Delivery Node_Agent Cni_Gateways Cni_Main Agent_Wiring Fake_Clientset Informer_Factory Api_Scheme
begin

text \<open>
  A verification development for kube-ovs, a Kubernetes network plugin on Open vSwitch.

  \<^bold>\<open>The program.\<close> Three executables share an API object, the \<open>VSwitchConfig\<close>, one per node
  (\<open>apis/kubeovs/v1alpha1/types.go\<close>): its pod, cluster and service CIDRs, its overlay address and
  the tunnel identifier of its traffic.

  \<^item> \<open>kube-ovs-controller\<close> (\<open>cmd/kube-ovs-controller/main.go\<close>) runs two informer handlers against the API
    server. \<open>controllers/vswitchcfg\<close> writes the \<open>VSwitchConfig\<close> of every node;
    \<open>controllers/tunnel\<close> gives each an identifier that no other has.
  \<^item> \<open>kube-ovs\<close> (\<open>cmd/kube-ovs/main.go\<close>), the agent of a node, prepares the host (bridge, ports, routes,
    iptables, the CNI configuration file), waits for its node's \<open>VSwitchConfig\<close>, and then serves as the OpenFlow
    controller of the local switch: \<open>controllers/openflow\<close> turns virtual switches and pods into flow
    messages, \<open>connection\<close> queues and writes them to the switch and reads its answers, \<open>controllers/ports\<close>
    keeps the VXLAN port.
  \<^item> \<open>kube-ovs-cni\<close> (\<open>cmd/kube-ovs-cni/plugin.go\<close>) is called by the kubelet for each pod. It attaches the pod to the
    bridge and records the pod's name in the switch database, where the OpenFlow controller finds it.

  The generated code below \<open>apis/generated\<close> connects them with the server: typed client, fake client,
  lister, informer factory.

  \<^bold>\<open>How Go is modelled.\<close> A Go function is a HOL function of the same name. An error is a value of \<open>'a result\<close>
  (\<open>Inl\<close> the error), a panic a value of \<open>'a outcome\<close>; a function that acts on a state is a
  state transformer (\<open>go\<close>, or \<open>gop\<close> where it can also panic). Integers keep their width as words,
  strings are character lists, \<open>[]byte\<close> is a list of 8-bit words and an access outside of it is a panic. What the
  code calls outside the repository is an argument: the commands and files of the host
  (\<open>Exec\<close>, \<open>AgentEnv\<close>, \<open>CniEnv\<close>), the API server, the TCP connection. Log lines are left out.

  \<^bold>\<open>The theories.\<close>

  \<^item> \<open>Kube_Prelude\<close>: results, outcomes, state threading, shared lemmas. \<open>Go_Strings\<close>, \<open>Go_Bytes\<close>, \<open>Go_Net\<close>,
    \<open>Go_Json\<close>, \<open>Go_Exec\<close>: the parts of \<open>strings\<close>, \<open>strconv\<close>, \<open>encoding/binary\<close>, \<open>net\<close>, \<open>encoding/json\<close>
    and \<open>os/exec\<close> that the program uses.
  \<^item> \<open>Kube_Api\<close>: the API objects, their deep copies, and the contract of the client as the locale
    \<open>vswitch_api\<close>, with \<open>reliable_vswitch_api\<close> for a server whose calls succeed. The controllers are verified against
    the contract; \<open>Object_Tracker\<close> (the fake client's in-memory server, \<open>fixture.go\<close> and \<open>fake_vswitchconfig.go\<close>)
    interprets both, \<open>Typed_Client\<close> (\<open>vswitchconfig.go\<close>, \<open>kubeovs_client.go\<close>, \<open>clientset.go\<close> and the request builder
    of \<open>client-go\<close>) carries the contract from a server over to the generated client
    (\<open>served_client\<close>). \<open>Fake_Clientset\<close> adds watches, patches and collections.
  \<^item> \<open>Api_Scheme\<close>: the registration of the API's kinds (\<open>register.go\<close>): the maps between kinds and types stay
    inverse to each other and \<open>init\<close> does not panic.
  \<^item> \<open>Informer_Factory\<close>: \<open>informers/externalversions/factory.go\<close> with the informer and lister of virtual switches, and
    \<open>main\<close> of kube-ovs-controller. The state is the factory's maps and a heap of informers.
  \<^item> \<open>Tunnel_Allocator\<close> (\<open>controllers/tunnel/allocator.go\<close>) and \<open>VSwitch_Controller\<close>
    (\<open>controllers/vswitchcfg/vswitchcfg.go\<close>): every handler, the search for an identifier, \<open>needsUpdate\<close> and
    \<open>syncVSwitchConfig\<close>. Neither keeps a state; they act on the server's. \<open>Control_Plane\<close> runs both on one
    server: handler by handler (\<open>plane_do\<close>), and interleaved call by call (\<open>plane_step\<close>).
  \<^item> \<open>Ofp_Flow_Mod\<close>, \<open>Ofp_Messages\<close>: the OpenFlow 1.3 messages of the vendored \<open>gofc\<close> package, as built,
    serialised and parsed. \<open>Ofp_Wire\<close> reads the bytes by the OpenFlow specification; \<open>abs_flow\<close> is the flow entry
    that a message stands for.
  \<^item> \<open>Of_Controller\<close>: \<open>controllers/openflow/{controller,flows,datalink}.go\<close>. Its world \<open>of_world\<close> holds the messages
    handed to \<open>Send\<close>, the transaction counter and the host. \<open>Of_Flows\<close> shows the messages to be valid,
    \<open>Of_Entries\<close> gives the entries that each handler sends, \<open>Of_Pipeline\<close> runs packets through the tables of a
    switch and compares with the direct description \<open>route\<close>, and \<open>Of_Node\<close> goes from Kubernetes events to
    forwarded packets.
  \<^item> \<open>Of_Connection\<close>: \<open>connection/connection.go\<close>, the goroutines as program counters over the shared queue, mutexes and
    condition variables; the locale \<open>channel\<close> is the queue's abstract specification. \<open>Of_Delivery\<close> joins it with
    the controller and a switch that reads the connection.
  \<^item> \<open>Vxlan_Ports\<close>: \<open>controllers/ports/vxlan.go\<close> and the two handlers that only log
    (\<open>controllers/endpoints.go\<close>, \<open>controllers/service.go\<close>). \<open>Node_Agent\<close>: \<open>cmd/kube-ovs/main.go\<close>.
    \<open>Agent_Wiring\<close> adds the informers it starts.
  \<^item> \<open>Cni_Plugin\<close>: \<open>cmd/kube-ovs-cni/plugin.go\<close>. Its state is the process environment and the host; the IPAM plugin is looked
    up in \<open>CNI_PATH\<close> and run by the delegation of \<open>pkg/invoke\<close>, which reads \<open>CNI_COMMAND\<close> from that environment.
    \<open>Cni_Result\<close> holds the two layouts of a result, their conversions and the version checks; \<open>Cni_Main\<close> is
    \<open>cmd/kube-ovs-cni/main.go\<close> with the dispatcher it calls (\<open>pkg/skel\<close>): environment, standard input, version, handler, exit
    status. \<open>Cni_Properties\<close>, \<open>Pod_Attachment\<close>, \<open>Cni_Gateways\<close>: properties of the plugin, alone and
    together with the agent that writes its configuration and the controller that reads its ports.

  \<^bold>\<open>What is shown.\<close> C1 to C9: identifiers are unique, stable and eventually assigned, each node ends up with the
  configuration it should have, for each controller alone and for both at once. C10 to C12: all messages are well formed, decode
  to exactly the intended entries, and survive a round trip as far as the codec allows. C13: a node forwards
  packets by its address plan. C14 to C16: the connection manager is safe, first-in first-out and makes progress.
  C17 puts these together: from Kubernetes events, through the queue and the bytes on the connection, to forwarded
  packets. C18 and C19: received packets are read in order when each read returns one, and what happens
  otherwise. C20 to C22: the agent
  starts without a panic, or exits, within its time limit, and its host set-up is idempotent. C23 to C33: the CNI plugin
  leaks no address, call by call and as a process, runs the handler its caller asked for and only for versions it knows,
  attaches and detaches by the keys the controller reads, loads what the agent writes and sets the routes and
  addresses it is told to. C34 to C37: the generated client refines the interface, and the fake client's watches
  follow its store. C38 to C40: informers are shared and started once, and the controller and the agent are wired as intended.

  \<^bold>\<open>Bounds and fuel.\<close> The agent polls for its configuration every five seconds and gives up after sixty: with
  a clock that advances, 13 polls are enough and at most 12 waits happen (C21). The JSON reader
  starts with more fuel than its input is long; each call consumes a character before the next, so it is enough.
  The writing goroutines of the connection need at most 29 steps of their own to write a pending message (C16). The
  allocator serves 9900 identifiers; the uniqueness results ask for at most that many configurations.

  \<^bold>\<open>Assumptions on the outside.\<close> They are named where they are used: the contract of the API server
  (\<open>vswitch_api\<close>, \<open>reliable_vswitch_api\<close>, \<open>serves\<close>), caches that lag (\<open>lagging\<close>), commands that answer (\<open>host_serves\<close>,
  \<open>reads_port\<close>), the behaviour of the process environment, the address plugin and netlink (\<open>os_env\<close>, \<open>manages\<close>,
  \<open>network_only\<close>, \<open>link_addrs\<close>), a monotone clock (\<open>clock_ok\<close>). Handlers of the composed runs in C8 are taken one
  at a time; C9 drops this.

  \<^bold>\<open>Not modelled.\<close> Signal handling in the \<open>main\<close> functions and the loops of \<open>client-go\<close>'s informers; the
  JSON text of results and errors of the CNI plugin and the run of a delegated plugin, which are parameters; HTTP, JSON encoding of requests, retries and rate limits
  behind the REST client; conversion and defaulting functions and codecs of the scheme; parsers of OpenFlow messages that the program
  only discards; empty expansion interfaces, package documents, tests and vendored code that the source only calls.
\<close>

subsection \<open>The controllers on the generated client\<close>

text \<open>The interleaving of the controllers over the typed client instead of the server itself.\<close>

lemma control_plane_over_client:
  assumes "serves rc d api" and "vswitch_api api view ok"
    and "(plane_step v (rest_VSwitchConfigs rc d) view N)\<^sup>*\<^sup>* c c'"
    and "finite N" and "card N \<le> 9900" and "plane_inv view ok N c"
  shows "plane_inv view ok N c'"
  by (rule vswitch_api.plane_steps_inv [OF serves_vswitch_api [OF assms(1,2)] assms(3-6)])

end
